(* ===== verification/Prelude.thy ===== *)
theory Prelude
  imports Complex_Main "HOL-Library.Sublist" "HOL-Library.Multiset"
begin

text \<open>
  What every component of the model shares: Go's error values and the parts of the Go standard
  library the sources call on strings (packages \<open>strings\<close>, \<open>strconv\<close>, \<open>fmt\<close>, \<open>sort\<close>).
  A Go \<open>string\<close> and a \<open>[]byte\<close> are both an Isabelle \<open>string\<close>, a list of 8-bit characters,
  so lengths count bytes as Go's \<open>len\<close> does. Case mapping and white space are those of ASCII.
\<close>

section \<open>Collections and generic lemmas\<close>

named_theorems go_simps \<open>unfolding the small library functions\<close>

definition last_n :: "nat \<Rightarrow> 'a list \<Rightarrow> 'a list" where
  "last_n n xs = drop (length xs - n) xs"

lemma length_last_n [simp]: "length (last_n n xs) = min n (length xs)"
  by (auto simp: last_n_def)

lemma last_n_all: "length xs \<le> n \<Longrightarrow> last_n n xs = xs"
  by (simp add: last_n_def)

lemma last_n_snoc: "0 < n \<Longrightarrow> last_n n (xs @ [x]) = last_n (n - 1) xs @ [x]"
  by (auto simp: last_n_def Suc_diff_le)

lemma list_eq_nth: "length xs = n \<Longrightarrow> (\<And>i. i < n \<Longrightarrow> xs ! i = f i) \<Longrightarrow> xs = map f [0..<n]"
  by (rule nth_equalityI) auto

lemma find_filter_hd: "List.find P xs = (case filter P xs of [] \<Rightarrow> None | x # _ \<Rightarrow> Some x)"
  by (induction xs) auto

lemma find_None_iff_all: "List.find P xs = None \<longleftrightarrow> (\<forall>x \<in> set xs. \<not> P x)"
  by (auto simp: find_None_iff)

lemma find_SomeD: "List.find P xs = Some x \<Longrightarrow> x \<in> set xs \<and> P x"
  by (auto simp: find_Some_iff)

lemma fresh_upd:
  "(\<forall>r \<in> S. (seen(k \<mapsto> i)) (f r) = None) \<longleftrightarrow> k \<notin> f ` S \<and> (\<forall>r \<in> S. seen (f r) = None)"
  by auto

section \<open>Errors as values\<close>

text \<open>
  \<open>Sentinel s\<close> is a package-level \<open>errors.New(s)\<close> that callers compare with \<open>errors.Is\<close>;
  \<open>ErrText s\<close> is an error nobody compares with; \<open>ErrWrap pre e suf\<close> is
  \<open>fmt.Errorf(pre + "%w" + suf, e)\<close>.
\<close>

datatype go_error =
    Sentinel string
  | ErrText string
  | ErrWrap string go_error string

primrec errors_is :: "go_error \<Rightarrow> string \<Rightarrow> bool" where
  "errors_is (Sentinel t) s = (t = s)"
| "errors_is (ErrText t) s = False"
| "errors_is (ErrWrap p e q) s = errors_is e s"

primrec error_text :: "go_error \<Rightarrow> string" where
  "error_text (Sentinel t) = t"
| "error_text (ErrText t) = t"
| "error_text (ErrWrap p e q) = p @ error_text e @ q"

type_synonym 'a res = "go_error + 'a"

primrec is_ok :: "'e + 'a \<Rightarrow> bool" where
  "is_ok (Inl e) = False"
| "is_ok (Inr x) = True"

lemma is_ok_iff: "is_ok r \<longleftrightarrow> (\<exists>x. r = Inr x)"
  by (cases r) auto

section \<open>Package strings\<close>

definition has_prefix :: "string \<Rightarrow> string \<Rightarrow> bool" where
  "has_prefix s p \<longleftrightarrow> take (length p) s = p"

definition has_suffix :: "string \<Rightarrow> string \<Rightarrow> bool" where
  "has_suffix s p \<longleftrightarrow> length p \<le> length s \<and> drop (length s - length p) s = p"

definition trim_prefix :: "string \<Rightarrow> string \<Rightarrow> string" where
  "trim_prefix s p = (if has_prefix s p then drop (length p) s else s)"

definition trim_suffix :: "string \<Rightarrow> string \<Rightarrow> string" where
  "trim_suffix s p = (if has_suffix s p then take (length s - length p) s else s)"

definition is_space :: "char \<Rightarrow> bool" where
  "is_space c \<longleftrightarrow> c = CHR 0x20 \<or> c = CHR 0x09 \<or> c = CHR 0x0A \<or> c = CHR 0x0B \<or> c = CHR 0x0C \<or> c = CHR 0x0D"

definition trim_space :: "string \<Rightarrow> string" where
  "trim_space s = rev (dropWhile is_space (rev (dropWhile is_space s)))"

definition lower_char :: "char \<Rightarrow> char" where
  "lower_char c = (let n = (of_char c :: nat) in
     if 65 \<le> n \<and> n \<le> 90 then char_of (n + 32) else c)"

definition to_lower :: "string \<Rightarrow> string" where
  "to_lower s = map lower_char s"

definition equal_fold :: "string \<Rightarrow> string \<Rightarrow> bool" where
  "equal_fold s t \<longleftrightarrow> to_lower s = to_lower t"

text \<open>Byte order on strings.\<close>

fun string_le :: "string \<Rightarrow> string \<Rightarrow> bool" where
  "string_le [] t = True"
| "string_le (a # s) [] = False"
| "string_le (a # s) (b # t) =
     ((of_char a :: nat) < of_char b \<or> (a = b \<and> string_le s t))"

text \<open>\<open>strings.Split\<close> with a one-byte separator; the result is never empty.\<close>

fun split_on :: "char \<Rightarrow> string \<Rightarrow> string list" where
  "split_on c [] = [[]]"
| "split_on c (x # xs) =
     (if x = c then [] # split_on c xs
      else case split_on c xs of [] \<Rightarrow> [[x]] | y # ys \<Rightarrow> (x # y) # ys)"

text \<open>\<open>strings.SplitN(s, sep, 2)\<close> with a one-byte separator: one part, or two.\<close>

fun split_n2 :: "char \<Rightarrow> string \<Rightarrow> string list" where
  "split_n2 c [] = [[]]"
| "split_n2 c (x # xs) =
     (if x = c then [[], xs]
      else case split_n2 c xs of [] \<Rightarrow> [[x]] | y # ys \<Rightarrow> (x # y) # ys)"

fun join_with :: "string \<Rightarrow> string list \<Rightarrow> string" where
  "join_with sep [] = []"
| "join_with sep [x] = x"
| "join_with sep (x # y # ys) = x @ sep @ join_with sep (y # ys)"

definition replace_char :: "char \<Rightarrow> string \<Rightarrow> string \<Rightarrow> string" where
  "replace_char c r s = concat (map (\<lambda>x. if x = c then r else [x]) s)"

text \<open>\<open>strings.Index\<close> and \<open>bytes.LastIndex\<close>; \<open>None\<close> is the result -1.\<close>

fun index_of :: "string \<Rightarrow> string \<Rightarrow> nat option" where
  "index_of [] p = (if p = [] then Some 0 else None)"
| "index_of (x # xs) p =
     (if has_prefix (x # xs) p then Some 0 else map_option Suc (index_of xs p))"

fun last_index_of :: "string \<Rightarrow> string \<Rightarrow> nat option" where
  "last_index_of [] p = (if p = [] then Some 0 else None)"
| "last_index_of (x # xs) p =
     (case last_index_of xs p of
        Some i \<Rightarrow> Some (Suc i)
      | None \<Rightarrow> if has_prefix (x # xs) p then Some 0 else None)"

section \<open>Numbers and quoting\<close>

definition digit_char :: "nat \<Rightarrow> char" where
  "digit_char d = char_of (48 + d)"

function show_nat :: "nat \<Rightarrow> string" where
  "show_nat n = (if n < 10 then [digit_char n] else show_nat (n div 10) @ [digit_char (n mod 10)])"
  by pat_completeness auto
termination
  by (relation "measure id") auto

declare show_nat.simps [simp del]

definition show_int :: "int \<Rightarrow> string" where
  "show_int i = (if i < 0 then CHR ''-'' # show_nat (nat (- i)) else show_nat (nat i))"

definition is_digit :: "char \<Rightarrow> bool" where
  "is_digit c \<longleftrightarrow> 48 \<le> (of_char c :: nat) \<and> (of_char c :: nat) \<le> 57"

definition digit_val :: "char \<Rightarrow> nat" where
  "digit_val c = of_char c - 48"

definition nat_of_digits :: "string \<Rightarrow> nat" where
  "nat_of_digits s = foldl (\<lambda>n c. 10 * n + digit_val c) 0 s"

text \<open>
  \<open>strconv.Atoi\<close>: an optional sign, at least one digit, the result within a signed 64-bit
  integer; \<open>None\<close> is the error.
\<close>

definition atoi_digits :: "bool \<Rightarrow> string \<Rightarrow> int option" where
  "atoi_digits neg s =
     (if s \<noteq> [] \<and> list_all is_digit s then
        let n = int (nat_of_digits s); v = (if neg then - n else n)
        in if - (2 ^ 63) \<le> v \<and> v < 2 ^ 63 then Some v else None
      else None)"

fun atoi :: "string \<Rightarrow> int option" where
  "atoi [] = None"
| "atoi (c # cs) =
     (if c = CHR ''-'' then atoi_digits True cs
      else if c = CHR ''+'' then atoi_digits False cs
      else atoi_digits False (c # cs))"

text \<open>\<open>%q\<close> of \<open>fmt\<close>: printable ASCII, and the bytes of printable UTF-8 text, stand for themselves.\<close>

definition hex_digit :: "nat \<Rightarrow> char" where
  "hex_digit d = (if d < 10 then char_of (48 + d) else char_of (87 + d))"

definition quote_char :: "char \<Rightarrow> string" where
  "quote_char c =
     (let n = (of_char c :: nat) in
      if c = CHR 0x22 \<or> c = CHR 0x5C then [CHR 0x5C, c]
      else if n = 7 then [CHR 0x5C, CHR ''a''] else if n = 8 then [CHR 0x5C, CHR ''b'']
      else if n = 9 then [CHR 0x5C, CHR ''t''] else if n = 10 then [CHR 0x5C, CHR ''n'']
      else if n = 11 then [CHR 0x5C, CHR ''v''] else if n = 12 then [CHR 0x5C, CHR ''f'']
      else if n = 13 then [CHR 0x5C, CHR ''r'']
      else if n < 32 \<or> n = 127 then [CHR 0x5C, CHR ''x'', hex_digit (n div 16), hex_digit (n mod 16)]
      else [c])"

definition go_quote :: "string \<Rightarrow> string" where
  "go_quote s = [CHR 0x22] @ concat (map quote_char s) @ [CHR 0x22]"

text \<open>Non-ASCII punctuation of the sources' messages, in UTF-8.\<close>

definition em_dash :: string where
  "em_dash = [CHR 0xE2, CHR 0x80, CHR 0x94]"

section \<open>Package encoding/hex\<close>

definition hex_encode :: "string \<Rightarrow> string" where
  "hex_encode bs = concat (map (\<lambda>c. let n = (of_char c :: nat)
     in [hex_digit (n div 16), hex_digit (n mod 16)]) bs)"

definition hex_val :: "char \<Rightarrow> nat option" where
  "hex_val c = (let n = (of_char c :: nat) in
     if 48 \<le> n \<and> n \<le> 57 then Some (n - 48)
     else if 97 \<le> n \<and> n \<le> 102 then Some (n - 87)
     else if 65 \<le> n \<and> n \<le> 70 then Some (n - 55)
     else None)"

fun hex_decode :: "string \<Rightarrow> string option" where
  "hex_decode [] = Some []"
| "hex_decode [c] = None"
| "hex_decode (a # b # r) =
     (case (hex_val a, hex_val b) of
        (Some x, Some y) \<Rightarrow> map_option (\<lambda>t. char_of (16 * x + y) # t) (hex_decode r)
      | _ \<Rightarrow> None)"

section \<open>Package sort\<close>

text \<open>
  \<open>sort.SliceStable\<close> on at most 20 elements is one pass of insertion sort: element \<open>i\<close> moves left
  while it is less than its left neighbour. The sorted prefix is kept reversed.
\<close>

fun ins_back :: "('a \<Rightarrow> 'a \<Rightarrow> bool) \<Rightarrow> 'a \<Rightarrow> 'a list \<Rightarrow> 'a list" where
  "ins_back lt x [] = [x]"
| "ins_back lt x (y # ys) = (if lt x y then y # ins_back lt x ys else x # y # ys)"

definition slice_stable :: "('a \<Rightarrow> 'a \<Rightarrow> bool) \<Rightarrow> 'a list \<Rightarrow> 'a list" where
  "slice_stable lt xs = rev (fold (ins_back lt) xs [])"


section \<open>Lemmas on the library functions\<close>

subsection \<open>Prefixes, indices and splitting\<close>

lemma has_prefix_iff: "has_prefix s p \<longleftrightarrow> (\<exists>r. s = p @ r)"
  unfolding has_prefix_def by (metis append_eq_conv_conj append_take_drop_id)

lemma has_prefix_append [simp]: "has_prefix (p @ s) p"
  by (auto simp: has_prefix_iff)

lemma has_prefix_Nil [simp]: "has_prefix s []"
  by (simp add: has_prefix_def)

lemma has_prefix_Cons [simp]: "has_prefix (x # xs) (y # ys) \<longleftrightarrow> x = y \<and> has_prefix xs ys"
  by (auto simp: has_prefix_def)

lemma has_prefix_Nil_left [simp]: "has_prefix [] p \<longleftrightarrow> p = []"
  by (auto simp: has_prefix_def)

lemma has_suffix_append [simp]: "has_suffix (s @ p) p"
  by (simp add: has_suffix_def)

lemma has_suffix_iff: "has_suffix s p \<longleftrightarrow> (\<exists>r. s = r @ p)"
proof
  assume "has_suffix s p"
  then have "s = take (length s - length p) s @ p"
    unfolding has_suffix_def by (metis append_take_drop_id)
  then show "\<exists>r. s = r @ p" ..
qed auto

lemma index_of_Some:
  "index_of s p = Some i \<Longrightarrow> i + length p \<le> length s \<and> has_prefix (drop i s) p"
proof (induction s p arbitrary: i rule: index_of.induct)
  case (1 p)
  then show ?case by (auto split: if_splits)
next
  case (2 x xs p)
  show ?case
  proof (cases "has_prefix (x # xs) p")
    case True
    with 2 show ?thesis by (auto simp: has_prefix_iff) (metis le_add1 length_Cons length_append)
  next
    case False
    with 2 show ?thesis by auto
  qed
qed

lemma index_of_None: "index_of s p = None \<Longrightarrow> p \<noteq> [] \<Longrightarrow> s \<noteq> a @ p @ b"
proof (induction s p arbitrary: a rule: index_of.induct)
  case (1 p)
  then show ?case by auto
next
  case (2 x xs p)
  then show ?case by (cases a) (auto split: if_splits)
qed

lemma last_index_of_Some:
  "last_index_of s p = Some i \<Longrightarrow> i + length p \<le> length s \<and> has_prefix (drop i s) p"
proof (induction s p arbitrary: i rule: last_index_of.induct)
  case (1 p)
  then show ?case by (auto split: if_splits)
next
  case (2 x xs p)
  show ?case
  proof (cases "last_index_of xs p")
    case None
    with 2 show ?thesis
      by (auto simp: has_prefix_iff split: if_splits) (metis le_add1 length_Cons length_append)
  next
    case (Some j)
    with 2 show ?thesis by auto
  qed
qed

lemma last_index_of_append:
  assumes "last_index_of (p @ b) p = Some 0"
  shows "last_index_of (a @ p @ b) p = Some (length a)"
  using assms by (induction a) auto

lemma last_index_of_zero:
  "p \<noteq> [] \<Longrightarrow> last_index_of (tl (p @ b)) p = None \<Longrightarrow> last_index_of (p @ b) p = Some 0"
  by (cases p) auto

lemma last_index_of_notin: "x \<notin> set s \<Longrightarrow> x \<in> set p \<Longrightarrow> last_index_of s p = None"
proof (induction s)
  case Nil
  then show ?case by auto
next
  case (Cons y ys)
  have "\<not> has_prefix (y # ys) p"
  proof
    assume "has_prefix (y # ys) p"
    then obtain r where "y # ys = p @ r" by (auto simp: has_prefix_iff)
    then have "set p \<subseteq> set (y # ys)" by simp
    with Cons.prems show False by blast
  qed
  with Cons show ?case by simp
qed

lemma split_on_not_Nil [simp]: "split_on c s \<noteq> []"
  by (cases s) (auto split: list.splits)

lemma join_split_on: "join_with [c] (split_on c s) = s"
proof (induction c s rule: split_on.induct)
  case (2 c x xs)
  obtain y ys where "split_on c xs = y # ys" by (cases "split_on c xs") auto
  with 2 show ?case by (cases ys) auto
qed simp

lemma split_on_notin: "p \<in> set (split_on c s) \<Longrightarrow> c \<notin> set p"
proof (induction c s arbitrary: p rule: split_on.induct)
  case (2 c x xs)
  obtain y ys where "split_on c xs = y # ys" by (cases "split_on c xs") auto
  with 2 show ?case by (auto split: if_splits)
qed simp

lemma split_n2_append: "c \<notin> set a \<Longrightarrow> split_n2 c (a @ c # b) = [a, b]"
  by (induction a) auto

lemma split_n2_notin: "c \<notin> set s \<Longrightarrow> split_n2 c s = [s]"
  by (induction s) auto

lemma split_n2_two: "split_n2 c s = [a, b] \<Longrightarrow> c \<notin> set a \<and> s = a @ c # b"
proof (induction s arbitrary: a)
  case (Cons x xs)
  then show ?case by (auto split: if_splits list.splits)
qed simp

lemma split_n2_shape: "split_n2 c s = [s] \<or> (\<exists>a b. split_n2 c s = [a, b])"
  by (induction s) auto

subsection \<open>Byte order\<close>

lemma string_le_refl [simp]: "string_le s s"
  by (induction s) auto

lemma string_le_total: "string_le s t \<or> string_le t s"
proof (induction s t rule: string_le.induct)
  case (3 a s b t)
  have "(of_char a :: nat) < of_char b \<or> a = b \<or> (of_char b :: nat) < of_char a"
    by (metis linorder_less_linear of_char_eq_iff)
  with 3 show ?case by auto
qed auto

lemma string_le_trans: "string_le s t \<Longrightarrow> string_le t u \<Longrightarrow> string_le s u"
proof (induction s t arbitrary: u rule: string_le.induct)
  case (3 a s b t)
  then show ?case by (cases u) auto
qed auto

lemma string_le_antisym: "string_le s t \<Longrightarrow> string_le t s \<Longrightarrow> s = t"
proof (induction s t rule: string_le.induct)
  case (1 t)
  then show ?case by (cases t) auto
qed auto

subsection \<open>Hexadecimal\<close>

lemma of_char_less_256 [simp]: "(of_char c :: nat) < 256"
  by (simp add: of_char_def)

lemma hex_val_hex_digit: "d < 16 \<Longrightarrow> hex_val (hex_digit d) = Some d"
  by (simp add: hex_val_def hex_digit_def)

lemma hex_encode_simps [simp]:
  "hex_encode [] = []"
  "hex_encode (c # cs) = hex_digit (of_char c div 16) # hex_digit (of_char c mod 16) # hex_encode cs"
  by (simp_all add: hex_encode_def Let_def)

lemma length_hex_encode [simp]: "length (hex_encode bs) = 2 * length bs"
  by (induction bs) auto

lemma hex_decode_encode [simp]: "hex_decode (hex_encode bs) = Some bs"
proof (induction bs)
  case (Cons c cs)
  have "(of_char c :: nat) < 256" by simp
  then have "(of_char c :: nat) div 16 < 16" by linarith
  with Cons show ?case by (simp add: hex_val_hex_digit)
qed simp

lemma hex_encode_inject: "hex_encode a = hex_encode b \<longleftrightarrow> a = b"
  by (metis hex_decode_encode option.inject)

lemma hex_val_notin: "hex_val c = Some d \<Longrightarrow> c \<noteq> CHR 0x22 \<and> c \<noteq> CHR 0x2C \<and> c \<noteq> CHR ''h''"
  by (auto simp: hex_val_def Let_def split: if_splits)

lemma hex_encode_hex: "c \<in> set (hex_encode bs) \<Longrightarrow> \<exists>d. hex_val c = Some d"
proof (induction bs)
  case (Cons b bs)
  have "(of_char b :: nat) < 256" by simp
  then have "(of_char b :: nat) div 16 < 16" by linarith
  with Cons show ?case by (auto simp: hex_val_hex_digit)
qed simp

lemma hex_encode_notin: "CHR 0x22 \<notin> set (hex_encode bs)" "CHR 0x2C \<notin> set (hex_encode bs)"
  "CHR ''h'' \<notin> set (hex_encode bs)"
  using hex_encode_hex hex_val_notin by blast+

subsection \<open>Decimal numbers\<close>

lemma digit_char_val: "d < 10 \<Longrightarrow> digit_val (digit_char d) = d"
  by (simp add: digit_val_def digit_char_def)

lemma digit_char_is_digit: "d < 10 \<Longrightarrow> is_digit (digit_char d)"
  by (simp add: is_digit_def digit_char_def)

lemma show_nat_not_Nil [simp]: "show_nat n \<noteq> []"
  by (subst show_nat.simps) simp

lemma show_nat_digits: "list_all is_digit (show_nat n)"
proof (induction n rule: show_nat.induct)
  case (1 n)
  then show ?case by (subst show_nat.simps) (simp add: digit_char_is_digit)
qed

lemma nat_of_digits_snoc: "nat_of_digits (s @ [c]) = 10 * nat_of_digits s + digit_val c"
  by (simp add: nat_of_digits_def)

lemma nat_of_digits_show [simp]: "nat_of_digits (show_nat n) = n"
proof (induction n rule: show_nat.induct)
  case (1 n)
  show ?case
  proof (cases "n < 10")
    case True
    then show ?thesis by (subst show_nat.simps) (simp add: nat_of_digits_def digit_char_val)
  next
    case False
    with 1 show ?thesis
      by (subst show_nat.simps) (simp add: nat_of_digits_snoc digit_char_val)
  qed
qed

lemma show_nat_inject: "show_nat a = show_nat b \<longleftrightarrow> a = b"
  by (metis nat_of_digits_show)

subsection \<open>Stable insertion sort\<close>

lemma mset_ins_back: "mset (ins_back lt x ys) = add_mset x (mset ys)"
  by (induction ys) auto

lemma mset_fold_ins_back: "mset (fold (ins_back lt) xs acc) = mset xs + mset acc"
  by (induction xs arbitrary: acc) (auto simp: mset_ins_back)

lemma mset_slice_stable [simp]: "mset (slice_stable lt xs) = mset xs"
  by (simp add: slice_stable_def mset_fold_ins_back)

lemma set_slice_stable [simp]: "set (slice_stable lt xs) = set xs"
  by (metis mset_slice_stable set_mset_mset)

lemma set_ins_back: "set (ins_back lt x ys) = insert x (set ys)"
  by (metis mset_ins_back set_mset_add_mset_insert set_mset_mset)

definition strict_weak_on :: "'a set \<Rightarrow> ('a \<Rightarrow> 'a \<Rightarrow> bool) \<Rightarrow> bool" where
  "strict_weak_on S lt \<longleftrightarrow>
     (\<forall>a \<in> S. \<forall>b \<in> S. lt a b \<longrightarrow> \<not> lt b a) \<and>
     (\<forall>a \<in> S. \<forall>b \<in> S. \<forall>c \<in> S. \<not> lt a b \<longrightarrow> \<not> lt b c \<longrightarrow> \<not> lt a c)"

lemma strict_weak_onD:
  assumes "strict_weak_on S lt" "a \<in> S" "b \<in> S"
  shows "lt a b \<Longrightarrow> \<not> lt b a" and "c \<in> S \<Longrightarrow> \<not> lt a b \<Longrightarrow> \<not> lt b c \<Longrightarrow> \<not> lt a c"
  using assms unfolding strict_weak_on_def by blast+

lemma sorted_ins_back:
  assumes "strict_weak_on S lt" "x \<in> S" "set ys \<subseteq> S" "sorted_wrt (\<lambda>a b. \<not> lt a b) ys"
  shows "sorted_wrt (\<lambda>a b. \<not> lt a b) (ins_back lt x ys)"
  using assms
proof (induction ys)
  case (Cons y ys)
  show ?case
  proof (cases "lt x y")
    case True
    with Cons show ?thesis
      using strict_weak_onD(1) [OF Cons.prems(1), of x y] by (auto simp: set_ins_back)
  next
    case False
    have "\<not> lt x z" if "z \<in> set ys" for z
      using strict_weak_onD(2) [OF Cons.prems(1), of x y z] Cons.prems False that by auto
    with False Cons.prems show ?thesis by auto
  qed
qed simp

lemma sorted_fold_ins_back:
  assumes "strict_weak_on S lt" "set xs \<subseteq> S" "set acc \<subseteq> S" "sorted_wrt (\<lambda>a b. \<not> lt a b) acc"
  shows "sorted_wrt (\<lambda>a b. \<not> lt a b) (fold (ins_back lt) xs acc)"
  using assms
proof (induction xs arbitrary: acc)
  case (Cons x xs)
  then show ?case using sorted_ins_back [of S lt x acc] by (auto simp: set_ins_back)
qed simp

lemma sorted_slice_stable:
  assumes "strict_weak_on (set xs) lt"
  shows "sorted_wrt (\<lambda>a b. \<not> lt b a) (slice_stable lt xs)"
  using sorted_fold_ins_back [OF assms, of xs "[]"] by (simp add: slice_stable_def sorted_wrt_rev)

end
