(* ===== verification/Go_Json.thy ===== *)
theory Go_Json
  imports Prelude
begin

text \<open>
  The part of Go's \<open>encoding/json\<close> the sources use: decoding a byte string into a value, into a
  \<open>map[string]json.RawMessage\<close> (the members with the bytes of their values), and into the fields of a
  struct (matched without regard to ASCII case, the last duplicate winning, \<open>null\<close> leaving a field
  at its zero value, a value of another kind being an error). Numbers keep their literal. Text is
  taken to be valid UTF-8; Go's nesting limit of 10000 levels is not modelled.

  \<open>JTime\<close> and \<open>JRaw\<close> occur in replies only: a \<open>time.Time\<close> kept as an instant, and a
  \<open>json.RawMessage\<close> written through. The parser never returns them.
\<close>

datatype json =
    JNull
  | JBool bool
  | JNum string
  | JStr string
  | JArr "json list"
  | JObj "(string \<times> json) list"
  | JTime int
  | JRaw string

definition JInt :: "int \<Rightarrow> json" where
  "JInt i = JNum (show_int i)"

section \<open>Lexical level\<close>

definition is_ws :: "char \<Rightarrow> bool" where
  "is_ws c \<longleftrightarrow> c = CHR 0x20 \<or> c = CHR 0x09 \<or> c = CHR 0x0A \<or> c = CHR 0x0D"

definition skip_ws :: "string \<Rightarrow> string" where
  "skip_ws s = dropWhile is_ws s"

text \<open>UTF-8 of a code point.\<close>

definition utf8 :: "nat \<Rightarrow> string" where
  "utf8 u = (if u < 128 then [char_of u]
     else if u < 2048 then [char_of (192 + u div 64), char_of (128 + u mod 64)]
     else if u < 65536 then
       [char_of (224 + u div 4096), char_of (128 + u div 64 mod 64), char_of (128 + u mod 64)]
     else [char_of (240 + u div 262144), char_of (128 + u div 4096 mod 64),
       char_of (128 + u div 64 mod 64), char_of (128 + u mod 64)])"

definition hex4 :: "char \<Rightarrow> char \<Rightarrow> char \<Rightarrow> char \<Rightarrow> nat option" where
  "hex4 a b c d = (case (hex_val a, hex_val b, hex_val c, hex_val d) of
     (Some w, Some x, Some y, Some z) \<Rightarrow> Some (4096 * w + 256 * x + 16 * y + z)
   | _ \<Rightarrow> None)"

text \<open>The text of a decoded string escape: \<open>None\<close> is an invalid escape.\<close>

definition simple_escape :: "char \<Rightarrow> char option" where
  "simple_escape c =
     (if c = CHR 0x22 then Some (CHR 0x22) else if c = CHR 0x5C then Some (CHR 0x5C)
      else if c = CHR ''/'' then Some (CHR ''/'') else if c = CHR ''b'' then Some (CHR 0x08)
      else if c = CHR ''f'' then Some (CHR 0x0C) else if c = CHR ''n'' then Some (CHR 0x0A)
      else if c = CHR ''r'' then Some (CHR 0x0D) else if c = CHR ''t'' then Some (CHR 0x09)
      else None)"

text \<open>\<open>utf16.DecodeRune\<close>: a surrogate pair, or U+FFFD.\<close>

definition is_surrogate :: "nat \<Rightarrow> bool" where
  "is_surrogate u \<longleftrightarrow> 55296 \<le> u \<and> u < 57344"

definition surrogate_pair :: "nat \<Rightarrow> nat \<Rightarrow> nat option" where
  "surrogate_pair u v =
     (if 55296 \<le> u \<and> u < 56320 \<and> 56320 \<le> v \<and> v < 57344
      then Some (65536 + (u - 55296) * 1024 + (v - 56320)) else None)"

text \<open>A string, from after its opening quote to after its closing quote.\<close>

fun p_str :: "string \<Rightarrow> (string \<times> string) option" where
  "p_str [] = None"
| "p_str (c # cs) =
     (if c = CHR 0x22 then Some ([], cs)
      else if c = CHR 0x5C then
        (case cs of
           [] \<Rightarrow> None
         | e # r \<Rightarrow>
             if e = CHR ''u'' then
               (case r of
                  x1 # x2 # x3 # x4 # r1 \<Rightarrow>
                    (case hex4 x1 x2 x3 x4 of
                       None \<Rightarrow> None
                     | Some u \<Rightarrow>
                         if is_surrogate u then
                           (case r1 of
                              b # v # y1 # y2 # y3 # y4 # r2 \<Rightarrow>
                                (if b = CHR 0x5C \<and> v = CHR ''u'' then
                                   (case Option.bind (hex4 y1 y2 y3 y4) (surrogate_pair u) of
                                      Some cp \<Rightarrow> map_option (\<lambda>(t, z). (utf8 cp @ t, z)) (p_str r2)
                                    | None \<Rightarrow> map_option (\<lambda>(t, z). (utf8 65533 @ t, z)) (p_str r1))
                                 else map_option (\<lambda>(t, z). (utf8 65533 @ t, z)) (p_str r1))
                            | _ \<Rightarrow> map_option (\<lambda>(t, z). (utf8 65533 @ t, z)) (p_str r1))
                         else map_option (\<lambda>(t, z). (utf8 u @ t, z)) (p_str r1))
                | _ \<Rightarrow> None)
             else (case simple_escape e of
                     None \<Rightarrow> None
                   | Some ch \<Rightarrow> map_option (\<lambda>(t, z). (ch # t, z)) (p_str r)))
      else if (of_char c :: nat) < 32 then None
      else map_option (\<lambda>(t, z). (c # t, z)) (p_str cs))"

text \<open>A number: the longest run of number characters, which must be a JSON number.\<close>

definition is_num_char :: "char \<Rightarrow> bool" where
  "is_num_char c \<longleftrightarrow> is_digit c \<or> c = CHR ''-'' \<or> c = CHR ''+'' \<or> c = CHR ''.'' \<or> c = CHR ''e'' \<or> c = CHR ''E''"

definition valid_exp :: "string \<Rightarrow> bool" where
  "valid_exp s = (case s of
     [] \<Rightarrow> True
   | e # r \<Rightarrow> (e = CHR ''e'' \<or> e = CHR ''E'') \<and>
       (let ds = (case r of [] \<Rightarrow> [] | c # t \<Rightarrow> if c = CHR ''+'' \<or> c = CHR ''-'' then t else r)
        in ds \<noteq> [] \<and> list_all is_digit ds))"

definition valid_frac_exp :: "string \<Rightarrow> bool" where
  "valid_frac_exp s = (case s of
     [] \<Rightarrow> True
   | c # r \<Rightarrow> if c = CHR ''.'' then takeWhile is_digit r \<noteq> [] \<and> valid_exp (dropWhile is_digit r)
              else valid_exp s)"

definition valid_unsigned :: "string \<Rightarrow> bool" where
  "valid_unsigned s = (case s of
     [] \<Rightarrow> False
   | c # r \<Rightarrow> if c = CHR ''0'' then valid_frac_exp r
              else is_digit c \<and> valid_frac_exp (dropWhile is_digit r))"

definition valid_number :: "string \<Rightarrow> bool" where
  "valid_number s = (case s of
     [] \<Rightarrow> False
   | c # r \<Rightarrow> if c = CHR ''-'' then valid_unsigned r else valid_unsigned s)"

section \<open>Values\<close>

text \<open>
  The parsers spend one unit of fuel per nested call; each call consumes at least one character,
  so one more unit than the length of the input is always enough.
\<close>

definition p_literal :: "string \<Rightarrow> (json \<times> string) option" where
  "p_literal s =
     (if has_prefix s ''true'' then Some (JBool True, drop 4 s)
      else if has_prefix s ''false'' then Some (JBool False, drop 5 s)
      else if has_prefix s ''null'' then Some (JNull, drop 4 s)
      else let n = takeWhile is_num_char s
           in if valid_number n then Some (JNum n, dropWhile is_num_char s) else None)"

text \<open>The key of a member and its colon, from before the opening quote.\<close>

definition p_key :: "string \<Rightarrow> (string \<times> string) option" where
  "p_key s = (case skip_ws s of
     [] \<Rightarrow> None
   | q # r \<Rightarrow> if q \<noteq> CHR 0x22 then None else
       (case p_str r of
          None \<Rightarrow> None
        | Some (k, t) \<Rightarrow> (case skip_ws t of
             [] \<Rightarrow> None
           | c # u \<Rightarrow> if c = CHR '':'' then Some (k, skip_ws u) else None)))"

fun p_val :: "nat \<Rightarrow> string \<Rightarrow> (json \<times> string) option"
  and p_mems :: "nat \<Rightarrow> string \<Rightarrow> ((string \<times> json) list \<times> string) option"
  and p_elems :: "nat \<Rightarrow> string \<Rightarrow> (json list \<times> string) option" where
  "p_val 0 s = None"
| "p_val (Suc n) s =
     (case skip_ws s of
        [] \<Rightarrow> None
      | c # r \<Rightarrow>
          if c = CHR ''{'' then
            (case skip_ws r of
               [] \<Rightarrow> None
             | d # t \<Rightarrow> if d = CHR ''}'' then Some (JObj [], t)
                        else map_option (\<lambda>(ms, z). (JObj ms, z)) (p_mems n r))
          else if c = CHR ''['' then
            (case skip_ws r of
               [] \<Rightarrow> None
             | d # t \<Rightarrow> if d = CHR '']'' then Some (JArr [], t)
                        else map_option (\<lambda>(es, z). (JArr es, z)) (p_elems n r))
          else if c = CHR 0x22 then map_option (\<lambda>(t, z). (JStr t, z)) (p_str r)
          else p_literal (c # r))"
| "p_mems 0 s = None"
| "p_mems (Suc n) s =
     (case p_key s of
        None \<Rightarrow> None
      | Some (k, t) \<Rightarrow>
          (case p_val n t of
             None \<Rightarrow> None
           | Some (v, u) \<Rightarrow>
               (case skip_ws u of
                  [] \<Rightarrow> None
                | c # r \<Rightarrow>
                    if c = CHR ''}'' then Some ([(k, v)], r)
                    else if c = CHR '','' then map_option (\<lambda>(ms, z). ((k, v) # ms, z)) (p_mems n r)
                    else None)))"
| "p_elems 0 s = None"
| "p_elems (Suc n) s =
     (case p_val n s of
        None \<Rightarrow> None
      | Some (v, u) \<Rightarrow>
          (case skip_ws u of
             [] \<Rightarrow> None
           | c # r \<Rightarrow>
               if c = CHR '']'' then Some ([v], r)
               else if c = CHR '','' then map_option (\<lambda>(es, z). (v # es, z)) (p_elems n r)
               else None))"

definition json_fuel :: "string \<Rightarrow> nat" where
  "json_fuel s = Suc (length s)"

text \<open>\<open>json.Unmarshal\<close> into an \<open>any\<close>: \<open>None\<close> is a syntax error.\<close>

definition json_parse :: "string \<Rightarrow> json option" where
  "json_parse s = (case p_val (json_fuel s) s of
     None \<Rightarrow> None
   | Some (v, r) \<Rightarrow> if skip_ws r = [] then Some v else None)"

section \<open>Raw members\<close>

fun p_raw :: "nat \<Rightarrow> string \<Rightarrow> (string \<times> string) list option" where
  "p_raw 0 s = None"
| "p_raw (Suc n) s =
     (case p_key s of
        None \<Rightarrow> None
      | Some (k, t) \<Rightarrow>
          (case p_val (json_fuel t) t of
             None \<Rightarrow> None
           | Some (v, u) \<Rightarrow>
               (let raw = take (length t - length u) t in
                case skip_ws u of
                  [] \<Rightarrow> None
                | c # r \<Rightarrow>
                    if c = CHR ''}'' then Some [(k, raw)]
                    else if c = CHR '','' then map_option (Cons (k, raw)) (p_raw n r)
                    else None)))"

text \<open>
  \<open>json.Unmarshal\<close> into a \<open>map[string]json.RawMessage\<close>, as the list of members in document order:
  the whole text must be valid, and an object or \<open>null\<close>.
\<close>

definition raw_members :: "string \<Rightarrow> (string \<times> string) list option" where
  "raw_members s = (case json_parse s of
     Some JNull \<Rightarrow> Some []
   | Some (JObj []) \<Rightarrow> Some []
   | Some (JObj (m # ms)) \<Rightarrow> p_raw (json_fuel s) (tl (skip_ws s))
   | _ \<Rightarrow> None)"

text \<open>The Go map those members build: a later duplicate key overwrites an earlier one.\<close>

definition go_map :: "('k \<times> 'v) list \<Rightarrow> ('k \<rightharpoonup> 'v)" where
  "go_map ms = map_of (rev ms)"

section \<open>Struct fields\<close>

text \<open>
  The members of a value decoded into a struct. \<open>decode_first\<close> is \<open>json.NewDecoder(r).Decode\<close>, which
  reads one value and leaves what follows it.
\<close>

definition as_members :: "json \<Rightarrow> (string \<times> json) list option" where
  "as_members v = (case v of JNull \<Rightarrow> Some [] | JObj ms \<Rightarrow> Some ms | _ \<Rightarrow> None)"

definition unmarshal_struct :: "string \<Rightarrow> (string \<times> json) list option" where
  "unmarshal_struct s = Option.bind (json_parse s) as_members"

definition decode_first :: "string \<Rightarrow> (string \<times> json) list option" where
  "decode_first s = Option.bind (p_val (json_fuel s) s) (\<lambda>(v, r). as_members v)"

text \<open>
  One field: every member whose key matches is stored in turn over the previous value, and one that
  does not fit the field's type fails the whole decode (\<open>UnmarshalTypeError\<close>).
\<close>

fun decode_field :: "('a \<Rightarrow> json \<Rightarrow> 'a option) \<Rightarrow> string \<Rightarrow> 'a \<Rightarrow> (string \<times> json) list \<Rightarrow> 'a option" where
  "decode_field dec name acc [] = Some acc"
| "decode_field dec name acc ((k, v) # ms) =
     (if equal_fold k name
      then (case dec acc v of None \<Rightarrow> None | Some a \<Rightarrow> decode_field dec name a ms)
      else decode_field dec name acc ms)"

definition dec_string :: "string \<Rightarrow> json \<Rightarrow> string option" where
  "dec_string acc v = (case v of JNull \<Rightarrow> Some acc | JStr s \<Rightarrow> Some s | _ \<Rightarrow> None)"

definition dec_int :: "int \<Rightarrow> json \<Rightarrow> int option" where
  "dec_int acc v = (case v of JNull \<Rightarrow> Some acc | JNum s \<Rightarrow> atoi s | _ \<Rightarrow> None)"

definition dec_bool :: "bool \<Rightarrow> json \<Rightarrow> bool option" where
  "dec_bool acc v = (case v of JNull \<Rightarrow> Some acc | JBool b \<Rightarrow> Some b | _ \<Rightarrow> None)"

fun all_some :: "'a option list \<Rightarrow> 'a list option" where
  "all_some [] = Some []"
| "all_some (None # xs) = None"
| "all_some (Some x # xs) = map_option (Cons x) (all_some xs)"

definition dec_strings :: "string list \<Rightarrow> json \<Rightarrow> string list option" where
  "dec_strings acc v = (case v of
     JNull \<Rightarrow> Some [] | JArr xs \<Rightarrow> all_some (map (dec_string []) xs) | _ \<Rightarrow> None)"

definition field_string :: "string \<Rightarrow> (string \<times> json) list \<Rightarrow> string option" where
  "field_string name ms = decode_field dec_string name [] ms"

definition field_int :: "string \<Rightarrow> (string \<times> json) list \<Rightarrow> int option" where
  "field_int name ms = decode_field dec_int name 0 ms"

definition field_bool :: "string \<Rightarrow> (string \<times> json) list \<Rightarrow> bool option" where
  "field_bool name ms = decode_field dec_bool name False ms"

definition field_strings :: "string \<Rightarrow> (string \<times> json) list \<Rightarrow> string list option" where
  "field_strings name ms = decode_field dec_strings name [] ms"

text \<open>A \<open>json.RawMessage\<close> field: the bytes of its last occurrence, \<open>null\<close> included.\<close>

definition field_raw :: "string \<Rightarrow> (string \<times> string) list \<Rightarrow> string" where
  "field_raw name ms = (case List.find (\<lambda>(k, r). equal_fold k name) (rev ms) of
     Some (k, r) \<Rightarrow> r | None \<Rightarrow> [])"

text \<open>\<open>json.Unmarshal\<close> of a raw member into a string or an int variable.\<close>

definition raw_string :: "string \<Rightarrow> string option" where
  "raw_string r = Option.bind (json_parse r) (dec_string [])"

definition raw_int :: "string \<Rightarrow> int option" where
  "raw_int r = Option.bind (json_parse r) (dec_int 0)"

text \<open>A map, one pair per key (the last one of its duplicates).\<close>

fun dedup_keys :: "('k \<times> 'v) list \<Rightarrow> ('k \<times> 'v) list" where
  "dedup_keys [] = []"
| "dedup_keys ((k, v) # ms) = (if k \<in> fst ` set ms then dedup_keys ms else (k, v) # dedup_keys ms)"

text \<open>A \<open>map[string]string\<close> field: members are added to the map already there.\<close>

definition dec_string_map :: "(string \<times> string) list \<Rightarrow> json \<Rightarrow> (string \<times> string) list option" where
  "dec_string_map acc v = (case v of
     JNull \<Rightarrow> Some []
   | JObj ms \<Rightarrow> map_option (\<lambda>new. dedup_keys (acc @ new))
       (all_some (map (\<lambda>(k, x). map_option (Pair k) (dec_string [] x)) ms))
   | _ \<Rightarrow> None)"

definition field_string_map :: "string \<Rightarrow> (string \<times> json) list \<Rightarrow> (string \<times> string) list option" where
  "field_string_map name ms = decode_field dec_string_map name [] ms"

lemma keys_dedup_keys: "fst ` set (dedup_keys ms) = fst ` set ms"
  by (induction ms rule: dedup_keys.induct) auto

lemma distinct_dedup_keys: "distinct (map fst (dedup_keys ms))"
  by (induction ms rule: dedup_keys.induct) (simp_all add: keys_dedup_keys)

lemma map_of_dedup_keys: "map_of (dedup_keys ms) = map_of (rev ms)"
proof (induction ms rule: dedup_keys.induct)
  case (2 k v ms)
  have "(map_of (rev ms) k = None) = (k \<notin> fst ` set ms)" by (simp add: map_of_eq_None_iff)
  with 2 show ?case by (auto simp: map_add_def fun_eq_iff split: option.splits)
qed simp

lemma distinct_field_string_map:
  assumes "field_string_map name ms = Some kvs"
  shows "distinct (map fst kvs)"
proof -
  have "distinct (map fst kvs)"
    if "decode_field dec_string_map name acc ms = Some kvs" "distinct (map fst acc)" for acc
    using that
  proof (induction ms arbitrary: acc)
    case (Cons m ms)
    obtain k v where m: "m = (k, v)" by (cases m)
    show ?case
    proof (cases "equal_fold k name")
      case True
      with Cons.prems m obtain a where a: "dec_string_map acc v = Some a" "decode_field dec_string_map name a ms = Some kvs"
        by (auto split: option.splits)
      then have "distinct (map fst a)"
        by (auto simp: dec_string_map_def distinct_dedup_keys split: json.splits)
      with a(2) Cons.IH show ?thesis by blast
    next
      case False
      with Cons m show ?thesis by auto
    qed
  qed simp
  with assms show ?thesis by (simp add: field_string_map_def)
qed

section \<open>Encoding\<close>

text \<open>
  \<open>json.Marshal\<close> of a string: quotes, backslashes and control characters escaped, and \<open><\<close>, \<open>>\<close>, \<open>&\<close>
  and U+2028, U+2029 too, as the encoder does by default. \<open>quote_json\<close> is the text between the quotes.
\<close>

definition u00 :: "char \<Rightarrow> string" where
  "u00 c = [CHR 0x5C, CHR ''u'', CHR ''0'', CHR ''0'', hex_digit (of_char c div 16), hex_digit (of_char c mod 16)]"

definition quote_json_char :: "char \<Rightarrow> string" where
  "quote_json_char c =
     (if c = CHR 0x22 \<or> c = CHR 0x5C then [CHR 0x5C, c]
      else if c = CHR 0x08 then [CHR 0x5C, CHR ''b''] else if c = CHR 0x0C then [CHR 0x5C, CHR ''f'']
      else if c = CHR 0x0A then [CHR 0x5C, CHR ''n''] else if c = CHR 0x0D then [CHR 0x5C, CHR ''r'']
      else if c = CHR 0x09 then [CHR 0x5C, CHR ''t'']
      else if (of_char c :: nat) < 32 \<or> c = CHR ''<'' \<or> c = CHR ''>'' \<or> c = CHR ''&'' then u00 c
      else [c])"

fun quote_json :: "string \<Rightarrow> string" where
  "quote_json [] = []"
| "quote_json (a # b # c # s) =
     (if a = CHR 0xE2 \<and> b = CHR 0x80 \<and> (c = CHR 0xA8 \<or> c = CHR 0xA9)
      then [CHR 0x5C, CHR ''u'', CHR ''2'', CHR ''0'', CHR ''2'', if c = CHR 0xA8 then CHR ''8'' else CHR ''9''] @ quote_json s
      else quote_json_char a @ quote_json (b # c # s))"
| "quote_json (a # s) = quote_json_char a @ quote_json s"

definition json_string :: "string \<Rightarrow> string" where
  "json_string s = CHR 0x22 # quote_json s @ [CHR 0x22]"

lemma p_str_plain:
  "c \<noteq> CHR 0x22 \<Longrightarrow> c \<noteq> CHR 0x5C \<Longrightarrow> \<not> (of_char c :: nat) < 32 \<Longrightarrow>
     p_str (c # s) = map_option (\<lambda>(t, z). (c # t, z)) (p_str s)"
  by simp

lemma p_str_u00:
  assumes "(of_char c :: nat) < 128"
  shows "p_str (u00 c @ s) = map_option (\<lambda>(t, z). (c # t, z)) (p_str s)"
proof -
  let ?n = "of_char c :: nat"
  have d: "?n div 16 < 16" "?n mod 16 < 16" using assms by auto
  have n: "16 * (?n div 16) + ?n mod 16 = ?n" by simp
  have "hex4 (CHR ''0'') (CHR ''0'') (hex_digit (?n div 16)) (hex_digit (?n mod 16)) = Some ?n"
    by (simp add: hex4_def hex_val_hex_digit [OF d(1)] hex_val_hex_digit [OF d(2)] hex_val_def [of "CHR ''0''"] n)
  moreover have "utf8 ?n = [c]" using assms by (simp add: utf8_def)
  ultimately show ?thesis using assms by (simp add: u00_def is_surrogate_def)
qed

lemma p_str_quote_char: "p_str (quote_json_char c @ s) = map_option (\<lambda>(t, z). (c # t, z)) (p_str s)"
proof (cases "(of_char c :: nat) < 32 \<or> c = CHR ''<'' \<or> c = CHR ''>'' \<or> c = CHR ''&''")
  case True
  then have "(of_char c :: nat) < 128" by auto
  with True p_str_u00 [of c s] show ?thesis by (auto simp: quote_json_char_def simple_escape_def)
next
  case False
  then show ?thesis by (auto simp: quote_json_char_def simple_escape_def p_str_plain)
qed

lemma line_sep_bytes:
  "char_of (226 :: nat) = CHR 0xE2" "char_of (128 :: nat) = CHR 0x80" "char_of (168 :: nat) = CHR 0xA8"
  "char_of (169 :: nat) = CHR 0xA9"
proof -
  have "(of_char (CHR 0xE2) :: nat) = 226" "(of_char (CHR 0x80) :: nat) = 128"
    "(of_char (CHR 0xA8) :: nat) = 168" "(of_char (CHR 0xA9) :: nat) = 169" by simp_all
  then show "char_of (226 :: nat) = CHR 0xE2" "char_of (128 :: nat) = CHR 0x80" "char_of (168 :: nat) = CHR 0xA8"
    "char_of (169 :: nat) = CHR 0xA9" by (metis char_of_char)+
qed

text \<open>A string survives being encoded and decoded, whatever bytes it holds.\<close>

lemma p_str_quote: "p_str (quote_json s @ CHR 0x22 # r) = Some (s, r)"
proof (induction s rule: quote_json.induct)
  case (2 a b c s)
  show ?case
  proof (cases "a = CHR 0xE2 \<and> b = CHR 0x80 \<and> (c = CHR 0xA8 \<or> c = CHR 0xA9)")
    case True
    with 2 show ?thesis
      by (auto simp: hex4_def hex_val_def is_surrogate_def utf8_def line_sep_bytes)
  next
    case False
    with 2 p_str_quote_char [of a "quote_json (b # c # s) @ CHR 0x22 # r"] show ?thesis by auto
  qed
qed (simp_all add: p_str_quote_char)

text \<open>Decimal integers are JSON numbers and read back.\<close>

lemma is_digit_num: "is_digit c \<Longrightarrow> is_num_char c"
  by (simp add: is_num_char_def)

lemma show_nat_head: "\<exists>c s. show_nat n = c # s \<and> is_digit c \<and> list_all is_digit s \<and> (c = CHR ''0'' \<longrightarrow> s = [])"
proof (induction n rule: show_nat.induct)
  case (1 n)
  show ?case
  proof (cases "n < 10")
    case True
    then show ?thesis by (subst show_nat.simps) (simp add: digit_char_is_digit)
  next
    case False
    with 1 obtain c s where cs: "show_nat (n div 10) = c # s" "is_digit c" "list_all is_digit s" "c = CHR ''0'' \<longrightarrow> s = []"
      by auto
    have "c \<noteq> CHR ''0''"
    proof
      assume c0: "c = CHR ''0''"
      with cs have "show_nat (n div 10) = ''0''" by simp
      moreover have "nat_of_digits ''0'' = 0" by (simp add: nat_of_digits_def digit_val_def)
      ultimately have "n div 10 = 0" by (metis nat_of_digits_show)
      with False show False by simp
    qed
    with False cs show ?thesis by (subst show_nat.simps) (simp add: digit_char_is_digit)
  qed
qed

lemma valid_show_nat: "valid_unsigned (show_nat n)"
proof -
  obtain c s where cs: "show_nat n = c # s" "is_digit c" "list_all is_digit s" "c = CHR ''0'' \<longrightarrow> s = []"
    using show_nat_head by blast
  have "dropWhile is_digit s = []" using cs(3) by (simp add: list_all_iff)
  with cs(1,2,4) show ?thesis by (simp add: valid_unsigned_def valid_frac_exp_def del: dropWhile_eq_Nil_conv)
qed

lemma not_digit_sign: "\<not> is_digit (CHR ''-'')" "\<not> is_digit (CHR ''+'')"
  by (simp_all add: is_digit_def)

lemma valid_show_int: "valid_number (show_int i)"
proof -
  obtain c s where "show_nat (nat i) = c # s" "is_digit c" using show_nat_head by blast
  then show ?thesis
    using valid_show_nat [of "nat i"] valid_show_nat [of "nat (- i)"] not_digit_sign
    by (auto simp: show_int_def valid_number_def)
qed

lemma show_int_num_chars: "list_all is_num_char (show_int i)"
proof -
  have "list_all is_num_char (show_nat n)" for n
    using show_nat_digits [of n] is_digit_num by (auto simp: list_all_iff)
  then show ?thesis by (simp add: show_int_def is_num_char_def)
qed

lemma atoi_show_int:
  assumes "- (2 ^ 63) \<le> i" "i < 2 ^ 63"
  shows "atoi (show_int i) = Some i"
proof -
  obtain c s where cs: "show_nat (nat i) = c # s" "is_digit c" using show_nat_head by blast
  have "c \<noteq> CHR ''-''" "c \<noteq> CHR ''+''" using cs(2) not_digit_sign by metis+
  with cs assms nat_of_digits_show [of "nat i"] show_nat_digits [of "nat i"] nat_of_digits_show [of "nat (- i)"]
    show_nat_digits [of "nat (- i)"]
  show ?thesis by (auto simp: show_int_def atoi_digits_def Let_def)
qed

lemma p_literal_int:
  assumes "\<not> is_num_char d"
  shows "p_literal (show_int i @ d # r) = Some (JNum (show_int i), d # r)"
proof -
  obtain c s where cs: "show_int i = c # s"
    using show_nat_not_Nil [of "nat i"] by (cases "show_int i") (auto simp: show_int_def split: if_splits)
  with show_int_num_chars [of i] have "is_num_char c" by simp
  then have c: "c \<noteq> CHR ''t''" "c \<noteq> CHR ''f''" "c \<noteq> CHR ''n''" by (auto simp: is_num_char_def is_digit_def)
  have "takeWhile is_num_char (show_int i @ d # r) = show_int i"
    "dropWhile is_num_char (show_int i @ d # r) = d # r"
    using show_int_num_chars [of i] assms by (auto simp: list_all_iff)
  with c valid_show_int [of i] cs show ?thesis by (simp add: p_literal_def)
qed

text \<open>JSON text for concrete examples, with backquotes for the quotes.\<close>

definition jq :: "string \<Rightarrow> string" where
  "jq s = map (\<lambda>c. if c = CHR 0x60 then CHR 0x22 else c) s"

lemmas json_eval = unmarshal_struct_def json_parse_def json_fuel_def skip_ws_def is_ws_def p_key_def
  as_members_def jq_def field_string_def field_string_map_def dec_string_def dec_string_map_def
  equal_fold_def to_lower_def lower_char_def simple_escape_def field_int_def dec_int_def

end
