(* ===== verification/Policy.thy ===== *)
theory Policy
  imports Go_Json
begin

text \<open>
  The policy language of \<open>internal/policy\<close>: the data of \<open>parser.go\<close>, its \<open>Validate\<close>, and the
  evaluator of \<open>engine.go\<close> (\<open>Evaluate\<close>, \<open>applyMode\<close>, \<open>matchParams\<close>, \<open>matchGlob\<close>, the hot-swappable
  \<open>Engine\<close>). Glob matching is the third-party package doublestar, and YAML decoding yaml.v3: both
  are fields of \<open>policy_libs\<close>, together with \<open>regexp.Compile\<close>'s verdict on a pattern and the text
  \<open>fmt\<close> prints for a decoded JSON number.
\<close>

section \<open>Data\<close>

record agent_identity =
  ai_name :: string
  ai_version :: string

record rule =
  rule_id :: string
  rule_protocol :: string
  rule_method :: string
  rule_target :: string
  rule_action :: string
  rule_params :: "(string \<times> string) list"

record constraints =
  max_actions :: int
  max_duration_seconds :: int

record redaction_config =
  red_keys :: "string list"
  red_headers :: "string list"

record filesystem_mount =
  fm_source :: string
  fm_target :: string
  fm_mode :: string

record filesystem_config =
  fs_enabled :: bool
  fs_mounts :: "filesystem_mount list"
  fs_deny_patterns :: "string list"

record network_config =
  dns_allow :: "string list"
  dns_deny :: "string list"

record exfiltration_config =
  exf_enabled :: bool
  exf_sensitive_patterns :: "string list"
  exf_max_query_entropy :: rat
  exf_min_value_length :: int
  exf_block_action :: string

record sequence_rule =
  seq_id :: string
  seq_pattern :: "string list"
  seq_reason :: string
  seq_action :: string

record sequence_config =
  sc_rules :: "sequence_rule list"
  sc_window :: int

record policy =
  pol_version :: string
  pol_agent :: agent_identity
  pol_mode :: string
  pol_default :: string
  pol_signature_required :: bool
  pol_redaction :: redaction_config
  pol_rules :: "rule list"
  pol_constraints :: constraints
  pol_filesystem :: filesystem_config
  pol_network :: network_config
  pol_exfiltration :: exfiltration_config
  pol_sequences :: sequence_config

text \<open>
  \<open>glob_match pattern value\<close> is \<open>doublestar.Match\<close>, \<open>None\<close> its \<open>ErrBadPattern\<close>; \<open>regexp_error\<close> is the
  error text of \<open>regexp.Compile\<close>, \<open>None\<close> when the pattern compiles; \<open>yaml_policy\<close> is \<open>yaml.Unmarshal\<close>
  into a \<open>Policy\<close>.
\<close>

record policy_libs =
  glob_match :: "string \<Rightarrow> string \<Rightarrow> bool option"
  regexp_error :: "string \<Rightarrow> string option"
  float_text :: "string \<Rightarrow> string"
  yaml_policy :: "string \<Rightarrow> string + policy"

section \<open>Parsing\<close>

definition policy_parse :: "policy_libs \<Rightarrow> string \<Rightarrow> policy res" where
  "policy_parse L data = (case yaml_policy L data of
     Inl e \<Rightarrow> Inl (ErrText (''policy: parse yaml: '' @ e))
   | Inr p \<Rightarrow> Inr p)"

text \<open>\<open>Load\<close>; \<open>read\<close> is \<open>os.ReadFile\<close>.\<close>

definition policy_load :: "policy_libs \<Rightarrow> (string \<Rightarrow> string + string) \<Rightarrow> string \<Rightarrow> policy res" where
  "policy_load L read path = (case read path of
     Inl e \<Rightarrow> Inl (ErrWrap (''policy: read '' @ path @ '': '') (ErrText e) [])
   | Inr data \<Rightarrow> policy_parse L data)"

section \<open>Validation\<close>

record validation_error =
  ve_field :: string
  ve_message :: string

definition ve_text :: "validation_error \<Rightarrow> string" where
  "ve_text e = (if ve_field e \<noteq> [] then ve_field e @ '': '' @ ve_message e else ve_message e)"

abbreviation ve :: "string \<Rightarrow> string \<Rightarrow> validation_error" where
  "ve f m \<equiv> \<lparr>ve_field = f, ve_message = m\<rparr>"

definition indexed :: "string \<Rightarrow> nat \<Rightarrow> string" where
  "indexed s i = s @ ''['' @ show_nat i @ '']''"

definition validate_header :: "policy \<Rightarrow> validation_error list" where
  "validate_header p =
     (if pol_version p = [] then [ve ''version'' ''missing required field'']
      else if pol_version p \<noteq> ''1'' then
        [ve ''version'' (''unsupported value '' @ go_quote (pol_version p) @ '' (must be '' @ go_quote ''1'' @ '')'')]
      else []) @
     (if ai_name (pol_agent p) = [] then [ve ''agent.name'' ''missing required field''] else []) @
     (if pol_mode p \<in> {''enforce'', ''audit'', ''permissive''} then []
      else if pol_mode p = [] then
        [ve ''mode'' ''missing required field (must be enforce|audit|permissive)'']
      else [ve ''mode'' (''invalid value '' @ go_quote (pol_mode p) @ '' (must be enforce|audit|permissive)'')]) @
     (if pol_default p \<in> {''deny'', ''allow''} then []
      else if pol_default p = [] then
        [ve ''default'' ''missing required field (must be deny|allow)'']
      else [ve ''default'' (''invalid value '' @ go_quote (pol_default p) @ '' (must be deny|allow)'')])"

text \<open>The body of the loop over the rules that does not touch \<open>seenIDs\<close>.\<close>

definition validate_rule_fields :: "string \<Rightarrow> rule \<Rightarrow> validation_error list" where
  "validate_rule_fields pre r =
     (if rule_protocol r = [] then [ve (pre @ ''.protocol'') ''missing required field''] else []) @
     (if rule_method r = [] then [ve (pre @ ''.method'') ''missing required field''] else []) @
     (if rule_target r = [] then [ve (pre @ ''.target'') ''missing required field''] else []) @
     (if rule_action r \<in> {''allow'', ''deny''} then []
      else if rule_action r = [] then
        [ve (pre @ ''.action'') ''missing required field (must be allow|deny)'']
      else [ve (pre @ ''.action'') (''invalid value '' @ go_quote (rule_action r) @ '' (must be allow|deny)'')])"

fun validate_rules :: "nat \<Rightarrow> (string \<rightharpoonup> nat) \<Rightarrow> rule list \<Rightarrow> validation_error list" where
  "validate_rules i seen [] = []"
| "validate_rules i seen (r # rs) =
     (let pre = indexed ''rules'' i in
      (if rule_id r = [] then
         ve (pre @ ''.id'') ''missing required field'' #
         validate_rule_fields pre r @ validate_rules (Suc i) seen rs
       else case seen (rule_id r) of
         Some prev \<Rightarrow>
           ve (pre @ ''.id'') (''duplicate id '' @ go_quote (rule_id r) @ '' (first seen at '' @ indexed ''rules'' prev @ '')'') #
           validate_rule_fields pre r @ validate_rules (Suc i) seen rs
       | None \<Rightarrow>
           validate_rule_fields pre r @ validate_rules (Suc i) (seen(rule_id r \<mapsto> i)) rs))"

fun validate_mounts :: "nat \<Rightarrow> filesystem_mount list \<Rightarrow> validation_error list" where
  "validate_mounts i [] = []"
| "validate_mounts i (m # ms) =
     (let pre = indexed ''filesystem.mounts'' i in
      (if fm_source m = [] then [ve (pre @ ''.source'') ''missing required field''] else []) @
      (if fm_target m = [] then [ve (pre @ ''.target'') ''missing required field''] else []) @
      (if fm_mode m \<noteq> ''ro'' \<and> fm_mode m \<noteq> ''rw'' then
         [ve (pre @ ''.mode'') (''invalid value '' @ go_quote (fm_mode m) @
            '' (must be '' @ go_quote ''ro'' @ '' or '' @ go_quote ''rw'' @ '')'')] else []) @
      validate_mounts (Suc i) ms)"

definition validate_filesystem :: "policy \<Rightarrow> validation_error list" where
  "validate_filesystem p =
     (if fs_enabled (pol_filesystem p) then
        (if fs_mounts (pol_filesystem p) = [] then
           [ve ''filesystem.mounts'' ''filesystem is enabled but no mounts are configured''] else []) @
        validate_mounts 0 (fs_mounts (pol_filesystem p))
      else [])"

fun validate_patterns :: "policy_libs \<Rightarrow> nat \<Rightarrow> string list \<Rightarrow> validation_error list" where
  "validate_patterns L i [] = []"
| "validate_patterns L i (pat # ps) =
     (case regexp_error L pat of
        None \<Rightarrow> []
      | Some e \<Rightarrow> [ve (indexed ''exfiltration.sensitive_patterns'' i)
                     (''invalid regex '' @ go_quote pat @ '': '' @ e)]) @
     validate_patterns L (Suc i) ps"

definition validate_exfiltration :: "policy_libs \<Rightarrow> policy \<Rightarrow> validation_error list" where
  "validate_exfiltration L p =
     (let x = pol_exfiltration p in
      if exf_enabled x then
        validate_patterns L 0 (exf_sensitive_patterns x) @
        (if exf_block_action x \<in> {[], ''deny'', ''audit''} then []
         else [ve ''exfiltration.block_action'' (''invalid value '' @ go_quote (exf_block_action x) @
            '' (must be '' @ go_quote ''deny'' @ '' or '' @ go_quote ''audit'' @ '')'')])
      else [])"

definition validate_seq_fields :: "string \<Rightarrow> sequence_rule \<Rightarrow> validation_error list" where
  "validate_seq_fields pre sr =
     (if length (seq_pattern sr) < 2 then
        [ve (pre @ ''.pattern'') ''must contain at least 2 elements''] else []) @
     (if seq_action sr \<in> {''deny'', ''audit''} then []
      else if seq_action sr = [] then
        [ve (pre @ ''.action'') ''missing required field (must be deny|audit)'']
      else [ve (pre @ ''.action'') (''invalid value '' @ go_quote (seq_action sr) @ '' (must be deny|audit)'')])"

fun validate_seqs :: "nat \<Rightarrow> (string \<rightharpoonup> nat) \<Rightarrow> sequence_rule list \<Rightarrow> validation_error list" where
  "validate_seqs i seen [] = []"
| "validate_seqs i seen (sr # srs) =
     (let pre = indexed ''sequences.rules'' i in
      (if seq_id sr = [] then
         ve (pre @ ''.id'') ''missing required field'' #
         validate_seq_fields pre sr @ validate_seqs (Suc i) seen srs
       else case seen (seq_id sr) of
         Some prev \<Rightarrow>
           ve (pre @ ''.id'') (''duplicate id '' @ go_quote (seq_id sr) @ '' (first seen at '' @ indexed ''sequences.rules'' prev @ '')'') #
           validate_seq_fields pre sr @ validate_seqs (Suc i) seen srs
       | None \<Rightarrow>
           validate_seq_fields pre sr @ validate_seqs (Suc i) (seen(seq_id sr \<mapsto> i)) srs))"

definition validate_sequences :: "policy \<Rightarrow> validation_error list" where
  "validate_sequences p =
     (let sc = pol_sequences p in
      if sc_rules sc \<noteq> [] then
        (if sc_window sc \<noteq> 0 \<and> sc_window sc < 2 then
           [ve ''sequences.window'' (''invalid value '' @ show_int (sc_window sc) @ '' (must be >= 2)'')] else []) @
        validate_seqs 0 Map.empty (sc_rules sc)
      else [])"

fun validate_rw_mounts :: "nat \<Rightarrow> filesystem_mount list \<Rightarrow> validation_error list" where
  "validate_rw_mounts i [] = []"
| "validate_rw_mounts i (m # ms) =
     (if fm_mode m = ''rw'' then
        [ve (indexed ''filesystem.mounts'' i @ ''.mode'')
           (''[strict] read-write mount '' @ em_dash @ '' consider read-only for defense in depth'')] else []) @
     validate_rw_mounts (Suc i) ms"

definition validate_strict :: "policy \<Rightarrow> validation_error list" where
  "validate_strict p =
     (if pol_mode p = ''enforce'' \<and> pol_default p = ''allow'' then
        [ve ''default'' (''[strict] default:allow with mode:enforce is insecure '' @ em_dash @
           '' any unmatched action is permitted'')] else []) @
     (if pol_mode p = ''enforce'' \<and> \<not> pol_signature_required p then
        [ve ''signature_required'' ''[strict] enforce mode without signature_required allows unsigned policy files'']
      else []) @
     validate_rw_mounts 0 (fs_mounts (pol_filesystem p))"

definition validate :: "policy_libs \<Rightarrow> policy \<Rightarrow> bool \<Rightarrow> validation_error list" where
  "validate L p strict =
     validate_header p @ validate_rules 0 Map.empty (pol_rules p) @ validate_filesystem p @
     validate_exfiltration L p @ validate_sequences p @ (if strict then validate_strict p else [])"

section \<open>Matching\<close>

definition match_glob :: "policy_libs \<Rightarrow> string \<Rightarrow> string \<Rightarrow> bool" where
  "match_glob L value pattern =
     (if pattern = ''*'' \<or> pattern = ''**'' then True
      else case glob_match L pattern value of None \<Rightarrow> False | Some b \<Rightarrow> b)"

text \<open>\<open>fmt.Sprintf("%v", val)\<close> of a decoded \<open>any\<close>; a map prints its keys in sorted order.\<close>

function sprint_v :: "policy_libs \<Rightarrow> json \<Rightarrow> string" where
  "sprint_v L JNull = ''<nil>''"
| "sprint_v L (JBool b) = (if b then ''true'' else ''false'')"
| "sprint_v L (JNum n) = float_text L n"
| "sprint_v L (JStr s) = s"
| "sprint_v L (JArr xs) = ''['' @ join_with '' '' (map (sprint_v L) xs) @ '']''"
| "sprint_v L (JObj ms) = ''map['' @ join_with '' ''
     (map (\<lambda>(k, t). k @ '':'' @ t)
       (slice_stable (\<lambda>a b. \<not> string_le (fst b) (fst a))
         (dedup_keys (map (\<lambda>(k, v). (k, sprint_v L v)) ms)))) @ '']''"
| "sprint_v L (JTime t) = show_int t"
| "sprint_v L (JRaw r) = r"
  by pat_completeness auto
termination
proof (relation "measure (\<lambda>(L, j). size j)")
  show "wf (measure (\<lambda>(L :: policy_libs, j :: json). size j))" by simp
next
  fix L :: policy_libs and xs :: "json list" and x :: json
  assume "x \<in> set xs"
  then show "((L, x), L, JArr xs) \<in> measure (\<lambda>(L, j). size j)"
    using size_list_estimation' [of x xs "size x" size] by (simp add: less_Suc_eq_le)
next
  fix L :: policy_libs and ms :: "(string \<times> json) list" and m k v
  assume "m \<in> set ms" and "(k, v) = m"
  then have "(k, v) \<in> set ms" by simp
  then have "size v \<le> size_list (size_prod (\<lambda>_. 0) size) ms"
    by (induction ms) auto
  then show "((L, v), L, JObj ms) \<in> measure (\<lambda>(L, j). size j)" by simp
qed

definition match_params :: "policy_libs \<Rightarrow> string \<Rightarrow> (string \<times> string) list \<Rightarrow> bool" where
  "match_params L intent_params rule_ps =
     (if rule_ps = [] then True
      else if intent_params = [] then False
      else case unmarshal_struct intent_params of
        None \<Rightarrow> False
      | Some ms \<Rightarrow>
          list_all (\<lambda>(key, pattern). case go_map ms key of
              None \<Rightarrow> False
            | Some val \<Rightarrow> match_glob L (sprint_v L val) pattern) rule_ps)"

section \<open>Evaluation\<close>

record action_intent =
  in_protocol :: string
  in_method :: string
  in_target :: string
  in_params :: string

record run_state =
  action_count :: int
  elapsed_seconds :: int

record auth_decision =
  ad_decision :: string
  ad_rule_id :: string
  ad_reason :: string

definition is_allowed :: "auth_decision \<Rightarrow> bool" where
  "is_allowed d \<longleftrightarrow> ad_decision d \<noteq> ''deny''"

definition is_denied :: "auth_decision \<Rightarrow> bool" where
  "is_denied d \<longleftrightarrow> ad_decision d = ''deny''"

definition apply_mode :: "string \<Rightarrow> string \<Rightarrow> string \<Rightarrow> string \<Rightarrow> auth_decision" where
  "apply_mode action rid reason mode =
     (let isDeny = (action = ''deny'') in
      if mode = ''audit'' \<and> isDeny then
        \<lparr>ad_decision = ''audit_deny'', ad_rule_id = rid, ad_reason = reason @ '' (audit mode: action allowed)''\<rparr>
      else if mode = ''permissive'' \<and> isDeny then
        \<lparr>ad_decision = ''would_deny'', ad_rule_id = rid, ad_reason = reason @ '' (permissive mode: action allowed)''\<rparr>
      else if isDeny then \<lparr>ad_decision = ''deny'', ad_rule_id = rid, ad_reason = reason\<rparr>
      else \<lparr>ad_decision = ''allow'', ad_rule_id = rid, ad_reason = reason\<rparr>)"

definition rule_matches :: "policy_libs \<Rightarrow> action_intent \<Rightarrow> rule \<Rightarrow> bool" where
  "rule_matches L i r \<longleftrightarrow>
     match_glob L (in_protocol i) (rule_protocol r) \<and>
     match_glob L (in_method i) (rule_method r) \<and>
     match_glob L (in_target i) (rule_target r) \<and>
     match_params L (in_params i) (rule_params r)"

fun eval_rules :: "policy_libs \<Rightarrow> action_intent \<Rightarrow> string \<Rightarrow> string \<Rightarrow> rule list \<Rightarrow> auth_decision" where
  "eval_rules L i mode dflt [] =
     apply_mode dflt ''default'' (''no matching rule; policy default: '' @ dflt) mode"
| "eval_rules L i mode dflt (r # rs) =
     (if rule_matches L i r
      then apply_mode (rule_action r) (rule_id r) (''matched rule '' @ go_quote (rule_id r)) mode
      else eval_rules L i mode dflt rs)"

definition evaluate :: "policy_libs \<Rightarrow> action_intent \<Rightarrow> policy \<Rightarrow> run_state \<Rightarrow> auth_decision" where
  "evaluate L i p st =
     (let c = pol_constraints p in
      if max_actions c > 0 \<and> action_count st \<ge> max_actions c then
        \<lparr>ad_decision = ''deny'', ad_rule_id = ''constraint:max_actions'',
         ad_reason = ''action limit reached ('' @ show_int (action_count st) @ ''/'' @ show_int (max_actions c) @ '' actions)''\<rparr>
      else if max_duration_seconds c > 0 \<and> elapsed_seconds st \<ge> max_duration_seconds c then
        \<lparr>ad_decision = ''deny'', ad_rule_id = ''constraint:max_duration'',
         ad_reason = ''duration limit reached ('' @ show_int (elapsed_seconds st) @ ''s/'' @ show_int (max_duration_seconds c) @ ''s elapsed)''\<rparr>
      else eval_rules L i (pol_mode p) (pol_default p) (pol_rules p))"

text \<open>\<open>Engine\<close>: the policy behind the lock.\<close>

record engine =
  eng_policy :: policy

definition new_engine :: "policy \<Rightarrow> engine" where
  "new_engine p = \<lparr>eng_policy = p\<rparr>"

definition swap_policy :: "engine \<Rightarrow> policy \<Rightarrow> engine" where
  "swap_policy e p = e\<lparr>eng_policy := p\<rparr>"

definition engine_evaluate :: "policy_libs \<Rightarrow> engine \<Rightarrow> action_intent \<Rightarrow> run_state \<Rightarrow> auth_decision" where
  "engine_evaluate L e i st = evaluate L i (eng_policy e) st"


section \<open>Validation: what an empty error list means\<close>

definition rule_ok :: "rule \<Rightarrow> bool" where
  "rule_ok r \<longleftrightarrow> rule_id r \<noteq> [] \<and> rule_protocol r \<noteq> [] \<and> rule_method r \<noteq> [] \<and> rule_target r \<noteq> [] \<and>
     (rule_action r = ''allow'' \<or> rule_action r = ''deny'')"

definition mount_ok :: "filesystem_mount \<Rightarrow> bool" where
  "mount_ok m \<longleftrightarrow> fm_source m \<noteq> [] \<and> fm_target m \<noteq> [] \<and> (fm_mode m = ''ro'' \<or> fm_mode m = ''rw'')"

definition seq_ok :: "sequence_rule \<Rightarrow> bool" where
  "seq_ok sr \<longleftrightarrow> seq_id sr \<noteq> [] \<and> 2 \<le> length (seq_pattern sr) \<and>
     (seq_action sr = ''deny'' \<or> seq_action sr = ''audit'')"

definition well_formed :: "policy_libs \<Rightarrow> policy \<Rightarrow> bool" where
  "well_formed L p \<longleftrightarrow>
     pol_version p = ''1'' \<and> ai_name (pol_agent p) \<noteq> [] \<and>
     pol_mode p \<in> {''enforce'', ''audit'', ''permissive''} \<and> pol_default p \<in> {''deny'', ''allow''} \<and>
     list_all rule_ok (pol_rules p) \<and> distinct (map rule_id (pol_rules p)) \<and>
     (if fs_enabled (pol_filesystem p)
      then fs_mounts (pol_filesystem p) \<noteq> [] \<and> list_all mount_ok (fs_mounts (pol_filesystem p)) else True) \<and>
     (if exf_enabled (pol_exfiltration p)
      then list_all (\<lambda>pat. regexp_error L pat = None) (exf_sensitive_patterns (pol_exfiltration p)) \<and>
           exf_block_action (pol_exfiltration p) \<in> {[], ''deny'', ''audit''} else True) \<and>
     (if sc_rules (pol_sequences p) \<noteq> []
      then (sc_window (pol_sequences p) = 0 \<or> sc_window (pol_sequences p) \<ge> 2) \<and>
           list_all seq_ok (sc_rules (pol_sequences p)) \<and> distinct (map seq_id (sc_rules (pol_sequences p)))
      else True)"

definition strict_safe :: "policy \<Rightarrow> bool" where
  "strict_safe p \<longleftrightarrow>
     (if pol_mode p = ''enforce'' then pol_default p \<noteq> ''allow'' \<and> pol_signature_required p else True) \<and>
     list_all (\<lambda>m. fm_mode m \<noteq> ''rw'') (fs_mounts (pol_filesystem p))"

lemma validate_header_empty:
  "validate_header p = [] \<longleftrightarrow> pol_version p = ''1'' \<and> ai_name (pol_agent p) \<noteq> [] \<and>
     pol_mode p \<in> {''enforce'', ''audit'', ''permissive''} \<and> pol_default p \<in> {''deny'', ''allow''}"
  by (auto simp: validate_header_def)

lemma validate_rule_fields_empty:
  "validate_rule_fields pre r = [] \<longleftrightarrow> rule_protocol r \<noteq> [] \<and> rule_method r \<noteq> [] \<and> rule_target r \<noteq> [] \<and>
     (rule_action r = ''allow'' \<or> rule_action r = ''deny'')"
  by (auto simp: validate_rule_fields_def)

lemma rule_ok_iff: "rule_ok r \<longleftrightarrow> rule_id r \<noteq> [] \<and> validate_rule_fields pre r = []"
  by (auto simp: rule_ok_def validate_rule_fields_empty)

text \<open>The loop's \<open>seenIDs\<close> map holds exactly the ids already met.\<close>

lemma validate_rules_empty:
  "validate_rules i seen rs = [] \<longleftrightarrow>
     list_all rule_ok rs \<and> distinct (map rule_id rs) \<and> (\<forall>r \<in> set rs. seen (rule_id r) = None)"
proof (induction rs arbitrary: i seen)
  case (Cons r rs)
  show ?case
  proof (cases "rule_id r = []")
    case True
    then show ?thesis by (simp add: rule_ok_iff [of r undefined] Let_def)
  next
    case False
    then show ?thesis
      using Cons.IH [of "Suc i" "seen(rule_id r \<mapsto> i)"]
      by (cases "seen (rule_id r)")
        (auto simp: Let_def rule_ok_iff [of r "indexed ''rules'' i"] fresh_upd simp del: fun_upd_apply)
  qed
qed simp

lemma validate_mounts_empty: "validate_mounts i ms = [] \<longleftrightarrow> list_all mount_ok ms"
  by (induction ms arbitrary: i) (auto simp: Let_def mount_ok_def)

lemma validate_patterns_empty:
  "validate_patterns L i ps = [] \<longleftrightarrow> list_all (\<lambda>pat. regexp_error L pat = None) ps"
  by (induction ps arbitrary: i) (auto split: option.splits)

lemma validate_seq_fields_empty:
  "validate_seq_fields pre sr = [] \<longleftrightarrow> 2 \<le> length (seq_pattern sr) \<and>
     (seq_action sr = ''deny'' \<or> seq_action sr = ''audit'')"
  by (auto simp: validate_seq_fields_def)

lemma seq_ok_iff: "seq_ok r \<longleftrightarrow> seq_id r \<noteq> [] \<and> validate_seq_fields pre r = []"
  by (auto simp: seq_ok_def validate_seq_fields_empty)

lemma validate_seqs_empty:
  "validate_seqs i seen srs = [] \<longleftrightarrow>
     list_all seq_ok srs \<and> distinct (map seq_id srs) \<and> (\<forall>r \<in> set srs. seen (seq_id r) = None)"
proof (induction srs arbitrary: i seen)
  case (Cons r srs)
  show ?case
  proof (cases "seq_id r = []")
    case True
    then show ?thesis by (simp add: seq_ok_iff [of r undefined] Let_def)
  next
    case False
    then show ?thesis
      using Cons.IH [of "Suc i" "seen(seq_id r \<mapsto> i)"]
      by (cases "seen (seq_id r)")
        (auto simp: Let_def seq_ok_iff [of r "indexed ''sequences.rules'' i"] fresh_upd simp del: fun_upd_apply)
  qed
qed simp

lemma validate_rw_mounts_empty:
  "validate_rw_mounts i ms = [] \<longleftrightarrow> list_all (\<lambda>m. fm_mode m \<noteq> ''rw'') ms"
  by (induction ms arbitrary: i) auto

lemmas validate_empty_simps =
  validate_header_empty validate_rules_empty validate_mounts_empty validate_patterns_empty
  validate_seqs_empty validate_rw_mounts_empty

lemma validate_filesystem_empty:
  "validate_filesystem p = [] \<longleftrightarrow> (if fs_enabled (pol_filesystem p)
      then fs_mounts (pol_filesystem p) \<noteq> [] \<and> list_all mount_ok (fs_mounts (pol_filesystem p)) else True)"
  by (simp add: validate_filesystem_def validate_empty_simps)

lemma validate_exfiltration_empty:
  "validate_exfiltration L p = [] \<longleftrightarrow> (if exf_enabled (pol_exfiltration p)
      then list_all (\<lambda>pat. regexp_error L pat = None) (exf_sensitive_patterns (pol_exfiltration p)) \<and>
           exf_block_action (pol_exfiltration p) \<in> {[], ''deny'', ''audit''} else True)"
  by (simp add: validate_exfiltration_def Let_def validate_empty_simps)

lemma validate_sequences_empty:
  "validate_sequences p = [] \<longleftrightarrow> (if sc_rules (pol_sequences p) \<noteq> []
      then (sc_window (pol_sequences p) = 0 \<or> sc_window (pol_sequences p) \<ge> 2) \<and>
           list_all seq_ok (sc_rules (pol_sequences p)) \<and> distinct (map seq_id (sc_rules (pol_sequences p)))
      else True)"
  by (auto simp: validate_sequences_def Let_def validate_empty_simps)

lemma validate_strict_empty: "validate_strict p = [] \<longleftrightarrow> strict_safe p"
  by (auto simp: validate_strict_def strict_safe_def validate_empty_simps)

lemma validate_empty:
  "validate L p strict = [] \<longleftrightarrow> well_formed L p \<and> (if strict then strict_safe p else True)"
  by (auto simp: validate_def well_formed_def validate_header_empty validate_rules_empty
      validate_filesystem_empty validate_exfiltration_empty validate_sequences_empty validate_strict_empty)

text \<open>
  C3. \<open>Validate\<close> returns no error exactly for the well-formed policies (required fields present,
  every enumerated field one of its values, rule and sequence ids distinct, mounts, patterns and
  window in range), and in strict mode exactly for those that are also safe: no allow-by-default
  and no unsigned policy under enforce, no read-write mount.
\<close>

theorem validate_sound_complete:
  "validate L p strict = [] \<longleftrightarrow> well_formed L p \<and> (if strict then strict_safe p else True)"
  by (rule validate_empty)

section \<open>Evaluation: first match wins\<close>

definition constraint_hit :: "policy \<Rightarrow> run_state \<Rightarrow> string option" where
  "constraint_hit p st =
     (if max_actions (pol_constraints p) > 0 \<and> action_count st \<ge> max_actions (pol_constraints p)
      then Some ''constraint:max_actions''
      else if max_duration_seconds (pol_constraints p) > 0 \<and>
              elapsed_seconds st \<ge> max_duration_seconds (pol_constraints p)
      then Some ''constraint:max_duration'' else None)"

text \<open>The rule list as a specification reads it: the first matching rule's action, else the default.\<close>

definition chosen :: "policy_libs \<Rightarrow> action_intent \<Rightarrow> policy \<Rightarrow> string \<times> string" where
  "chosen L i p = (case List.find (rule_matches L i) (pol_rules p) of
     Some r \<Rightarrow> (rule_action r, rule_id r) | None \<Rightarrow> (pol_default p, ''default''))"

definition soften :: "string \<Rightarrow> string \<Rightarrow> string" where
  "soften mode action =
     (if action \<noteq> ''deny'' then ''allow''
      else if mode = ''audit'' then ''audit_deny''
      else if mode = ''permissive'' then ''would_deny'' else ''deny'')"

definition spec_decision :: "policy_libs \<Rightarrow> action_intent \<Rightarrow> policy \<Rightarrow> run_state \<Rightarrow> string \<times> string" where
  "spec_decision L i p st = (case constraint_hit p st of
     Some c \<Rightarrow> (''deny'', c)
   | None \<Rightarrow> (case chosen L i p of (action, rid) \<Rightarrow> (soften (pol_mode p) action, rid)))"

lemma apply_mode_fields:
  "ad_decision (apply_mode a r x m) = soften m a" "ad_rule_id (apply_mode a r x m) = r"
  by (auto simp: apply_mode_def soften_def Let_def)

lemma eval_rules_find:
  "eval_rules L i mode dflt rs =
     (case List.find (rule_matches L i) rs of
        Some r \<Rightarrow> apply_mode (rule_action r) (rule_id r) (''matched rule '' @ go_quote (rule_id r)) mode
      | None \<Rightarrow> apply_mode dflt ''default'' (''no matching rule; policy default: '' @ dflt) mode)"
  by (induction rs) auto

lemma evaluate_spec:
  "(ad_decision (evaluate L i p st), ad_rule_id (evaluate L i p st)) = spec_decision L i p st"
  by (auto simp: evaluate_def spec_decision_def constraint_hit_def chosen_def Let_def
      eval_rules_find apply_mode_fields split: option.splits)

lemma evaluate_decision:
  "ad_decision (evaluate L i p st) = fst (spec_decision L i p st)"
  by (metis evaluate_spec fst_conv)

text \<open>
  C1. \<open>Evaluate\<close> implements the policy's specification: a constraint that is hit is a hard deny
  under its own label whatever the mode; otherwise the first rule in document order whose protocol,
  method, target and parameters match decides, the default if there is none; and the mode turns a
  deny into a flag (audit, permissive) or leaves it a block.
\<close>

theorem evaluate_refines_spec:
  "(ad_decision (evaluate L i p st), ad_rule_id (evaluate L i p st)) = spec_decision L i p st"
  by (rule evaluate_spec)

lemma well_formed_chosen:
  assumes "well_formed L p"
  shows "fst (chosen L i p) = ''allow'' \<or> fst (chosen L i p) = ''deny''"
proof (cases "List.find (rule_matches L i) (pol_rules p)")
  case None
  with assms show ?thesis by (auto simp: chosen_def well_formed_def)
next
  case (Some r)
  then have "r \<in> set (pol_rules p)" by (auto dest: find_SomeD)
  with assms have "rule_ok r" by (auto simp: well_formed_def list_all_iff)
  with Some show ?thesis by (auto simp: chosen_def rule_ok_def)
qed

text \<open>
  C2. Under a policy that passed validation in enforce mode, evaluation fails closed: an action is
  let through only when no constraint is hit and the deciding rule, or the default where no rule
  matches, says allow in so many words.
\<close>

theorem validated_enforce_fails_closed:
  assumes "validate L p strict = []" and "pol_mode p = ''enforce''"
  shows "is_allowed (evaluate L i p st) \<longleftrightarrow>
    constraint_hit p st = None \<and> fst (chosen L i p) = ''allow''"
proof -
  have "fst (chosen L i p) = ''allow'' \<or> fst (chosen L i p) = ''deny''"
    using assms(1) by (intro well_formed_chosen) (simp add: validate_empty)
  with assms(2) show ?thesis
    by (auto simp: is_allowed_def evaluate_decision spec_decision_def soften_def
        split: option.splits prod.splits)
qed

text \<open>A policy for the witnesses, with globs that match only themselves.\<close>

definition demo_libs :: policy_libs where
  "demo_libs = \<lparr>glob_match = (\<lambda>pat v. Some (pat = v)), regexp_error = (\<lambda>_. None),
     float_text = (\<lambda>n. n), yaml_policy = (\<lambda>_. Inl ''eof'')\<rparr>"

definition demo_rule :: "string \<Rightarrow> string \<Rightarrow> string \<Rightarrow> rule" where
  "demo_rule rid target action = \<lparr>rule_id = rid, rule_protocol = ''mcp'', rule_method = ''*'',
     rule_target = target, rule_action = action, rule_params = []\<rparr>"

definition demo_policy :: "string \<Rightarrow> policy" where
  "demo_policy mode = \<lparr>pol_version = ''1'', pol_agent = \<lparr>ai_name = ''bot'', ai_version = []\<rparr>,
     pol_mode = mode, pol_default = ''deny'', pol_signature_required = True,
     pol_redaction = \<lparr>red_keys = [], red_headers = []\<rparr>,
     pol_rules = [demo_rule ''r1'' ''search'' ''allow'', demo_rule ''r2'' ''rm'' ''deny''],
     pol_constraints = \<lparr>max_actions = 10, max_duration_seconds = 0\<rparr>,
     pol_filesystem = \<lparr>fs_enabled = False, fs_mounts = [], fs_deny_patterns = []\<rparr>,
     pol_network = \<lparr>dns_allow = [], dns_deny = []\<rparr>,
     pol_exfiltration = \<lparr>exf_enabled = False, exf_sensitive_patterns = [], exf_max_query_entropy = 0,
       exf_min_value_length = 0, exf_block_action = []\<rparr>,
     pol_sequences = \<lparr>sc_rules = [], sc_window = 0\<rparr>\<rparr>"

definition demo_intent :: "string \<Rightarrow> action_intent" where
  "demo_intent t = \<lparr>in_protocol = ''mcp'', in_method = ''tool_call'', in_target = t, in_params = []\<rparr>"

lemma demo_validates: "validate demo_libs (demo_policy ''enforce'') True = []"
  by (simp add: validate_empty well_formed_def strict_safe_def demo_policy_def demo_rule_def rule_ok_def)

lemma validated_enforce_fails_closed_witness:
  "is_allowed (evaluate demo_libs (demo_intent ''search'') (demo_policy ''enforce'') \<lparr>action_count = 9, elapsed_seconds = 5\<rparr>)"
proof -
  have m: "pol_mode (demo_policy ''enforce'') = ''enforce''" by (simp add: demo_policy_def)
  show ?thesis
    by (subst validated_enforce_fails_closed [OF demo_validates m])
      (simp add: constraint_hit_def chosen_def rule_matches_def match_glob_def match_params_def
        demo_policy_def demo_rule_def demo_intent_def demo_libs_def)
qed

end
