(* ===== verification/Sequence.thy ===== *)
theory Sequence
  imports Policy
begin

text \<open>
  \<open>internal/policy/sequence.go\<close>: the detector that keeps the last \<open>window\<close> tool names in a ring
  buffer and looks for a rule whose pattern occurs as an ordered subsequence of them. The interface
  the detector needs of its buffer is the locale \<open>recent_log\<close>; the ring buffer is its
  interpretation. Counters are natural numbers (Go's \<open>count\<close> would wrap after \<open>2 ^ 63\<close> calls).
\<close>

section \<open>The detector\<close>

record sequence_detector =
  sd_rules :: "sequence_rule list"
  sd_window :: nat
  sd_history :: "string list"
  sd_pos :: nat
  sd_count :: nat

definition window_of :: "sequence_config \<Rightarrow> nat" where
  "window_of cfg = (if sc_window cfg < 2 then 10 else nat (sc_window cfg))"

definition new_detector :: "sequence_config \<Rightarrow> sequence_detector" where
  "new_detector cfg = \<lparr>sd_rules = sc_rules cfg, sd_window = window_of cfg,
     sd_history = replicate (window_of cfg) [], sd_pos = 0, sd_count = 0\<rparr>"

record sequence_match =
  sm_rule_id :: string
  sm_reason :: string
  sm_action :: string
  sm_chain :: "string list"

definition ordered_history :: "sequence_detector \<Rightarrow> string list" where
  "ordered_history d =
     (let w = sd_window d;
          n = (if sd_count d < w then sd_count d else w);
          start = (if sd_pos d < n then sd_pos d + w - n else sd_pos d - n)
      in map (\<lambda>i. sd_history d ! ((start + i) mod w)) [0..<n])"

definition match_pattern_element :: "policy_libs \<Rightarrow> string \<Rightarrow> string \<Rightarrow> bool" where
  "match_pattern_element L tool elem =
     list_ex (\<lambda>alt. match_glob L tool (trim_space alt)) (split_on (CHR ''|'') elem)"

fun match_loop :: "policy_libs \<Rightarrow> string list \<Rightarrow> string list \<Rightarrow> string list \<Rightarrow> string list option" where
  "match_loop L [] ps chain = None"
| "match_loop L (t # ts) [] chain = None"
| "match_loop L (t # ts) (p # ps) chain =
     (if match_pattern_element L t p
      then (if ps = [] then Some (chain @ [t]) else match_loop L ts ps (chain @ [t]))
      else match_loop L ts (p # ps) chain)"

definition match_subsequence :: "policy_libs \<Rightarrow> string list \<Rightarrow> string list \<Rightarrow> string list option" where
  "match_subsequence L history pattern =
     (if pattern = [] \<or> length pattern > length history then None
      else match_loop L history pattern [])"

fun first_sequence_match :: "policy_libs \<Rightarrow> string list \<Rightarrow> sequence_rule list \<Rightarrow> sequence_match option" where
  "first_sequence_match L h [] = None"
| "first_sequence_match L h (r # rs) =
     (case match_subsequence L h (seq_pattern r) of
        Some chain \<Rightarrow> Some \<lparr>sm_rule_id = seq_id r, sm_reason = seq_reason r,
                            sm_action = seq_action r, sm_chain = chain\<rparr>
      | None \<Rightarrow> first_sequence_match L h rs)"

text \<open>\<open>Record\<close>: write the slot, advance, match.\<close>

definition push_tool :: "string \<Rightarrow> sequence_detector \<Rightarrow> sequence_detector" where
  "push_tool tool d = d\<lparr>sd_history := (sd_history d)[sd_pos d := tool],
     sd_pos := (sd_pos d + 1) mod sd_window d, sd_count := sd_count d + 1\<rparr>"

definition record_tool :: "policy_libs \<Rightarrow> string \<Rightarrow> sequence_detector \<Rightarrow>
    sequence_match option \<times> sequence_detector" where
  "record_tool L tool d =
     (let d' = push_tool tool d
      in (first_sequence_match L (ordered_history d') (sd_rules d'), d'))"

section \<open>A log of the most recent entries\<close>

locale recent_log =
  fixes cap :: nat
    and init :: 's
    and add :: "'a \<Rightarrow> 's \<Rightarrow> 's"
    and recent :: "'s \<Rightarrow> 'a list"
    and inv :: "'s \<Rightarrow> bool"
  assumes cap_pos: "0 < cap"
    and inv_init: "inv init"
    and recent_init: "recent init = []"
    and inv_add: "inv s \<Longrightarrow> inv (add x s)"
    and recent_add: "inv s \<Longrightarrow> recent (add x s) = last_n cap (recent s @ [x])"
begin

lemma inv_fold: "inv s \<Longrightarrow> inv (fold add xs s)"
  by (induction xs arbitrary: s) (auto simp: inv_add)

lemma last_n_last_n_snoc: "last_n cap (last_n cap xs @ [x]) = last_n cap (xs @ [x])"
proof -
  obtain k where k: "cap = Suc k" using cap_pos by (cases cap) auto
  have "last_n k (last_n (Suc k) xs) = last_n k xs"
    by (cases "length xs \<le> k") (simp_all add: last_n_def Suc_diff_Suc not_le)
  with k show ?thesis by (simp add: last_n_snoc)
qed

lemma recent_run: "inv s \<Longrightarrow> recent (fold add xs s) = (if xs = [] then recent s else last_n cap (recent s @ xs))"
proof (induction xs rule: rev_induct)
  case (snoc x xs)
  then show ?case using last_n_last_n_snoc [of "recent s @ xs" x] by (auto simp: recent_add inv_fold)
qed simp

lemma recent_fold: "recent (fold add xs init) = last_n cap xs"
  using recent_run [OF inv_init, of xs] by (auto simp: recent_init last_n_def)

lemma recent_length: "length (recent (fold add xs init)) = min cap (length xs)"
  by (simp add: recent_fold)

end

section \<open>The ring buffer is such a log\<close>

definition ring_ok :: "nat \<Rightarrow> sequence_detector \<Rightarrow> bool" where
  "ring_ok w d \<longleftrightarrow> 0 < w \<and> sd_window d = w \<and> length (sd_history d) = w \<and> sd_pos d = sd_count d mod w"

lemma window_of_pos: "2 \<le> window_of cfg"
  by (auto simp: window_of_def)

lemma ring_ok_new: "ring_ok (window_of cfg) (new_detector cfg)"
  using window_of_pos [of cfg] by (simp add: ring_ok_def new_detector_def)

lemma ring_ok_push: "ring_ok w d \<Longrightarrow> ring_ok w (push_tool t d)"
  by (auto simp: ring_ok_def push_tool_def mod_Suc_eq)

text \<open>Read through the counter, the buffer is the map of the indices \<open>count - n .. count - 1\<close>.\<close>

lemma mod_back:
  fixes c n w :: nat
  assumes "0 < w" "n \<le> c" "n \<le> w"
  shows "((if c mod w < n then c mod w + w - n else c mod w - n) + i) mod w = (c - n + i) mod w"
proof -
  let ?q = "c div w"
  have c: "c = ?q * w + c mod w" by simp
  show ?thesis
  proof (cases "c mod w < n")
    case True
    with assms(2) c have "?q \<noteq> 0" by (metis add_0 leD mult_0)
    then obtain q where q: "?q = Suc q" by (cases ?q) auto
    with c True assms(3) have "c = q * w + w + c mod w" by simp
    then have "c - n + i = (c mod w + w - n + i) + q * w" using assms(3) by linarith
    then have "(c - n + i) mod w = (c mod w + w - n + i) mod w" by (metis mod_mult_self1)
    with True show ?thesis by simp
  next
    case False
    with c have "c - n + i = (c mod w - n + i) + ?q * w" by linarith
    then have "(c - n + i) mod w = (c mod w - n + i) mod w" by (metis mod_mult_self1)
    with False show ?thesis by simp
  qed
qed

lemma ordered_history_eq:
  assumes "ring_ok w d"
  shows "ordered_history d =
    map (\<lambda>j. sd_history d ! (j mod w)) [sd_count d - min w (sd_count d)..<sd_count d]"
proof -
  let ?c = "sd_count d"
  let ?n = "min w ?c"
  have n: "(if ?c < w then ?c else w) = ?n" by simp
  have "ordered_history d = map (\<lambda>i. sd_history d ! ((?c - ?n + i) mod w)) [0..<?n]"
    using assms mod_back [of w ?n ?c]
    by (auto simp: ordered_history_def ring_ok_def Let_def n)
  also have "\<dots> = map (\<lambda>j. sd_history d ! (j mod w)) (map ((+) (?c - ?n)) [0..<?n])"
    by simp
  also have "map ((+) (?c - ?n)) [0..<?n] = [?c - ?n..<?c]"
    by (rule nth_equalityI) auto
  finally show ?thesis .
qed

lemma mod_neq_within:
  fixes j c w :: nat
  assumes "j < c" "c < j + w"
  shows "j mod w \<noteq> c mod w"
proof
  assume "j mod w = c mod w"
  then have "w dvd c - j" using assms(1) by (metis mod_eq_dvd_iff_nat less_imp_le)
  then have "w \<le> c - j" using assms(1) by (simp add: dvd_imp_le)
  with assms show False by linarith
qed

lemma last_n_map_upt: "last_n k (map f [a..<b]) = map f [b - min k (b - a)..<b]"
  by (cases "a \<le> b") (auto simp: last_n_def drop_map min_def)

lemma ordered_history_push:
  assumes "ring_ok w d"
  shows "ordered_history (push_tool t d) = last_n w (ordered_history d @ [t])"
proof -
  let ?c = "sd_count d" and ?h = "sd_history d"
  let ?a = "?c - min (w - 1) ?c"
  from assms have w: "0 < w" "length ?h = w" "sd_pos d = ?c mod w" by (auto simp: ring_ok_def)
  have c1: "Suc ?c - min w (Suc ?c) = ?a" using w(1) by (auto simp: min_def)
  have eq: "?h[?c mod w := t] ! (j mod w) = ?h ! (j mod w)" if "j \<in> set [?a..<?c]" for j
  proof -
    have "j < ?c" "?c < j + w" using that w(1) by auto
    then have "j mod w \<noteq> ?c mod w" by (rule mod_neq_within)
    then show ?thesis by simp
  qed
  have "ordered_history (push_tool t d) =
      map (\<lambda>j. ?h[?c mod w := t] ! (j mod w)) ([?a..<?c] @ [?c])"
    using ordered_history_eq [OF ring_ok_push [OF assms, of t]] c1 w(3)
    by (simp add: push_tool_def)
  also have "\<dots> = map (\<lambda>j. ?h ! (j mod w)) [?a..<?c] @ [t]"
    using eq w by simp
  also have "map (\<lambda>j. ?h ! (j mod w)) [?a..<?c] = last_n (w - 1) (ordered_history d)"
    unfolding ordered_history_eq [OF assms] last_n_map_upt
    using w(1) by (auto simp: min_def intro!: arg_cong [where f = "map _"])
  finally show ?thesis using w(1) by (simp add: last_n_snoc)
qed

lemma ordered_history_new: "ordered_history (new_detector cfg) = []"
  by (simp add: ordered_history_def new_detector_def)

interpretation ring: recent_log "window_of cfg" "new_detector cfg" push_tool ordered_history
    "ring_ok (window_of cfg)" for cfg
  using window_of_pos [of cfg]
  by unfold_locales (simp_all add: ring_ok_new ordered_history_new ring_ok_push ordered_history_push)

section \<open>Subsequence matching\<close>

lemma match_loop_sound:
  "match_loop L ts ps chain = Some c \<Longrightarrow>
     \<exists>zs. c = chain @ zs \<and> subseq zs ts \<and> list_all2 (match_pattern_element L) zs ps"
proof (induction L ts ps chain rule: match_loop.induct)
  case (3 L t ts p ps chain)
  show ?case
  proof (cases "match_pattern_element L t p")
    case True
    show ?thesis
    proof (cases "ps = []")
      case True
      with 3 \<open>match_pattern_element L t p\<close> show ?thesis by (intro exI [of _ "[t]"]) auto
    next
      case False
      with 3 True obtain zs where "c = (chain @ [t]) @ zs" "subseq zs ts"
        "list_all2 (match_pattern_element L) zs ps" by auto
      with True show ?thesis by (intro exI [of _ "t # zs"]) auto
    qed
  next
    case False
    with 3 show ?thesis by (auto simp: subseq_Cons')
  qed
qed auto

lemma match_loop_complete:
  "subseq zs ts \<Longrightarrow> list_all2 (match_pattern_element L) zs ps \<Longrightarrow> ps \<noteq> [] \<Longrightarrow>
     match_loop L ts ps chain \<noteq> None"
proof (induction L ts ps chain arbitrary: zs rule: match_loop.induct)
  case (1 L ps chain)
  then have "zs = []" by simp
  with 1 show ?case by simp
next
  case (3 L t ts p ps chain)
  obtain z zs' where zs: "zs = z # zs'" "match_pattern_element L z p"
    "list_all2 (match_pattern_element L) zs' ps"
    using 3(4) by (cases zs) auto
  have sub: "subseq zs' ts" using 3(3) zs(1) by (cases "z = t") (auto dest: subseq_Cons')
  show ?case
  proof (cases "match_pattern_element L t p")
    case True
    show ?thesis
    proof (cases "ps = []")
      case True
      with \<open>match_pattern_element L t p\<close> show ?thesis by simp
    next
      case False
      with True show ?thesis using 3(1) [OF True False sub zs(3) False] by simp
    qed
  next
    case False
    with 3(3) zs have "subseq zs ts" by (cases "z = t") auto
    with False show ?thesis using 3(2) [OF False _ 3(4)] by simp
  qed
qed auto

definition occurs_in :: "policy_libs \<Rightarrow> string list \<Rightarrow> string list \<Rightarrow> bool" where
  "occurs_in L pattern h \<longleftrightarrow>
     pattern \<noteq> [] \<and> (\<exists>zs. subseq zs h \<and> list_all2 (match_pattern_element L) zs pattern)"

lemma match_subsequence_occurs: "match_subsequence L h pat \<noteq> None \<longleftrightarrow> occurs_in L pat h"
proof
  assume "match_subsequence L h pat \<noteq> None"
  then show "occurs_in L pat h"
    by (auto simp: match_subsequence_def occurs_in_def dest: match_loop_sound split: if_splits)
next
  assume "occurs_in L pat h"
  then obtain zs where z: "pat \<noteq> []" "subseq zs h" "list_all2 (match_pattern_element L) zs pat"
    by (auto simp: occurs_in_def)
  then have "length pat \<le> length h" by (metis list_all2_lengthD list_emb_length)
  with z match_loop_complete [OF z(2,3,1)] show "match_subsequence L h pat \<noteq> None"
    by (auto simp: match_subsequence_def)
qed

lemma match_subsequence_chain:
  "match_subsequence L h pat = Some c \<Longrightarrow> subseq c h \<and> list_all2 (match_pattern_element L) c pat"
  by (auto simp: match_subsequence_def dest: match_loop_sound split: if_splits)

lemma first_sequence_match_find:
  "first_sequence_match L h rs =
     map_option (\<lambda>r. \<lparr>sm_rule_id = seq_id r, sm_reason = seq_reason r, sm_action = seq_action r,
        sm_chain = the (match_subsequence L h (seq_pattern r))\<rparr>)
       (List.find (\<lambda>r. occurs_in L (seq_pattern r) h) rs)"
proof (induction rs)
  case (Cons r rs)
  then show ?case
    using match_subsequence_occurs [of L h "seq_pattern r"] by (auto split: option.splits)
qed simp

section \<open>Properties of the detector\<close>

definition detector_after :: "sequence_config \<Rightarrow> string list \<Rightarrow> sequence_detector" where
  "detector_after cfg tools = fold push_tool tools (new_detector cfg)"

lemma detector_after_rules: "sd_rules (detector_after cfg tools) = sc_rules cfg"
proof -
  have "sd_rules (fold push_tool tools d) = sd_rules d" for d
    by (induction tools arbitrary: d) (auto simp: push_tool_def)
  then show ?thesis by (simp add: detector_after_def new_detector_def)
qed

lemma snd_record_tool: "snd (record_tool L t d) = push_tool t d"
  by (simp add: record_tool_def Let_def)

text \<open>
  C26. The ring buffer refines a plain list: after any sequence of recorded tools, the history the
  detector reads back, in order, is the last \<open>window\<close> of them, however often the buffer wrapped.
\<close>

theorem ring_buffer_refines_list:
  "ordered_history (detector_after cfg tools) = last_n (window_of cfg) tools"
  unfolding detector_after_def by (rule ring.recent_fold)

text \<open>
  C27. \<open>Record\<close> reports exactly the first rule, in configuration order, whose pattern occurs as an
  ordered subsequence of the last \<open>window\<close> tools (the new one included), and no match when there is none.
\<close>

theorem record_reports_first_occurring_rule:
  "map_option sm_rule_id (fst (record_tool L t (detector_after cfg tools))) =
     map_option seq_id (List.find (\<lambda>r. occurs_in L (seq_pattern r) (last_n (window_of cfg) (tools @ [t]))) (sc_rules cfg))"
proof -
  have d: "push_tool t (detector_after cfg tools) = detector_after cfg (tools @ [t])"
    by (simp add: detector_after_def)
  have h: "ordered_history (detector_after cfg (tools @ [t])) = last_n (window_of cfg) (tools @ [t])"
    unfolding detector_after_def by (rule ring.recent_fold)
  show ?thesis
    by (simp add: record_tool_def Let_def d h detector_after_rules first_sequence_match_find
        option.map_comp comp_def)
qed

end
