(* ===== verification/Policy_Simulate.thy ===== *)
theory Policy_Simulate
  imports Sequence
begin

text \<open>
  \<open>internal/policy/simulate.go\<close>: re-evaluating recorded action events under a candidate policy and
  bucketing the verdicts that change. The specification is a classification of each event; the loop
  is shown to count and sample it.
\<close>

section \<open>Data\<close>

record action_event =
  ae_run_id :: string
  ae_protocol :: string
  ae_method :: string
  ae_target :: string
  ae_params :: string
  ae_old_auth :: string

record sample_flip =
  sf_run_id :: string
  sf_target :: string
  sf_method :: string
  sf_old_auth :: string
  sf_new_auth :: string

record diff =
  newly_denied :: nat
  newly_allowed :: nat
  df_unchanged :: nat
  total_evaluated :: nat
  df_samples :: "sample_flip list"

definition max_samples_per_bucket :: nat where
  "max_samples_per_bucket = 5"

definition empty_diff :: diff where
  "empty_diff = \<lparr>newly_denied = 0, newly_allowed = 0, df_unchanged = 0, total_evaluated = 0, df_samples = []\<rparr>"

section \<open>Simulate\<close>

definition is_denied_verdict :: "string \<Rightarrow> bool" where
  "is_denied_verdict a \<longleftrightarrow> a \<in> {''deny'', ''audit_deny'', ''would_deny''}"

definition event_intent :: "action_event \<Rightarrow> action_intent" where
  "event_intent ev = \<lparr>in_protocol = ae_protocol ev, in_method = ae_method ev,
     in_target = ae_target ev, in_params = ae_params ev\<rparr>"

definition event_decision :: "policy_libs \<Rightarrow> policy \<Rightarrow> action_event \<Rightarrow> auth_decision" where
  "event_decision L p ev = evaluate L (event_intent ev) p \<lparr>action_count = 0, elapsed_seconds = 0\<rparr>"

definition flip_of :: "action_event \<Rightarrow> auth_decision \<Rightarrow> sample_flip" where
  "flip_of ev d = \<lparr>sf_run_id = ae_run_id ev, sf_target = ae_target ev, sf_method = ae_method ev,
     sf_old_auth = ae_old_auth ev, sf_new_auth = ad_decision d\<rparr>"

text \<open>The loop; \<open>ds\<close> and \<open>as\<close> are \<open>deniedSamples\<close> and \<open>allowedSamples\<close>.\<close>

fun simulate_loop :: "policy_libs \<Rightarrow> policy \<Rightarrow> diff \<Rightarrow> nat \<Rightarrow> nat \<Rightarrow> action_event list \<Rightarrow> diff" where
  "simulate_loop L p d ds as [] = d"
| "simulate_loop L p d ds as (ev # evs) =
     (let d1 = d\<lparr>total_evaluated := total_evaluated d + 1\<rparr>;
          dec = event_decision L p ev;
          was = is_denied_verdict (ae_old_auth ev);
          now = (is_denied dec \<or> ad_decision dec = ''audit_deny'' \<or> ad_decision dec = ''would_deny'')
      in if was = now then
           simulate_loop L p (d1\<lparr>df_unchanged := df_unchanged d1 + 1\<rparr>) ds as evs
         else if \<not> was then
           (let d2 = d1\<lparr>newly_denied := newly_denied d1 + 1\<rparr>
            in if ds < max_samples_per_bucket
               then simulate_loop L p (d2\<lparr>df_samples := df_samples d2 @ [flip_of ev dec]\<rparr>) (ds + 1) as evs
               else simulate_loop L p d2 ds as evs)
         else
           (let d2 = d1\<lparr>newly_allowed := newly_allowed d1 + 1\<rparr>
            in if as < max_samples_per_bucket
               then simulate_loop L p (d2\<lparr>df_samples := df_samples d2 @ [flip_of ev dec]\<rparr>) ds (as + 1) evs
               else simulate_loop L p d2 ds as evs))"

definition simulate :: "policy_libs \<Rightarrow> policy \<Rightarrow> action_event list \<Rightarrow> diff" where
  "simulate L p evs = simulate_loop L p empty_diff 0 0 evs"

section \<open>Specification: classify each event\<close>

definition flips_to_deny :: "policy_libs \<Rightarrow> policy \<Rightarrow> action_event \<Rightarrow> bool" where
  "flips_to_deny L p ev \<longleftrightarrow> \<not> is_denied_verdict (ae_old_auth ev) \<and>
     is_denied_verdict (ad_decision (event_decision L p ev))"

definition flips_to_allow :: "policy_libs \<Rightarrow> policy \<Rightarrow> action_event \<Rightarrow> bool" where
  "flips_to_allow L p ev \<longleftrightarrow> is_denied_verdict (ae_old_auth ev) \<and>
     \<not> is_denied_verdict (ad_decision (event_decision L p ev))"

definition count_where :: "('a \<Rightarrow> bool) \<Rightarrow> 'a list \<Rightarrow> nat" where
  "count_where P xs = length (filter P xs)"

lemma count_where_simps [simp]:
  "count_where P [] = 0"
  "count_where P (x # xs) = (if P x then Suc (count_where P xs) else count_where P xs)"
  by (simp_all add: count_where_def)

lemma now_denied_iff:
  "(is_denied d \<or> ad_decision d = ''audit_deny'' \<or> ad_decision d = ''would_deny'') =
     is_denied_verdict (ad_decision d)"
  by (auto simp: is_denied_def is_denied_verdict_def)

lemma flip_of_old_auth [simp]: "sf_old_auth (flip_of ev d) = ae_old_auth ev"
  by (simp add: flip_of_def)

lemmas flip_simps = now_denied_iff flips_to_deny_def flips_to_allow_def Let_def

lemma simulate_loop_counts:
  "newly_denied (simulate_loop L p d ds as evs) = newly_denied d + count_where (flips_to_deny L p) evs"
  "newly_allowed (simulate_loop L p d ds as evs) = newly_allowed d + count_where (flips_to_allow L p) evs"
  "total_evaluated (simulate_loop L p d ds as evs) = total_evaluated d + length evs"
  "df_unchanged (simulate_loop L p d ds as evs) + count_where (flips_to_deny L p) evs +
     count_where (flips_to_allow L p) evs = df_unchanged d + length evs"
proof (induction evs arbitrary: d ds as)
  case (Cons ev evs)
  let ?was = "is_denied_verdict (ae_old_auth ev)"
  let ?now = "is_denied_verdict (ad_decision (event_decision L p ev))"
  { case 1 show ?case using Cons by (cases ?was; cases ?now) (simp_all add: flip_simps) }
  { case 2 show ?case using Cons by (cases ?was; cases ?now) (simp_all add: flip_simps) }
  { case 3 show ?case using Cons by (cases ?was; cases ?now) (simp_all add: flip_simps) }
  { case 4 show ?case
      using Cons.IH(4) [of "d\<lparr>total_evaluated := total_evaluated d + 1, df_unchanged := df_unchanged d + 1\<rparr>" ds as]
        Cons.IH(4)
      by (cases ?was; cases ?now) (simp_all add: flip_simps) }
qed simp_all

text \<open>A sample of one direction: the recorded verdict tells which.\<close>

lemma take_sub_Suc: "n < m \<Longrightarrow> take (m - n) (x # xs) = x # take (m - Suc n) xs"
  by (metis Suc_diff_Suc take_Suc_Cons)

lemma simulate_loop_denied_samples:
  "filter (\<lambda>s. \<not> is_denied_verdict (sf_old_auth s)) (df_samples (simulate_loop L p d ds as evs)) =
     filter (\<lambda>s. \<not> is_denied_verdict (sf_old_auth s)) (df_samples d) @
     map (\<lambda>ev. flip_of ev (event_decision L p ev))
       (take (max_samples_per_bucket - ds) (filter (flips_to_deny L p) evs))"
proof (induction evs arbitrary: d ds as)
  case (Cons ev evs)
  let ?was = "is_denied_verdict (ae_old_auth ev)"
  let ?now = "is_denied_verdict (ad_decision (event_decision L p ev))"
  show ?case using Cons
    by (cases ?was; cases ?now; cases "ds < max_samples_per_bucket")
      (simp_all add: flip_simps take_sub_Suc)
qed simp

lemma simulate_loop_allowed_samples:
  "filter (\<lambda>s. is_denied_verdict (sf_old_auth s)) (df_samples (simulate_loop L p d ds as evs)) =
     filter (\<lambda>s. is_denied_verdict (sf_old_auth s)) (df_samples d) @
     map (\<lambda>ev. flip_of ev (event_decision L p ev))
       (take (max_samples_per_bucket - as) (filter (flips_to_allow L p) evs))"
proof (induction evs arbitrary: d ds as)
  case (Cons ev evs)
  let ?was = "is_denied_verdict (ae_old_auth ev)"
  let ?now = "is_denied_verdict (ad_decision (event_decision L p ev))"
  show ?case using Cons
    by (cases ?was; cases ?now; cases "as < max_samples_per_bucket")
      (simp_all add: flip_simps take_sub_Suc)
qed simp

lemma empty_fields [simp]:
  "newly_denied empty_diff = 0" "newly_allowed empty_diff = 0" "df_unchanged empty_diff = 0"
  "total_evaluated empty_diff = 0" "df_samples empty_diff = []"
  by (simp_all add: empty_diff_def)

text \<open>
  C28. A simulation counts every event once, in the bucket its recorded verdict and the candidate
  policy's verdict put it, and its samples of each direction are the first five flips of that
  direction, in event order.
\<close>

theorem simulate_counts_and_samples:
  "newly_denied (simulate L p evs) = count_where (flips_to_deny L p) evs \<and>
   newly_allowed (simulate L p evs) = count_where (flips_to_allow L p) evs \<and>
   total_evaluated (simulate L p evs) = length evs \<and>
   newly_denied (simulate L p evs) + newly_allowed (simulate L p evs) + df_unchanged (simulate L p evs) = length evs \<and>
   filter (\<lambda>s. \<not> is_denied_verdict (sf_old_auth s)) (df_samples (simulate L p evs)) =
     map (\<lambda>ev. flip_of ev (event_decision L p ev)) (take 5 (filter (flips_to_deny L p) evs)) \<and>
   filter (\<lambda>s. is_denied_verdict (sf_old_auth s)) (df_samples (simulate L p evs)) =
     map (\<lambda>ev. flip_of ev (event_decision L p ev)) (take 5 (filter (flips_to_allow L p) evs))"
  using simulate_loop_counts(4) [of L p empty_diff 0 0 evs]
  by (simp add: simulate_def simulate_loop_counts simulate_loop_denied_samples
      simulate_loop_allowed_samples max_samples_per_bucket_def ac_simps)

text \<open>
  Replaying a policy over the decisions it made itself, without counters, changes nothing: the
  simulator's verdicts cannot drift from the engine's.
\<close>

lemma simulate_own_decisions_unchanged:
  "newly_denied (simulate L p (map (\<lambda>ev. ev\<lparr>ae_old_auth := ad_decision (event_decision L p ev)\<rparr>) evs)) = 0 \<and>
   newly_allowed (simulate L p (map (\<lambda>ev. ev\<lparr>ae_old_auth := ad_decision (event_decision L p ev)\<rparr>) evs)) = 0 \<and>
   df_samples (simulate L p (map (\<lambda>ev. ev\<lparr>ae_old_auth := ad_decision (event_decision L p ev)\<rparr>) evs)) = []"
proof -
  let ?own = "\<lambda>ev. ev\<lparr>ae_old_auth := ad_decision (event_decision L p ev)\<rparr>"
  have dec: "event_decision L p (?own ev) = event_decision L p ev" for ev
    by (simp add: event_decision_def event_intent_def)
  have none: "\<not> flips_to_deny L p (?own ev)" "\<not> flips_to_allow L p (?own ev)" for ev
    by (simp_all add: flips_to_deny_def flips_to_allow_def dec)
  have "df_samples (simulate_loop L p d ds as (map ?own evs)) = df_samples d" for d ds as
    by (induction evs arbitrary: d) (simp_all add: Let_def now_denied_iff dec)
  then show ?thesis
    by (simp add: simulate_def simulate_loop_counts count_where_def comp_def none)
qed

end
