(* ===== verification/Trace_Chain.thy ===== *)
theory Trace_Chain
  imports Go_Json
begin

text \<open>
  \<open>internal/trace/integrity.go\<close>: the rolling HMAC over the lines of a trace. HMAC-SHA256 comes from
  Go's \<open>crypto\<close> packages and is a parameter \<open>H key message\<close>. The writer's side lives in another
  repository; \<open>seal_lines\<close> writes down the wire format \<open>integrity.go\<close> documents for it, as the
  specification the verifier is checked against.
\<close>

type_synonym hmac_fun = "string \<Rightarrow> string \<Rightarrow> string"

definition err_missing_hmac :: go_error where
  "err_missing_hmac = Sentinel ''event missing hmac field''"

definition err_mac_mismatch :: go_error where
  "err_mac_mismatch = Sentinel ''hmac mismatch''"

text \<open>\<open>,"hmac":"\<close> and \<open>"hmac":"\<close>.\<close>

definition hmac_suffix_empty :: string where
  "hmac_suffix_empty = CHR 0x22 # ''hmac'' @ [CHR 0x22, CHR '':'', CHR 0x22]"

definition hmac_suffix :: string where
  "hmac_suffix = CHR '','' # hmac_suffix_empty"

definition chain_key_context :: string where
  "chain_key_context = ''relic-trace-chain-v1:''"

definition generate_chain_key :: "hmac_fun \<Rightarrow> string \<Rightarrow> string \<Rightarrow> string" where
  "generate_chain_key H run_id master = H master (chain_key_context @ run_id)"

text \<open>The tail of \<open>splitSealedLine\<close>, once the suffix has been found at \<open>idx\<close> with its MAC at \<open>macStart\<close>.\<close>

definition split_at_mac :: "string \<Rightarrow> nat \<Rightarrow> nat \<Rightarrow> (string \<times> string) res" where
  "split_at_mac line idx macStart =
     (let macEnd = length line - 2 in
      if macEnd \<le> macStart then Inl (ErrText ''malformed hmac field'')
      else let macBytes = take (macEnd - macStart) (drop macStart line) in
        case hex_decode macBytes of
          None \<Rightarrow> Inl (ErrText ''hmac is not hex'')
        | Some _ \<Rightarrow> Inr (take idx line @ ''}'', macBytes))"

definition split_sealed_line :: "string \<Rightarrow> (string \<times> string) res" where
  "split_sealed_line line =
     (if length line < 2 \<or> hd line \<noteq> CHR ''{'' \<or> last line \<noteq> CHR ''}''
      then Inl (ErrText ''not a JSON object'')
      else case last_index_of line hmac_suffix of
        Some idx \<Rightarrow> split_at_mac line idx (idx + length hmac_suffix)
      | None \<Rightarrow>
          (case last_index_of line hmac_suffix_empty of
             Some idx \<Rightarrow>
               if idx = 1 then split_at_mac line idx (idx + length hmac_suffix_empty)
               else Inl err_missing_hmac
           | None \<Rightarrow> Inl err_missing_hmac))"

definition event_error :: "nat \<Rightarrow> go_error \<Rightarrow> go_error" where
  "event_error i e = ErrWrap (''event '' @ show_nat i @ '': '') e []"

text \<open>\<open>verifyChain\<close>: \<open>None\<close> is the nil error. \<open>prev\<close> is \<open>prevHMAC\<close>, \<open>None\<close> before the first line.\<close>

definition mac_input :: "string \<Rightarrow> string option \<Rightarrow> string" where
  "mac_input canonical prev = canonical @ (case prev of None \<Rightarrow> [] | Some m \<Rightarrow> m)"

fun verify_loop :: "hmac_fun \<Rightarrow> string \<Rightarrow> nat \<Rightarrow> string option \<Rightarrow> string list \<Rightarrow> go_error option" where
  "verify_loop H key i prev [] = None"
| "verify_loop H key i prev (line # lines) =
     (case split_sealed_line line of
        Inl e \<Rightarrow> Some (event_error i e)
      | Inr (canonical, stored) \<Rightarrow>
          (let computed = H key (mac_input canonical prev) in
           if hex_encode computed \<noteq> stored then Some (event_error i err_mac_mismatch)
           else verify_loop H key (i + 1) (Some computed) lines))"

definition verify_chain :: "hmac_fun \<Rightarrow> string \<Rightarrow> string list \<Rightarrow> go_error option" where
  "verify_chain H key lines = verify_loop H key 0 None lines"

section \<open>The sealed format\<close>

text \<open>A canonical line is an object's text; its MAC goes before the closing brace.\<close>

definition is_object_text :: "string \<Rightarrow> bool" where
  "is_object_text s \<longleftrightarrow> 2 \<le> length s \<and> hd s = CHR ''{'' \<and> last s = CHR ''}''"

definition seal_line :: "string \<Rightarrow> string \<Rightarrow> string" where
  "seal_line canonical mac =
     butlast canonical @ (if canonical = ''{}'' then hmac_suffix_empty else hmac_suffix) @
     hex_encode mac @ [CHR 0x22, CHR ''}'']"

fun seal_loop :: "hmac_fun \<Rightarrow> string \<Rightarrow> string option \<Rightarrow> string list \<Rightarrow> string list" where
  "seal_loop H key prev [] = []"
| "seal_loop H key prev (c # cs) =
     (let m = H key (mac_input c prev) in seal_line c m # seal_loop H key (Some m) cs)"

definition seal_lines :: "hmac_fun \<Rightarrow> string \<Rightarrow> string list \<Rightarrow> string list" where
  "seal_lines H key cs = seal_loop H key None cs"

lemma object_text_split:
  assumes "is_object_text s"
  obtains body where "s = CHR ''{'' # body @ ''}''"
proof -
  obtain t where t: "s = CHR ''{'' # t" using assms by (cases s) (auto simp: is_object_text_def)
  with assms have "t \<noteq> []" "last t = CHR ''}''" by (auto simp: is_object_text_def split: if_splits)
  then have "t = butlast t @ ''}''" by (metis append_butlast_last_id)
  with t that show thesis by metis
qed

lemma split_at_mac_seal:
  assumes "mac \<noteq> []" "line = a @ p @ hex_encode mac @ [CHR 0x22, CHR ''}'']"
  shows "split_at_mac line (length a) (length a + length p) = Inr (a @ ''}'', hex_encode mac)"
proof -
  have "drop (length a + length p) line = hex_encode mac @ [CHR 0x22, CHR ''}'']" "take (length a) line = a"
    "length line - 2 = length a + length p + length (hex_encode mac)"
    by (simp_all add: assms(2))
  with assms(1) show ?thesis by (simp add: split_at_mac_def Let_def)
qed

lemma last_suffix_comma:
  "last_index_of (a @ hmac_suffix @ hex_encode mac @ [CHR 0x22, CHR ''}'']) hmac_suffix = Some (length a)"
proof (rule last_index_of_append, rule last_index_of_zero)
  show "hmac_suffix \<noteq> []" by (simp add: hmac_suffix_def)
  have "CHR '','' \<notin> set (tl (hmac_suffix @ hex_encode mac @ [CHR 0x22, CHR ''}'']))"
    using hex_encode_notin(2) [of mac] by (simp add: hmac_suffix_def hmac_suffix_empty_def)
  then show "last_index_of (tl (hmac_suffix @ hex_encode mac @ [CHR 0x22, CHR ''}''])) hmac_suffix = None"
    by (rule last_index_of_notin) (simp add: hmac_suffix_def)
qed

lemma last_suffix_empty:
  "last_index_of (CHR ''{'' # hmac_suffix_empty @ hex_encode mac @ [CHR 0x22, CHR ''}'']) hmac_suffix = None"
  "last_index_of (CHR ''{'' # hmac_suffix_empty @ hex_encode mac @ [CHR 0x22, CHR ''}'']) hmac_suffix_empty = Some 1"
proof -
  let ?b = "hex_encode mac @ [CHR 0x22, CHR ''}'']"
  have "CHR '','' \<notin> set (CHR ''{'' # hmac_suffix_empty @ ?b)"
    using hex_encode_notin(2) [of mac] by (simp add: hmac_suffix_empty_def)
  then show "last_index_of (CHR ''{'' # hmac_suffix_empty @ ?b) hmac_suffix = None"
    by (rule last_index_of_notin) (simp add: hmac_suffix_def)
  have "CHR ''h'' \<notin> set (''mac'' @ [CHR 0x22, CHR '':'', CHR 0x22] @ ?b)"
    using hex_encode_notin(3) [of mac] by simp
  then have "last_index_of (''mac'' @ [CHR 0x22, CHR '':'', CHR 0x22] @ ?b) hmac_suffix_empty = None"
    by (rule last_index_of_notin) (simp add: hmac_suffix_empty_def)
  then show "last_index_of (CHR ''{'' # hmac_suffix_empty @ ?b) hmac_suffix_empty = Some 1"
    by (simp add: hmac_suffix_empty_def)
qed

lemma split_seal_line:
  assumes "is_object_text c" "mac \<noteq> []"
  shows "split_sealed_line (seal_line c mac) = Inr (c, hex_encode mac)"
proof -
  obtain body where c: "c = CHR ''{'' # body @ ''}''" using assms(1) by (rule object_text_split)
  let ?tail = "hex_encode mac @ [CHR 0x22, CHR ''}'']"
  show ?thesis
  proof (cases "body = []")
    case True
    have line: "seal_line c mac = ''{'' @ hmac_suffix_empty @ ?tail"
      using c True by (simp add: seal_line_def)
    have "last_index_of (seal_line c mac) hmac_suffix = None"
      "last_index_of (seal_line c mac) hmac_suffix_empty = Some 1"
      unfolding line using last_suffix_empty [of mac] by (simp_all del: last_index_of.simps)
    moreover have "hd (seal_line c mac) = CHR ''{''" "last (seal_line c mac) = CHR ''}''"
      "\<not> length (seal_line c mac) < 2" by (simp_all add: line)
    ultimately show ?thesis
      using split_at_mac_seal [OF assms(2) line] c True by (simp add: split_sealed_line_def)
  next
    case False
    have line: "seal_line c mac = (CHR ''{'' # body) @ hmac_suffix @ ?tail"
      using c False by (simp add: seal_line_def butlast_append)
    have "last_index_of (seal_line c mac) hmac_suffix = Some (length (CHR ''{'' # body))"
      unfolding line by (rule last_suffix_comma)
    moreover have "hd (seal_line c mac) = CHR ''{''" "last (seal_line c mac) = CHR ''}''"
      "\<not> length (seal_line c mac) < 2" by (simp_all add: line)
    ultimately show ?thesis
      using split_at_mac_seal [OF assms(2) line] c by (simp add: split_sealed_line_def)
  qed
qed

lemma verify_seal_loop:
  assumes "\<And>k m. H k m \<noteq> []" and "list_all is_object_text cs"
  shows "verify_loop H key i prev (seal_loop H key prev cs) = None"
  using assms(2)
  by (induction cs arbitrary: i prev) (simp_all add: Let_def split_seal_line assms(1))

text \<open>
  C14. Every trace sealed in the documented format verifies: the verifier recovers each line's
  canonical bytes and MAC whatever the line contains, including a line that carries the text of an
  hmac field in one of its own values.
\<close>

theorem sealed_trace_verifies:
  assumes "\<And>k m. H k m \<noteq> []" and "list_all is_object_text cs"
  shows "verify_chain H key (seal_lines H key cs) = None"
  unfolding verify_chain_def seal_lines_def using assms by (rule verify_seal_loop)

section \<open>Tampering\<close>

text \<open>What a line claims: its canonical bytes and its MAC. The inputs the chain feeds to HMAC.\<close>

fun chain_inputs :: "hmac_fun \<Rightarrow> string \<Rightarrow> string option \<Rightarrow> string list \<Rightarrow> string list" where
  "chain_inputs H key prev [] = []"
| "chain_inputs H key prev (c # cs) =
     mac_input c prev # chain_inputs H key (Some (H key (mac_input c prev))) cs"

definition canonical_of :: "string \<Rightarrow> string" where
  "canonical_of line = (case split_sealed_line line of Inr (c, m) \<Rightarrow> c | Inl e \<Rightarrow> [])"

definition stored_mac :: "string \<Rightarrow> string" where
  "stored_mac line = (case split_sealed_line line of Inr (c, m) \<Rightarrow> m | Inl e \<Rightarrow> [])"

lemma verify_loop_Cons:
  assumes "verify_loop H key i prev (l # ls) = None"
  shows "stored_mac l = hex_encode (H key (mac_input (canonical_of l) prev))"
    and "verify_loop H key (i + 1) (Some (H key (mac_input (canonical_of l) prev))) ls = None"
  using assms by (auto simp: canonical_of_def stored_mac_def Let_def split: sum.splits if_splits)

lemma verify_loop_agree:
  assumes "verify_loop H key i prev ls = None" "verify_loop H key j prev' ls' = None"
    and "length ls = length ls'" "ls \<noteq> []"
    and "stored_mac (last ls) = stored_mac (last ls')"
    and "prev = None \<and> prev' = None \<or> (\<exists>m m'. prev = Some m \<and> prev' = Some m' \<and> length m = length m')"
    and "\<And>m m'. length (H key m) = length (H key m')"
    and "inj_on (H key) (set (chain_inputs H key prev (map canonical_of ls)) \<union>
                         set (chain_inputs H key prev' (map canonical_of ls')))"
  shows "map canonical_of ls = map canonical_of ls' \<and> prev = prev'"
  using assms
proof (induction ls arbitrary: i j prev prev' ls')
  case (Cons l ls)
  obtain l' ks where l': "ls' = l' # ks" using Cons.prems(3) by (cases ls') auto
  let ?m = "H key (mac_input (canonical_of l) prev)" and ?m' = "H key (mac_input (canonical_of l') prev')"
  note v = verify_loop_Cons [OF Cons.prems(1)] verify_loop_Cons [OF Cons.prems(2) [unfolded l']]
  have tails: "map canonical_of ls = map canonical_of ks \<and> ?m = ?m'"
  proof (cases "ls = []")
    case True
    then have "ks = []" using Cons.prems(3) l' by simp
    with True Cons.prems(5) l' v show ?thesis by (simp add: hex_encode_inject)
  next
    case False
    then have ks: "ks \<noteq> []" using Cons.prems(3) l' by auto
    have "map canonical_of ls = map canonical_of ks \<and> Some ?m = Some ?m'"
    proof (rule Cons.IH [OF v(2) v(4)])
      show "length ls = length ks" using Cons.prems(3) l' by simp
      show "stored_mac (last ls) = stored_mac (last ks)" using Cons.prems(5) False ks l' by simp
      show "Some ?m = None \<and> Some ?m' = None \<or>
          (\<exists>m m'. Some ?m = Some m \<and> Some ?m' = Some m' \<and> length m = length m')"
        using Cons.prems(7) by blast
      show "inj_on (H key) (set (chain_inputs H key (Some ?m) (map canonical_of ls)) \<union>
          set (chain_inputs H key (Some ?m') (map canonical_of ks)))"
        by (rule inj_on_subset [OF Cons.prems(8)]) (auto simp: l')
    qed (use False Cons.prems(7) in auto)
    then show ?thesis by simp
  qed
  have "mac_input (canonical_of l) prev = mac_input (canonical_of l') prev'"
    by (rule inj_onD [OF Cons.prems(8) conjunct2 [OF tails]]) (simp_all add: l')
  then have heads: "canonical_of l = canonical_of l' \<and> prev = prev'"
    using Cons.prems(6) by (auto simp: mac_input_def)
  show ?case using conjunct1 [OF tails] conjunct1 [OF heads] conjunct2 [OF heads] by (simp add: l')
qed simp

lemma verify_loop_prefix: "verify_loop H key i prev (ls @ ks) = None \<Longrightarrow> verify_loop H key i prev ls = None"
  by (induction ls arbitrary: i prev) (auto simp: Let_def split: sum.splits if_splits)

text \<open>
  C15. A verified trace is tamper-evident: two traces with the same number of lines that both verify
  under the run's key and end in the same MAC carry the same canonical bytes on every line, as long
  as HMAC does not collide on the inputs the two chains feed it. (A verifier that dropped the
  previous MAC from the input would accept lines exchanged between traces.)
\<close>

theorem verified_chain_tamper_evident:
  assumes "verify_chain H key ls = None" "verify_chain H key ls' = None"
    and "length ls = length ls'" "ls \<noteq> []"
    and "stored_mac (last ls) = stored_mac (last ls')"
    and "\<And>m m'. length (H key m) = length (H key m')"
    and "inj_on (H key) (set (chain_inputs H key None (map canonical_of ls)) \<union>
                         set (chain_inputs H key None (map canonical_of ls')))"
  shows "map canonical_of ls = map canonical_of ls'"
  by (rule conjunct1 [OF verify_loop_agree [OF assms(1,2) [unfolded verify_chain_def] assms(3,4,5) _ assms(6,7)]])
    simp

text \<open>A toy MAC for the witnesses: the message's length, in one byte.\<close>

definition toy_hmac :: hmac_fun where
  "toy_hmac key m = [char_of (length m)]"

definition toy_lines :: "string list" where
  "toy_lines = seal_lines toy_hmac ''k'' [''{a}'', ''{bcd}'']"

lemma sealed_trace_verifies_witness:
  "verify_chain toy_hmac ''k'' (seal_lines toy_hmac ''k'' [''{a}'', ''{}'']) = None"
  by (rule sealed_trace_verifies) (simp_all add: toy_hmac_def is_object_text_def)

lemma canonical_of_toy: "map canonical_of toy_lines = [''{a}'', ''{bcd}'']"
  by (simp add: toy_lines_def seal_lines_def Let_def canonical_of_def split_seal_line toy_hmac_def
      is_object_text_def)

lemma toy_lines_verify: "verify_chain toy_hmac ''k'' toy_lines = None"
  unfolding verify_chain_def toy_lines_def seal_lines_def
  by (rule verify_seal_loop) (simp_all add: toy_hmac_def is_object_text_def)

lemma verified_chain_tamper_evident_witness:
  "map canonical_of toy_lines = map canonical_of toy_lines"
proof (rule verified_chain_tamper_evident)
  show "verify_chain toy_hmac ''k'' toy_lines = None" by (rule toy_lines_verify)
  show "verify_chain toy_hmac ''k'' toy_lines = None" by (rule toy_lines_verify)
  show "toy_lines \<noteq> []" by (simp add: toy_lines_def seal_lines_def Let_def)
  show "inj_on (toy_hmac ''k'') (set (chain_inputs toy_hmac ''k'' None (map canonical_of toy_lines)) \<union>
      set (chain_inputs toy_hmac ''k'' None (map canonical_of toy_lines)))"
    by (simp add: canonical_of_toy mac_input_def toy_hmac_def)
qed (simp_all add: toy_hmac_def)

end
