(* ===== verification/Trace_Parse.thy ===== *)
theory Trace_Parse
  imports Trace_Chain Policy_Simulate
begin

text \<open>
  \<open>internal/trace/parser.go\<close> and \<open>actionevents.go\<close>: reading a gzipped NDJSON trace into the
  authoritative \<open>Summary\<close>, and into the action events the simulator replays. Gzip, HMAC-SHA256 and
  \<open>time.Parse\<close> with RFC 3339 are the fields of \<open>trace_libs\<close>; \<open>bufio.Scanner\<close> with a buffer of
  \<open>MaxEventSize\<close> bytes is \<open>scan_segments\<close> and the length test of the loops. Times are nanoseconds
  since year 1, so that 0 is Go's zero \<open>time.Time\<close>.
\<close>

section \<open>Parameters and limits\<close>

text \<open>
  \<open>gunzip\<close> is \<open>gzip.NewReader\<close> and reading to the end: an error of the header, or the bytes delivered
  before the end of the stream and the read error, if any.
\<close>

record trace_libs =
  gunzip :: "string \<Rightarrow> string + string \<times> string option"
  hmac_sha256 :: hmac_fun
  parse_rfc3339 :: "string \<Rightarrow> int option"

definition max_event_size :: nat where
  "max_event_size = 4 * 1024 * 1024"

definition max_events :: nat where
  "max_events = 1000000"

definition zero_time :: int where
  "zero_time = 0"

definition err_empty_trace :: go_error where
  "err_empty_trace = Sentinel ''trace: contains zero events''"

definition err_missing_run_start :: go_error where
  "err_missing_run_start = Sentinel ''trace: missing run-start event''"

definition err_too_large :: go_error where
  "err_too_large = Sentinel ''trace: event exceeds maximum line size''"

definition err_chain_broken :: go_error where
  "err_chain_broken = Sentinel ''trace: HMAC chain failed verification''"

definition err_chain_expected :: go_error where
  "err_chain_expected = Sentinel ''trace: chain expected but missing''"

text \<open>The segments \<open>bufio.ScanLines\<close> finds; a trailing carriage return is not part of the token.\<close>

definition scan_segments :: "string \<Rightarrow> string list" where
  "scan_segments s =
     (let parts = split_on (CHR 0x0A) s in if last parts = [] then butlast parts else parts)"

definition drop_cr :: "string \<Rightarrow> string" where
  "drop_cr s = (if s \<noteq> [] \<and> last s = CHR 0x0D then butlast s else s)"

section \<open>The summary\<close>

record summary =
  su_run_id :: string
  su_agent_name :: string
  su_agent_version :: string
  su_policy_hash :: string
  su_environment :: string
  su_started_at :: int
  su_ended_at :: "int option"
  su_exit_code :: "int option"
  su_duration_ms :: "int option"
  su_actions_total :: nat
  su_actions_allowed :: nat
  su_actions_denied :: nat
  su_event_count :: nat
  su_has_chain :: bool
  su_chain_verified :: bool
  su_truncated :: bool

definition new_summary :: summary where
  "new_summary = \<lparr>su_run_id = [], su_agent_name = [], su_agent_version = [], su_policy_hash = [],
     su_environment = [], su_started_at = zero_time, su_ended_at = None, su_exit_code = None,
     su_duration_ms = None, su_actions_total = 0, su_actions_allowed = 0, su_actions_denied = 0,
     su_event_count = 0, su_has_chain = True, su_chain_verified = False, su_truncated = False\<rparr>"

type_synonym envelope = "string \<rightharpoonup> string"

definition string_field :: "envelope \<Rightarrow> string \<Rightarrow> string" where
  "string_field env key = (case env key of
     None \<Rightarrow> []
   | Some raw \<Rightarrow> (case raw_string raw of None \<Rightarrow> [] | Some v \<Rightarrow> v))"

definition start_time :: "trace_libs \<Rightarrow> envelope \<Rightarrow> int option" where
  "start_time T env = (let ts = string_field env ''ts'' in
     if ts \<noteq> [] then parse_rfc3339 T ts else None)"

definition int_member :: "envelope \<Rightarrow> string \<Rightarrow> int option \<Rightarrow> int option" where
  "int_member env key old = (case env key of
     None \<Rightarrow> old
   | Some raw \<Rightarrow> (case raw_int raw of None \<Rightarrow> old | Some v \<Rightarrow> Some v))"

definition apply_run_start :: "trace_libs \<Rightarrow> envelope \<Rightarrow> summary \<Rightarrow> summary" where
  "apply_run_start T env s =
     (if su_run_id s = [] then
        s\<lparr>su_run_id := string_field env ''run'', su_agent_name := string_field env ''agent'',
          su_agent_version := string_field env ''agent_v'', su_policy_hash := string_field env ''policy'',
          su_environment := string_field env ''env'',
          su_started_at := (case start_time T env of None \<Rightarrow> su_started_at s | Some t \<Rightarrow> t)\<rparr>
      else s)"

definition apply_run_end :: "trace_libs \<Rightarrow> envelope \<Rightarrow> summary \<Rightarrow> summary" where
  "apply_run_end T env s =
     s\<lparr>su_exit_code := int_member env ''exit'' (su_exit_code s),
       su_duration_ms := int_member env ''ms'' (su_duration_ms s),
       su_ended_at := (case start_time T env of None \<Rightarrow> su_ended_at s | Some t \<Rightarrow> Some t)\<rparr>"

definition apply_run_event :: "trace_libs \<Rightarrow> envelope \<Rightarrow> summary \<Rightarrow> summary" where
  "apply_run_event T env s =
     (let status = string_field env ''status'' in
      if status = ''start'' then apply_run_start T env s
      else if status = ''end'' then apply_run_end T env s
      else s)"

definition apply_action_event :: "envelope \<Rightarrow> summary \<Rightarrow> summary" where
  "apply_action_event env s =
     (let s1 = s\<lparr>su_actions_total := su_actions_total s + 1\<rparr>;
          s2 = (if env ''hmac'' = None then s1\<lparr>su_has_chain := False\<rparr> else s1)
      in if is_denied_verdict (string_field env ''auth'')
         then s2\<lparr>su_actions_denied := su_actions_denied s2 + 1\<rparr>
         else s2\<lparr>su_actions_allowed := su_actions_allowed s2 + 1\<rparr>)"

section \<open>The scan\<close>

record parse_state =
  ps_summary :: summary
  ps_sealed :: "string list"
  ps_saw_action :: bool

text \<open>One non-empty line; \<open>keep\<close> is \<open>sealedLines != nil\<close>.\<close>

definition parse_line :: "trace_libs \<Rightarrow> bool \<Rightarrow> string \<Rightarrow> parse_state \<Rightarrow> parse_state" where
  "parse_line T keep line st =
     (let s = (ps_summary st)\<lparr>su_event_count := su_event_count (ps_summary st) + 1\<rparr>;
          st1 = st\<lparr>ps_summary := s, ps_sealed := (if keep then ps_sealed st @ [line] else ps_sealed st)\<rparr>
      in case raw_members line of
           None \<Rightarrow> st1\<lparr>ps_summary := s\<lparr>su_truncated := True\<rparr>\<rparr>
         | Some ms \<Rightarrow>
             (let env = go_map ms; t = string_field env ''t'' in
              if t = ''run'' then st1\<lparr>ps_summary := apply_run_event T env s\<rparr>
              else if t = ''action'' then
                st1\<lparr>ps_summary := apply_action_event env s, ps_saw_action := True\<rparr>
              else st1))"

text \<open>How the loop ended: at the end of input, at a line the buffer cannot hold, or by the \<open>break\<close>.\<close>

datatype scan_end = ScanDone | ScanTooLong | ScanLimit

fun scan_loop :: "trace_libs \<Rightarrow> bool \<Rightarrow> string list \<Rightarrow> parse_state \<Rightarrow> parse_state \<times> scan_end" where
  "scan_loop T keep [] st = (st, ScanDone)"
| "scan_loop T keep (seg # segs) st =
     (if length seg \<ge> max_event_size then (st, ScanTooLong)
      else if su_event_count (ps_summary st) \<ge> max_events then
        (st\<lparr>ps_summary := (ps_summary st)\<lparr>su_truncated := True\<rparr>\<rparr>, ScanLimit)
      else if drop_cr seg = [] then scan_loop T keep segs st
      else scan_loop T keep segs (parse_line T keep (drop_cr seg) st))"

definition initial_state :: parse_state where
  "initial_state = \<lparr>ps_summary = new_summary, ps_sealed = [], ps_saw_action = False\<rparr>"

text \<open>After the scan: the read error, the empty claim of a trace without actions, the start time.\<close>

definition close_scan :: "int \<Rightarrow> string option \<Rightarrow> parse_state \<Rightarrow> summary res" where
  "close_scan now rerr st =
     (let s0 = ps_summary st;
          s1 = (if rerr \<noteq> None then s0\<lparr>su_truncated := True\<rparr> else s0);
          s2 = (if ps_saw_action st then s1 else s1\<lparr>su_has_chain := False\<rparr>)
      in if su_event_count s2 = 0 then Inl err_empty_trace
         else if su_run_id s2 = [] then Inl err_missing_run_start
         else Inr (if su_started_at s2 = zero_time then s2\<lparr>su_started_at := now\<rparr> else s2))"

definition check_chain :: "trace_libs \<Rightarrow> string \<Rightarrow> bool \<Rightarrow> string list \<Rightarrow> summary \<Rightarrow>
    summary option \<times> go_error option" where
  "check_chain T master require sealed s =
     (if master = [] then (Some s, None)
      else if \<not> su_has_chain s then (Some s, if require then Some err_chain_expected else None)
      else if su_truncated s then (Some s, None)
      else case verify_chain (hmac_sha256 T) (generate_chain_key (hmac_sha256 T) (su_run_id s) master) sealed of
             Some e \<Rightarrow> (Some s, Some (ErrWrap [] err_chain_broken ('': '' @ error_text e)))
           | None \<Rightarrow> (Some (s\<lparr>su_chain_verified := True\<rparr>), None))"

text \<open>\<open>parse\<close> returns the summary and the error; the summary comes with the two chain errors too.\<close>

definition parse_trace :: "trace_libs \<Rightarrow> int \<Rightarrow> string \<Rightarrow> string \<Rightarrow> bool \<Rightarrow>
    summary option \<times> go_error option" where
  "parse_trace T now data master require =
     (case gunzip T data of
        Inl e \<Rightarrow> (None, Some (ErrText (''trace: gzip: '' @ e)))
      | Inr (content, rerr) \<Rightarrow>
          (case scan_loop T (master \<noteq> []) (scan_segments content) initial_state of
             (st, ScanTooLong) \<Rightarrow> (None, Some err_too_large)
           | (st, _) \<Rightarrow>
               (case close_scan now rerr st of
                  Inl e \<Rightarrow> (None, Some e)
                | Inr s \<Rightarrow> check_chain T master require (ps_sealed st) s)))"

definition trace_parse :: "trace_libs \<Rightarrow> int \<Rightarrow> string \<Rightarrow> summary option \<times> go_error option" where
  "trace_parse T now data = parse_trace T now data [] False"

definition parse_and_verify :: "trace_libs \<Rightarrow> int \<Rightarrow> string \<Rightarrow> string \<Rightarrow> bool \<Rightarrow>
    summary option \<times> go_error option" where
  "parse_and_verify T now data master require = parse_trace T now data master require"

section \<open>Action events\<close>

definition decode_action_event :: "string \<Rightarrow> action_event option" where
  "decode_action_event line =
     (case (unmarshal_struct line, raw_members line) of
        (Some ms, Some raws) \<Rightarrow>
          (case (field_string ''run'' ms, field_string ''proto'' ms, field_string ''method'' ms,
                 field_string ''target'' ms, field_string ''auth'' ms) of
             (Some r, Some p, Some m, Some t, Some a) \<Rightarrow>
               Some \<lparr>ae_run_id = r, ae_protocol = p, ae_method = m, ae_target = t,
                     ae_params = field_raw ''params'' raws, ae_old_auth = a\<rparr>
           | _ \<Rightarrow> None)
      | _ \<Rightarrow> None)"

definition extract_line :: "string \<Rightarrow> action_event list" where
  "extract_line line =
     (case unmarshal_struct line of
        None \<Rightarrow> []
      | Some ms \<Rightarrow>
          if field_string ''t'' ms \<noteq> Some ''action'' then []
          else (case decode_action_event line of None \<Rightarrow> [] | Some ev \<Rightarrow> [ev]))"

fun extract_loop :: "nat \<Rightarrow> string list \<Rightarrow> action_event list \<Rightarrow> action_event list \<times> scan_end" where
  "extract_loop n [] evs = (evs, ScanDone)"
| "extract_loop n (seg # segs) evs =
     (if length seg \<ge> max_event_size then (evs, ScanTooLong)
      else if n \<ge> max_events then (evs, ScanLimit)
      else if drop_cr seg = [] then extract_loop n segs evs
      else extract_loop (n + 1) segs (evs @ extract_line (drop_cr seg)))"

text \<open>The events found come back beside the error; after the \<open>break\<close> a later read error goes unseen.\<close>

definition extract_action_events :: "trace_libs \<Rightarrow> string \<Rightarrow> action_event list \<times> go_error option" where
  "extract_action_events T data =
     (case gunzip T data of
        Inl e \<Rightarrow> ([], Some (ErrText (''trace: gzip: '' @ e)))
      | Inr (content, rerr) \<Rightarrow>
          (case extract_loop 0 (scan_segments content) [] of
             (evs, ScanTooLong) \<Rightarrow> (evs, Some err_too_large)
           | (evs, ScanLimit) \<Rightarrow> (evs, None)
           | (evs, ScanDone) \<Rightarrow>
               (case rerr of
                  None \<Rightarrow> (evs, None)
                | Some e \<Rightarrow> (evs, Some (ErrText (''trace: scan: '' @ e))))))"

section \<open>What the scan has seen\<close>

text \<open>The lines the loop takes: the non-empty tokens before the limit.\<close>

fun taken :: "nat \<Rightarrow> string list \<Rightarrow> string list" where
  "taken n [] = []"
| "taken n (seg # segs) =
     (if length seg \<ge> max_event_size \<or> n \<ge> max_events then []
      else if drop_cr seg = [] then taken n segs
      else drop_cr seg # taken (n + 1) segs)"

fun scan_stop :: "nat \<Rightarrow> string list \<Rightarrow> scan_end" where
  "scan_stop n [] = ScanDone"
| "scan_stop n (seg # segs) =
     (if length seg \<ge> max_event_size then ScanTooLong
      else if n \<ge> max_events then ScanLimit
      else scan_stop (if drop_cr seg = [] then n else n + 1) segs)"

definition line_env :: "string \<Rightarrow> envelope option" where
  "line_env line = map_option go_map (raw_members line)"

definition is_action_line :: "string \<Rightarrow> bool" where
  "is_action_line line = (case line_env line of
     None \<Rightarrow> False | Some env \<Rightarrow> string_field env ''t'' = ''action'')"

definition is_denied_line :: "string \<Rightarrow> bool" where
  "is_denied_line line = (case line_env line of
     None \<Rightarrow> False | Some env \<Rightarrow> is_denied_verdict (string_field env ''auth''))"

definition carries_hmac :: "string \<Rightarrow> bool" where
  "carries_hmac line = (case line_env line of None \<Rightarrow> False | Some env \<Rightarrow> env ''hmac'' \<noteq> None)"

lemma apply_run_event_counts [simp]:
  "su_actions_total (apply_run_event T env s) = su_actions_total s"
  "su_actions_denied (apply_run_event T env s) = su_actions_denied s"
  "su_actions_allowed (apply_run_event T env s) = su_actions_allowed s"
  "su_event_count (apply_run_event T env s) = su_event_count s"
  "su_has_chain (apply_run_event T env s) = su_has_chain s"
  "su_chain_verified (apply_run_event T env s) = su_chain_verified s"
  "su_truncated (apply_run_event T env s) = su_truncated s"
  by (simp_all add: apply_run_event_def apply_run_start_def apply_run_end_def Let_def)

lemma apply_action_event_fields [simp]:
  "su_actions_total (apply_action_event env s) = Suc (su_actions_total s)"
  "su_actions_denied (apply_action_event env s) =
     su_actions_denied s + (if is_denied_verdict (string_field env ''auth'') then 1 else 0)"
  "su_actions_allowed (apply_action_event env s) =
     su_actions_allowed s + (if is_denied_verdict (string_field env ''auth'') then 0 else 1)"
  "su_event_count (apply_action_event env s) = su_event_count s"
  "su_has_chain (apply_action_event env s) = (su_has_chain s \<and> env ''hmac'' \<noteq> None)"
  "su_chain_verified (apply_action_event env s) = su_chain_verified s"
  "su_truncated (apply_action_event env s) = su_truncated s"
  by (simp_all add: apply_action_event_def Let_def)

lemmas line_defs = is_action_line_def is_denied_line_def carries_hmac_def line_env_def

lemma parse_line_fields:
  "su_actions_total (ps_summary (parse_line T keep l st)) =
     su_actions_total (ps_summary st) + (if is_action_line l then 1 else 0)"
  "su_actions_denied (ps_summary (parse_line T keep l st)) =
     su_actions_denied (ps_summary st) + (if is_action_line l \<and> is_denied_line l then 1 else 0)"
  "su_actions_allowed (ps_summary (parse_line T keep l st)) =
     su_actions_allowed (ps_summary st) + (if is_action_line l \<and> \<not> is_denied_line l then 1 else 0)"
  "su_event_count (ps_summary (parse_line T keep l st)) = Suc (su_event_count (ps_summary st))"
  "su_has_chain (ps_summary (parse_line T keep l st)) =
     (su_has_chain (ps_summary st) \<and> (is_action_line l \<longrightarrow> carries_hmac l))"
  "su_chain_verified (ps_summary (parse_line T keep l st)) = su_chain_verified (ps_summary st)"
  "ps_saw_action (parse_line T keep l st) = (ps_saw_action st \<or> is_action_line l)"
  "ps_sealed (parse_line T keep l st) = (if keep then ps_sealed st @ [l] else ps_sealed st)"
  by (cases "raw_members l"; auto simp: parse_line_def Let_def line_defs)+

lemma parse_line_truncated:
  "su_truncated (ps_summary (parse_line T keep l st)) =
     (su_truncated (ps_summary st) \<or> line_env l = None)"
  by (cases "raw_members l") (auto simp: parse_line_def Let_def line_defs)

text \<open>The loop is a fold over the lines taken, with the mark of the \<open>break\<close>.\<close>

lemma scan_loop_fold:
  "scan_loop T keep segs st =
     (let n = su_event_count (ps_summary st);
          st' = fold (parse_line T keep) (taken n segs) st
      in (if scan_stop n segs = ScanLimit
          then st'\<lparr>ps_summary := (ps_summary st')\<lparr>su_truncated := True\<rparr>\<rparr> else st', scan_stop n segs))"
proof (induction segs arbitrary: st)
  case (Cons seg segs)
  show ?case
    by (simp add: Cons.IH Let_def parse_line_fields)
qed (simp add: Let_def)

lemma fold_parse_line_fields:
  fixes T keep ls st
  defines "st' \<equiv> fold (parse_line T keep) ls st"
  shows "su_actions_total (ps_summary st') =
      su_actions_total (ps_summary st) + count_where is_action_line ls"
    and "su_actions_denied (ps_summary st') =
      su_actions_denied (ps_summary st) + count_where (\<lambda>l. is_action_line l \<and> is_denied_line l) ls"
    and "su_actions_allowed (ps_summary st') =
      su_actions_allowed (ps_summary st) + count_where (\<lambda>l. is_action_line l \<and> \<not> is_denied_line l) ls"
    and "su_event_count (ps_summary st') = su_event_count (ps_summary st) + length ls"
    and "su_has_chain (ps_summary st') =
      (su_has_chain (ps_summary st) \<and> list_all (\<lambda>l. is_action_line l \<longrightarrow> carries_hmac l) ls)"
    and "su_chain_verified (ps_summary st') = su_chain_verified (ps_summary st)"
    and "ps_saw_action st' = (ps_saw_action st \<or> list_ex is_action_line ls)"
    and "ps_sealed st' = (if keep then ps_sealed st @ ls else ps_sealed st)"
    and "su_truncated (ps_summary st') = (su_truncated (ps_summary st) \<or> list_ex (\<lambda>l. line_env l = None) ls)"
  unfolding st'_def
  by (induction ls arbitrary: st; simp add: parse_line_fields parse_line_truncated)+

lemma count_where_split: "count_where P xs = count_where (\<lambda>x. P x \<and> \<not> Q x) xs + count_where (\<lambda>x. P x \<and> Q x) xs"
  by (induction xs) auto

section \<open>The identity of a run\<close>

text \<open>The run id a line offers: that of a run-start event.\<close>

definition start_env :: "string \<Rightarrow> envelope option" where
  "start_env line = (case line_env line of
     None \<Rightarrow> None
   | Some env \<Rightarrow> if string_field env ''t'' = ''run'' \<and> string_field env ''status'' = ''start'' \<and>
                   string_field env ''run'' \<noteq> [] then Some env else None)"

definition first_start :: "string list \<Rightarrow> envelope option" where
  "first_start ls = Option.bind (List.find (\<lambda>l. start_env l \<noteq> None) ls) start_env"

definition identity_of :: "summary \<Rightarrow> string list" where
  "identity_of s = [su_run_id s, su_agent_name s, su_agent_version s, su_policy_hash s, su_environment s]"

definition env_identity :: "envelope \<Rightarrow> string list" where
  "env_identity env = map (string_field env) [''run'', ''agent'', ''agent_v'', ''policy'', ''env'']"

lemma identity_apply_action [simp]: "identity_of (apply_action_event env s) = identity_of s"
  by (simp add: identity_of_def apply_action_event_def Let_def)

lemma identity_upd [simp]:
  "identity_of (s\<lparr>su_event_count := n\<rparr>) = identity_of s" "identity_of (s\<lparr>su_truncated := b\<rparr>) = identity_of s"
  "identity_of (s\<lparr>su_has_chain := b\<rparr>) = identity_of s" "identity_of (s\<lparr>su_started_at := t\<rparr>) = identity_of s"
  "identity_of (s\<lparr>su_chain_verified := b\<rparr>) = identity_of s"
  by (simp_all add: identity_of_def)

lemma run_id_identity: "su_run_id s = hd (identity_of s)"
  by (simp add: identity_of_def)

lemma parse_line_known_id:
  "su_run_id (ps_summary st) \<noteq> [] \<Longrightarrow>
     identity_of (ps_summary (parse_line T keep l st)) = identity_of (ps_summary st)"
  by (cases "raw_members l")
    (auto simp: parse_line_def Let_def apply_run_event_def apply_run_start_def apply_run_end_def
      apply_action_event_def identity_of_def)

lemma parse_line_new_id:
  assumes "su_run_id (ps_summary st) = []"
  shows "(case start_env l of
      None \<Rightarrow> su_run_id (ps_summary (parse_line T keep l st)) = []
    | Some env \<Rightarrow> identity_of (ps_summary (parse_line T keep l st)) = env_identity env)"
  using assms
  by (cases "raw_members l")
    (auto simp: parse_line_def Let_def apply_run_event_def apply_run_start_def apply_run_end_def
      apply_action_event_def identity_of_def env_identity_def start_env_def line_env_def)

lemma fold_known_id:
  "su_run_id (ps_summary st) \<noteq> [] \<Longrightarrow>
     identity_of (ps_summary (fold (parse_line T keep) ls st)) = identity_of (ps_summary st)"
proof (induction ls arbitrary: st)
  case (Cons l ls)
  then show ?case
    using parse_line_known_id [OF Cons.prems, of T keep l] by (simp add: run_id_identity)
qed simp

lemma fold_first_id:
  "su_run_id (ps_summary st) = [] \<Longrightarrow>
   (case first_start ls of
      None \<Rightarrow> su_run_id (ps_summary (fold (parse_line T keep) ls st)) = []
    | Some env \<Rightarrow> identity_of (ps_summary (fold (parse_line T keep) ls st)) = env_identity env)"
proof (induction ls arbitrary: st)
  case (Cons l ls)
  note new = parse_line_new_id [OF Cons.prems, where l = l and T = T and keep = keep]
  show ?case
  proof (cases "start_env l")
    case None
    with new Cons.IH [of "parse_line T keep l st"] show ?thesis by (auto simp: first_start_def split: option.splits)
  next
    case (Some env)
    have "string_field env ''run'' \<noteq> []"
      using Some by (auto simp: start_env_def split: option.splits if_splits)
    with new Some have "su_run_id (ps_summary (parse_line T keep l st)) \<noteq> []"
      by (simp add: run_id_identity env_identity_def)
    from fold_known_id [OF this, of T keep ls] new Some show ?thesis by (simp add: first_start_def)
  qed
qed (simp add: first_start_def)

section \<open>Properties\<close>

text \<open>The result of a parse in terms of the lines taken.\<close>

definition scanned :: "trace_libs \<Rightarrow> bool \<Rightarrow> string list \<Rightarrow> parse_state" where
  "scanned T keep segs = fst (scan_loop T keep segs initial_state)"

definition trace_lines :: "string \<Rightarrow> string list" where
  "trace_lines content = taken 0 (scan_segments content)"

definition trace_cut :: "string \<Rightarrow> string option \<Rightarrow> bool" where
  "trace_cut content rerr \<longleftrightarrow> rerr \<noteq> None \<or> scan_stop 0 (scan_segments content) = ScanLimit \<or>
     list_ex (\<lambda>l. line_env l = None) (trace_lines content)"

definition claims_chain :: "string list \<Rightarrow> bool" where
  "claims_chain ls \<longleftrightarrow> list_ex is_action_line ls \<and> list_all (\<lambda>l. is_action_line l \<longrightarrow> carries_hmac l) ls"

lemma initial_fields [simp]:
  "ps_summary initial_state = new_summary" "ps_sealed initial_state = []" "ps_saw_action initial_state = False"
  "su_event_count new_summary = 0" "su_actions_total new_summary = 0" "su_actions_denied new_summary = 0"
  "su_actions_allowed new_summary = 0" "su_has_chain new_summary = True" "su_truncated new_summary = False"
  "su_chain_verified new_summary = False" "su_run_id new_summary = []"
  by (simp_all add: initial_state_def new_summary_def)

lemma scan_initial:
  "scan_loop T keep (scan_segments content) initial_state =
     (let st' = fold (parse_line T keep) (trace_lines content) initial_state
      in (if scan_stop 0 (scan_segments content) = ScanLimit
          then st'\<lparr>ps_summary := (ps_summary st')\<lparr>su_truncated := True\<rparr>\<rparr> else st',
          scan_stop 0 (scan_segments content)))"
  by (simp add: scan_loop_fold trace_lines_def)

text \<open>What \<open>close_scan\<close> makes of the state after the loop.\<close>

definition closed_ok :: "string \<Rightarrow> string option \<Rightarrow> summary \<Rightarrow> bool" where
  "closed_ok content rerr s \<longleftrightarrow>
     (let ls = trace_lines content in
      su_actions_total s = count_where is_action_line ls \<and>
      su_actions_denied s = count_where (\<lambda>l. is_action_line l \<and> is_denied_line l) ls \<and>
      su_actions_allowed s = count_where (\<lambda>l. is_action_line l \<and> \<not> is_denied_line l) ls \<and>
      su_event_count s = length ls \<and>
      (su_has_chain s \<longleftrightarrow> claims_chain ls) \<and> (su_truncated s \<longleftrightarrow> trace_cut content rerr) \<and>
      first_start ls \<noteq> None \<and> identity_of s = env_identity (the (first_start ls)) \<and>
      ls \<noteq> [])"

lemma close_scan_state:
  assumes "scan_loop T keep (scan_segments content) initial_state = (st, stop)"
  shows "ps_sealed st = (if keep then trace_lines content else [])"
    and "stop = scan_stop 0 (scan_segments content)"
    and "close_scan now rerr st = Inr s \<Longrightarrow> closed_ok content rerr s \<and> \<not> su_chain_verified s"
    and "close_scan now rerr st = Inl e \<Longrightarrow> (trace_lines content = [] \<and> e = err_empty_trace) \<or>
       (trace_lines content \<noteq> [] \<and> first_start (trace_lines content) = None \<and> e = err_missing_run_start)"
proof -
  let ?ls = "trace_lines content"
  let ?f = "fold (parse_line T keep) ?ls initial_state"
  have st: "st = (if scan_stop 0 (scan_segments content) = ScanLimit
      then ?f\<lparr>ps_summary := (ps_summary ?f)\<lparr>su_truncated := True\<rparr>\<rparr> else ?f)"
    and stop: "stop = scan_stop 0 (scan_segments content)"
    using assms by (simp_all add: scan_initial Let_def split: if_splits)
  show "stop = scan_stop 0 (scan_segments content)" by (rule stop)
  show "ps_sealed st = (if keep then ?ls else [])"
    by (simp add: st fold_parse_line_fields)
  have id: "case first_start ?ls of None \<Rightarrow> su_run_id (ps_summary ?f) = []
      | Some env \<Rightarrow> identity_of (ps_summary ?f) = env_identity env"
    by (rule fold_first_id) simp
  have nonempty: "string_field env ''run'' \<noteq> []" if "first_start ?ls = Some env" for env
    using that by (auto simp: first_start_def start_env_def dest!: find_SomeD
        split: option.splits if_splits Option.bind_splits)
  have run: "su_run_id (ps_summary ?f) = [] \<longleftrightarrow> first_start ?ls = None"
    using id nonempty by (auto simp: run_id_identity env_identity_def split: option.splits)
  { assume "close_scan now rerr st = Inr s"
    then show "closed_ok content rerr s \<and> \<not> su_chain_verified s"
      using id run
      by (auto simp: close_scan_def Let_def st fold_parse_line_fields closed_ok_def claims_chain_def
          trace_cut_def split: if_splits option.splits) }
  { assume "close_scan now rerr st = Inl e"
    then show "(?ls = [] \<and> e = err_empty_trace) \<or>
       (?ls \<noteq> [] \<and> first_start ?ls = None \<and> e = err_missing_run_start)"
      using run by (auto simp: close_scan_def Let_def st fold_parse_line_fields split: if_splits) }
qed

lemma check_chain_fields:
  assumes "closed_ok content rerr s" "\<not> su_chain_verified s"
    and "check_chain T master require sealed s = (r, e)"
  shows "\<exists>s'. r = Some s' \<and> closed_ok content rerr s'"
  using assms
  by (auto simp: check_chain_def closed_ok_def Let_def split: if_splits option.splits)

definition chain_error :: "trace_libs \<Rightarrow> string \<Rightarrow> string \<Rightarrow> string list \<Rightarrow> go_error option" where
  "chain_error T master run_id ls =
     verify_chain (hmac_sha256 T) (generate_chain_key (hmac_sha256 T) run_id master) ls"

lemma check_chain_outcome:
  assumes "closed_ok content rerr s" "\<not> su_chain_verified s"
    and "check_chain T master require (if master \<noteq> [] then trace_lines content else []) s = (Some s', e)"
  shows "su_chain_verified s' \<longleftrightarrow> master \<noteq> [] \<and> claims_chain (trace_lines content) \<and>
      \<not> trace_cut content rerr \<and> chain_error T master (su_run_id s') (trace_lines content) = None"
    and "e = (if master = [] then None
      else if \<not> claims_chain (trace_lines content) then (if require then Some err_chain_expected else None)
      else if trace_cut content rerr then None
      else map_option (\<lambda>d. ErrWrap [] err_chain_broken ('': '' @ error_text d))
             (chain_error T master (su_run_id s') (trace_lines content)))"
  using assms
  by (auto simp: check_chain_def closed_ok_def chain_error_def Let_def split: if_splits option.splits)

text \<open>A parse that returns a summary went through all three phases.\<close>

lemma parse_trace_phases:
  assumes "parse_trace T now data master require = (Some s', e)"
  obtains content rerr s where "gunzip T data = Inr (content, rerr)" "closed_ok content rerr s"
    "\<not> su_chain_verified s" "closed_ok content rerr s'"
    "check_chain T master require (if master \<noteq> [] then trace_lines content else []) s = (Some s', e)"
proof -
  from assms obtain content rerr where g: "gunzip T data = Inr (content, rerr)"
    by (auto simp: parse_trace_def split: sum.splits)
  obtain st stop where l: "scan_loop T (master \<noteq> []) (scan_segments content) initial_state = (st, stop)"
    by (cases "scan_loop T (master \<noteq> []) (scan_segments content) initial_state") auto
  note c = close_scan_state [OF l]
  from assms g l obtain s where s: "close_scan now rerr st = Inr s"
    and k: "check_chain T master require (ps_sealed st) s = (Some s', e)"
    by (auto simp: parse_trace_def split: scan_end.splits sum.splits)
  from c(3) [OF s] have ok: "closed_ok content rerr s" "\<not> su_chain_verified s" by blast+
  from check_chain_fields [OF ok k] have "closed_ok content rerr s'" by auto
  with g ok k c(1) show thesis by (intro that) (auto split: if_splits)
qed

text \<open>
  C25. The counts of a summary are recomputed from the trace, never read from it: total, denied and
  allowed actions are the numbers of action lines, of those among them whose verdict is a denial in
  any mode, and of the others; so total = allowed + denied, whatever a run-end event claims.
\<close>

theorem summary_counts_recomputed:
  "case (fst (parse_trace T now data master require), gunzip T data) of
     (Some s, Inr (content, rerr)) \<Rightarrow>
       su_actions_total s = count_where is_action_line (trace_lines content) \<and>
       su_actions_denied s = count_where (\<lambda>l. is_action_line l \<and> is_denied_line l) (trace_lines content) \<and>
       su_actions_total s = su_actions_allowed s + su_actions_denied s \<and>
       su_event_count s = length (trace_lines content)
   | (Some s, Inl e) \<Rightarrow> False
   | (None, _) \<Rightarrow> True"
proof (cases "parse_trace T now data master require")
  case (Pair r e)
  show ?thesis
  proof (cases r)
    case (Some s)
    with Pair have p: "parse_trace T now data master require = (Some s, e)" by simp
    obtain content rerr where "gunzip T data = Inr (content, rerr)" "closed_ok content rerr s"
      by (rule parse_trace_phases [OF p])
    with p show ?thesis
      by (simp add: closed_ok_def Let_def
          count_where_split [of is_action_line "trace_lines content" is_denied_line])
  qed (simp add: Pair)
qed

text \<open>
  C16. \<open>ChainVerified\<close> is exactly the strong claim: a master secret is configured, every action line
  carries a MAC (and there is one), nothing of the stream was lost or malformed, and the whole chain
  verifies under the key derived from the secret and the run id. The error is \<open>ErrChainExpected\<close>
  exactly for an unsealed trace under \<open>requireChain\<close>, \<open>ErrChainBroken\<close> exactly for a complete sealed
  trace that does not verify; a truncated one is accepted without the claim.
\<close>

theorem chain_verified_exactly:
  "case (parse_trace T now data master require, gunzip T data) of
     ((Some s, e), Inr (content, rerr)) \<Rightarrow>
       (su_chain_verified s \<longleftrightarrow> master \<noteq> [] \<and> claims_chain (trace_lines content) \<and>
          \<not> trace_cut content rerr \<and> chain_error T master (su_run_id s) (trace_lines content) = None) \<and>
       e = (if master = [] then None
            else if \<not> claims_chain (trace_lines content) then (if require then Some err_chain_expected else None)
            else if trace_cut content rerr then None
            else map_option (\<lambda>d. ErrWrap [] err_chain_broken ('': '' @ error_text d))
                   (chain_error T master (su_run_id s) (trace_lines content)))
   | ((Some s, e), Inl _) \<Rightarrow> False
   | ((None, e), _) \<Rightarrow> e \<noteq> None"
proof (cases "parse_trace T now data master require")
  case (Pair r e)
  show ?thesis
  proof (cases r)
    case (Some s)
    with Pair have p: "parse_trace T now data master require = (Some s, e)" by simp
    obtain content rerr s0 where g: "gunzip T data = Inr (content, rerr)" and s0: "closed_ok content rerr s0"
      "\<not> su_chain_verified s0"
      "check_chain T master require (if master \<noteq> [] then trace_lines content else []) s0 = (Some s, e)"
      by (rule parse_trace_phases [OF p])
    show ?thesis using check_chain_outcome [OF s0] by (simp add: p g)
  next
    case None
    with Pair show ?thesis
      by (auto simp: parse_trace_def check_chain_def split: sum.splits scan_end.splits prod.splits if_splits option.splits)
  qed
qed

lemma parse_trace_rejected:
  assumes "gunzip T data = Inr (content, rerr)"
  shows "fst (parse_trace T now data master require) = None \<longleftrightarrow>
    scan_stop 0 (scan_segments content) = ScanTooLong \<or> trace_lines content = [] \<or>
    first_start (trace_lines content) = None"
proof -
  obtain st stop where l: "scan_loop T (master \<noteq> []) (scan_segments content) initial_state = (st, stop)"
    by (cases "scan_loop T (master \<noteq> []) (scan_segments content) initial_state") auto
  note c = close_scan_state [OF l]
  show ?thesis
  proof (cases "close_scan now rerr st")
    case (Inl e)
    with c(2) c(4) [OF Inl] assms l show ?thesis
      by (auto simp: parse_trace_def first_start_def split: scan_end.splits)
  next
    case (Inr s)
    with c(2) c(3) [OF Inr] assms l show ?thesis
      by (auto simp: parse_trace_def closed_ok_def Let_def check_chain_def
          split: scan_end.splits option.splits if_splits)
  qed
qed

text \<open>
  A trace is rejected without a summary exactly when it is not gzip, has a line that does not
  fit the buffer, has no event, or has no run-start event with a run id; otherwise the identity in
  the summary (run, agent, version, policy hash, environment) is that of the first run-start event
  with a run id, and no later event changes it.
\<close>

lemma run_identity_from_first_start:
  "case gunzip T data of
     Inl e \<Rightarrow> fst (parse_trace T now data master require) = None
   | Inr (content, rerr) \<Rightarrow>
       (fst (parse_trace T now data master require) = None \<longleftrightarrow>
          scan_stop 0 (scan_segments content) = ScanTooLong \<or> trace_lines content = [] \<or>
          first_start (trace_lines content) = None) \<and>
       pred_option (\<lambda>s. Some (identity_of s) = map_option env_identity (first_start (trace_lines content)))
         (fst (parse_trace T now data master require))"
proof (cases "gunzip T data")
  case (Inr cr)
  obtain content rerr where cr: "cr = (content, rerr)" by (cases cr) auto
  have g: "gunzip T data = Inr (content, rerr)" using Inr cr by simp
  have "Some (identity_of s) = map_option env_identity (first_start (trace_lines content))"
    if "parse_trace T now data master require = (Some s, e)" for s e
    by (rule parse_trace_phases [OF that]) (auto simp: g closed_ok_def Let_def)
  then have "pred_option (\<lambda>s. Some (identity_of s) = map_option env_identity (first_start (trace_lines content)))
         (fst (parse_trace T now data master require))"
    by (cases "parse_trace T now data master require"; cases "fst (parse_trace T now data master require)") auto
  with parse_trace_rejected [OF g] show ?thesis by (simp add: g)
qed (simp add: parse_trace_def)

section \<open>The extracted action events\<close>

lemma extract_loop_taken:
  "extract_loop n segs evs = (evs @ concat (map extract_line (taken n segs)), scan_stop n segs)"
  by (induction n segs evs rule: extract_loop.induct) auto

text \<open>
  The simulator's reader is total and skips, never aborts on, malformed lines: it yields, in
  order, the decodable action events among the lines the parser counts, also beside an error.
\<close>

lemma extract_yields_action_lines:
  "case gunzip T data of
     Inl e \<Rightarrow> extract_action_events T data = ([], Some (ErrText (''trace: gzip: '' @ e)))
   | Inr (content, rerr) \<Rightarrow>
       fst (extract_action_events T data) = concat (map extract_line (trace_lines content)) \<and>
       (snd (extract_action_events T data) = None \<longleftrightarrow>
          scan_stop 0 (scan_segments content) = ScanLimit \<or>
          (scan_stop 0 (scan_segments content) = ScanDone \<and> rerr = None))"
  by (auto simp: extract_action_events_def extract_loop_taken trace_lines_def
      split: sum.splits scan_end.splits option.splits)

end
