(* ===== verification/Storage_Db.thy ===== *)
theory Storage_Db
  imports Go_Json
begin

text \<open>
  The state of \<open>internal/storage\<close>: the tables of \<open>src/migrations\<close> as lists of rows in insertion order,
  and what PostgreSQL contributes to the statements the Go code sends. A statement runs atomically:
  it fails as a whole when the next entry of the fault schedule says so (connection lost, malformed
  uuid, lock timeout), or on a violated constraint, and then leaves every table as it was. \<open>now()\<close> is
  \<open>db_now\<close>; \<open>gen_random_uuid()\<close> and \<open>ulid.Make()\<close> take the next of \<open>db_ids\<close>, and \<open>crypto/rand\<close> the next
  of \<open>db_random\<close>. Ties of an ORDER BY keep insertion order; text compares by bytes.
\<close>

section \<open>Rows\<close>

record organization =
  org_id :: string
  org_name :: string
  org_slug :: string
  org_plan :: string
  org_created_at :: int

record api_key_row =
  k_id :: string
  k_org :: string
  k_hash :: string
  k_prefix :: string
  k_name :: string
  k_algo :: string
  k_created_at :: int
  k_revoked_at :: "int option"

record run =
  r_id :: string
  r_org :: string
  r_agent_name :: string
  r_agent_version :: string
  r_policy_hash :: string
  r_environment :: string
  r_started_at :: int
  r_duration_ms :: "int option"
  r_exit_code :: "int option"
  r_actions_total :: int
  r_actions_allowed :: int
  r_actions_denied :: int
  r_storage_key :: string
  r_expires_at :: int
  r_integrity_chain :: bool
  r_chain_verified :: bool
  r_truncated :: bool

record agent =
  a_id :: string
  a_org :: string
  a_name :: string
  a_version :: string
  a_manifest :: string
  a_capabilities_hash :: string
  a_policy_hash :: string
  a_registered_at :: int
  a_last_seen :: int
  a_applied_hash :: "string option"
  a_applied_at :: "int option"

text \<open>An agents row is the \<open>Agent\<close> struct and two columns the struct does not carry.\<close>

record agent_row = agent +
  a_policy_yaml :: "string option"
  a_policy_updated_at :: "int option"

record agent_baseline =
  b_agent :: string
  b_computed_at :: int
  b_window_days :: int
  b_avg_actions :: rat
  b_avg_denials :: rat
  b_tools :: string

record audit_event =
  ev_id :: string
  ev_org :: string
  ev_user :: string
  ev_action :: string
  ev_resource :: string
  ev_resource_id :: string
  ev_metadata :: string
  ev_created_at :: int

record proposal =
  pr_id :: string
  pr_org :: string
  pr_agent_name :: string
  pr_status :: string
  pr_trigger :: string
  pr_evidence :: string
  pr_rule :: string
  pr_created_at :: int
  pr_decided_at :: "int option"
  pr_decided_by :: "string option"

record user_row =
  u_id :: string
  u_org :: string
  u_email :: string
  u_role :: string
  u_created_at :: int
  u_password :: "string option"
  u_provider :: string

record policy_set =
  set_id :: string
  set_org :: string
  set_name :: string
  set_selector :: string
  set_yaml :: string
  set_hash :: string
  set_version :: int
  set_created_at :: int
  set_updated_at :: int

record agent_label =
  lab_agent :: string
  lab_key :: string
  lab_value :: string

record sso_row =
  sso_org :: string
  sso_provider :: string
  sso_discovery :: string
  sso_client_id :: string
  sso_secret_enc :: "string option"
  sso_redirect :: string
  sso_scopes :: "string list"
  sso_default_role :: string
  sso_created_at :: int
  sso_updated_at :: int

record scim_row =
  sc_id :: string
  sc_org :: string
  sc_hash :: string
  sc_prefix :: string
  sc_name :: string
  sc_created_at :: int
  sc_revoked_at :: "int option"

record invite =
  inv_id :: string
  inv_org :: string
  inv_email :: string
  inv_role :: string
  inv_token :: string
  inv_expires_at :: int
  inv_created_at :: int
  inv_accepted_at :: "int option"
  inv_cancelled_at :: "int option"

record session =
  se_id :: string
  se_org :: string
  se_user :: string
  se_jti :: string
  se_user_agent :: string
  se_ip :: string
  se_created_at :: int
  se_last_seen_at :: int
  se_expires_at :: int
  se_revoked_at :: "int option"

section \<open>The database\<close>

record db =
  orgs :: "organization list"
  users :: "user_row list"
  api_keys :: "api_key_row list"
  runs :: "run list"
  agents :: "agent_row list"
  baselines :: "agent_baseline list"
  audits :: "audit_event list"
  proposals :: "proposal list"
  policy_sets :: "policy_set list"
  labels :: "agent_label list"
  sso_configs :: "sso_row list"
  scim_tokens :: "scim_row list"
  invites :: "invite list"
  sessions :: "session list"
  db_now :: int
  db_ids :: "string list"
  db_random :: "string list"
  db_faults :: "bool list"

text \<open>The libraries a statement's arguments go through, and the process environment.\<close>

record storage_env =
  jsonb :: "string \<Rightarrow> string option"
  st_hmac :: "string \<Rightarrow> string \<Rightarrow> string"
  st_sha256 :: "string \<Rightarrow> string"
  parse_ip :: "string \<Rightarrow> string option"
  short_key :: "string \<Rightarrow> string option"
  env_pepper :: string
  env_secrets_key :: string
  env_jwt_secret :: string

type_synonym 'a io = "db \<Rightarrow> 'a res \<times> db"

section \<open>Statements\<close>

definition pg_error :: "string \<Rightarrow> go_error" where
  "pg_error code = Sentinel (''pg:'' @ code)"

definition unique_violation :: go_error where
  "unique_violation = pg_error ''23505''"

definition fk_violation :: go_error where
  "fk_violation = pg_error ''23503''"

definition check_violation :: go_error where
  "check_violation = pg_error ''23514''"

definition stmt :: "(db \<Rightarrow> go_error + 'a \<times> db) \<Rightarrow> 'a io" where
  "stmt body s =
     (let s1 = s\<lparr>db_faults := tl (db_faults s)\<rparr> in
      if db_faults s \<noteq> [] \<and> hd (db_faults s) then (Inl (ErrText ''query failed''), s1)
      else case body s1 of
        Inl e \<Rightarrow> (Inl e, s1)
      | Inr (x, s2) \<Rightarrow> (Inr x, s2))"

definition select :: "(db \<Rightarrow> 'a) \<Rightarrow> 'a io" where
  "select f = stmt (\<lambda>s. Inr (f s, s))"

definition with_ctx :: "string \<Rightarrow> 'a res \<times> db \<Rightarrow> 'a res \<times> db" where
  "with_ctx pre r = (case r of (Inl e, s) \<Rightarrow> (Inl (ErrWrap pre e []), s) | (Inr x, s) \<Rightarrow> (Inr x, s))"

text \<open>The next generated id, and the next random bytes (\<open>rand.Read\<close> fails when there are none).\<close>

definition fresh_id :: "db \<Rightarrow> go_error + string \<times> db" where
  "fresh_id s = (case db_ids s of
     [] \<Rightarrow> Inl (ErrText ''no id'')
   | i # is \<Rightarrow> Inr (i, s\<lparr>db_ids := is\<rparr>))"

definition rand_bytes :: "string io" where
  "rand_bytes s = (case db_random s of
     [] \<Rightarrow> (Inl (ErrText ''rand: no entropy''), s)
   | b # bs \<Rightarrow> (Inr b, s\<lparr>db_random := bs\<rparr>))"

definition int4 :: "int \<Rightarrow> bool" where
  "int4 v \<longleftrightarrow> - (2 ^ 31) \<le> v \<and> v < 2 ^ 31"

definition int4_opt :: "int option \<Rightarrow> bool" where
  "int4_opt v = (case v of None \<Rightarrow> True | Some i \<Rightarrow> int4 i)"

text \<open>A \<open>timestamptz\<close> keeps microseconds.\<close>

definition micros :: "int \<Rightarrow> int" where
  "micros t = t div 1000 * 1000"

definition update_where :: "('a \<Rightarrow> bool) \<Rightarrow> ('a \<Rightarrow> 'a) \<Rightarrow> 'a list \<Rightarrow> 'a list" where
  "update_where P f rows = map (\<lambda>r. if P r then f r else r) rows"

definition order_by :: "('a \<Rightarrow> 'a \<Rightarrow> bool) \<Rightarrow> 'a list \<Rightarrow> 'a list" where
  "order_by lt rows = slice_stable lt rows"

definition org_exists :: "string \<Rightarrow> db \<Rightarrow> bool" where
  "org_exists org s = list_ex (\<lambda>r. org_id r = org) (orgs s)"

section \<open>Constraints\<close>

text \<open>Primary keys, UNIQUE and CHECK constraints of the migrations.\<close>

definition org_tables_ok :: "db \<Rightarrow> bool" where
  "org_tables_ok s \<longleftrightarrow>
     distinct (map org_id (orgs s)) \<and> distinct (map org_slug (orgs s)) \<and>
     distinct (map u_id (users s)) \<and> distinct (map u_email (users s)) \<and>
     distinct (map k_id (api_keys s)) \<and> distinct (map k_hash (api_keys s)) \<and>
     distinct (map (\<lambda>r. (r_org r, r_id r)) (runs s))"

definition agent_tables_ok :: "db \<Rightarrow> bool" where
  "agent_tables_ok s \<longleftrightarrow>
     distinct (map a_id (agents s)) \<and> distinct (map (\<lambda>a. (a_org a, a_name a)) (agents s)) \<and>
     distinct (map (\<lambda>b. (b_agent b, b_computed_at b)) (baselines s)) \<and>
     distinct (map ev_id (audits s)) \<and> distinct (map pr_id (proposals s)) \<and>
     list_all (\<lambda>p. pr_status p \<in> {''pending'', ''approved'', ''rejected'', ''expired'', ''dismissed''}) (proposals s) \<and>
     distinct (map set_id (policy_sets s)) \<and> distinct (map (\<lambda>p. (set_org p, set_name p)) (policy_sets s)) \<and>
     distinct (map (\<lambda>l. (lab_agent l, lab_key l)) (labels s))"

definition identity_tables_ok :: "db \<Rightarrow> bool" where
  "identity_tables_ok s \<longleftrightarrow>
     distinct (map sso_org (sso_configs s)) \<and>
     distinct (map sc_id (scim_tokens s)) \<and> distinct (map sc_hash (scim_tokens s)) \<and>
     distinct (map inv_id (invites s)) \<and> distinct (map inv_token (invites s)) \<and>
     distinct (map se_id (sessions s)) \<and> distinct (map se_jti (sessions s))"

definition db_ok :: "db \<Rightarrow> bool" where
  "db_ok s \<longleftrightarrow> org_tables_ok s \<and> agent_tables_ok s \<and> identity_tables_ok s"

lemmas db_ok_defs = db_ok_def org_tables_ok_def agent_tables_ok_def identity_tables_ok_def

section \<open>What one organization sees\<close>

definition agent_ids :: "string \<Rightarrow> db \<Rightarrow> string set" where
  "agent_ids org s = a_id ` set (filter (\<lambda>a. a_org a = org) (agents s))"

definition org_view where
  "org_view org s =
     ((filter (\<lambda>r. org_id r = org) (orgs s), filter (\<lambda>u. u_org u = org) (users s),
       filter (\<lambda>k. k_org k = org) (api_keys s), filter (\<lambda>r. r_org r = org) (runs s)),
      (filter (\<lambda>a. a_org a = org) (agents s), filter (\<lambda>b. b_agent b \<in> agent_ids org s) (baselines s),
       filter (\<lambda>e. ev_org e = org) (audits s), filter (\<lambda>p. pr_org p = org) (proposals s),
       filter (\<lambda>p. set_org p = org) (policy_sets s), filter (\<lambda>l. lab_agent l \<in> agent_ids org s) (labels s)),
      (filter (\<lambda>c. sso_org c = org) (sso_configs s), filter (\<lambda>t. sc_org t = org) (scim_tokens s),
       filter (\<lambda>i. inv_org i = org) (invites s), filter (\<lambda>t. se_org t = org) (sessions s)))"

section \<open>Reasoning about statements\<close>

text \<open>\<open>keeps Q b\<close>: a successful body leads from a state satisfying \<open>Q\<close> to related states by \<open>R\<close>.\<close>

lemma stmt_cases:
  obtains (fault) "stmt body s = (Inl (ErrText ''query failed''), s\<lparr>db_faults := tl (db_faults s)\<rparr>)"
  | (error) e where "body (s\<lparr>db_faults := tl (db_faults s)\<rparr>) = Inl e"
      "stmt body s = (Inl e, s\<lparr>db_faults := tl (db_faults s)\<rparr>)"
  | (ok) x s2 where "body (s\<lparr>db_faults := tl (db_faults s)\<rparr>) = Inr (x, s2)" "stmt body s = (Inr x, s2)"
proof (cases "db_faults s \<noteq> [] \<and> hd (db_faults s)")
  case True
  then show thesis by (intro fault) (simp add: stmt_def)
next
  case False
  show thesis
  proof (cases "body (s\<lparr>db_faults := tl (db_faults s)\<rparr>)")
    case (Inl e)
    with False show thesis by (intro error) (auto simp: stmt_def Let_def)
  next
    case (Inr p)
    with False show thesis by (cases p) (intro ok, auto simp: stmt_def Let_def)
  qed
qed

lemma org_view_faults [simp]:
  "org_view org (s\<lparr>db_faults := f\<rparr>) = org_view org s" "org_view org (s\<lparr>db_ids := i\<rparr>) = org_view org s"
  "org_view org (s\<lparr>db_random := i\<rparr>) = org_view org s"
  by (simp_all add: org_view_def agent_ids_def)

lemma db_ok_faults [simp]:
  "db_ok (s\<lparr>db_faults := f\<rparr>) = db_ok s" "db_ok (s\<lparr>db_ids := i\<rparr>) = db_ok s" "db_ok (s\<lparr>db_random := i\<rparr>) = db_ok s"
  by (simp_all add: db_ok_defs)

text \<open>An action is safe for an organization when it keeps the constraints and that view.\<close>

definition keeps :: "string \<Rightarrow> db \<Rightarrow> db \<Rightarrow> bool" where
  "keeps org s s' \<longleftrightarrow> (db_ok s \<longrightarrow> db_ok s' \<and> org_view org s' = org_view org s)"

lemma keeps_refl [simp]: "keeps org s s"
  by (simp add: keeps_def)

lemma keeps_trans: "keeps org s s' \<Longrightarrow> keeps org s' s'' \<Longrightarrow> keeps org s s''"
  by (simp add: keeps_def)

lemma keeps_aux [simp]:
  "keeps org s (s'\<lparr>db_faults := f\<rparr>) = keeps org s s'" "keeps org (s\<lparr>db_faults := f\<rparr>) s' = keeps org s s'"
  "keeps org s (s'\<lparr>db_ids := i\<rparr>) = keeps org s s'" "keeps org (s\<lparr>db_ids := i\<rparr>) s' = keeps org s s'"
  "keeps org s (s'\<lparr>db_random := i\<rparr>) = keeps org s s'" "keeps org (s\<lparr>db_random := i\<rparr>) s' = keeps org s s'"
  by (simp_all add: keeps_def)

lemma keeps_stmt:
  assumes "\<And>s x s'. body s = Inr (x, s') \<Longrightarrow> keeps org s s'"
  shows "keeps org s (snd (stmt body s))"
proof (rule stmt_cases [of body s])
  fix x s2
  assume "body (s\<lparr>db_faults := tl (db_faults s)\<rparr>) = Inr (x, s2)" "stmt body s = (Inr x, s2)"
  then show ?thesis using assms [of "s\<lparr>db_faults := tl (db_faults s)\<rparr>" x s2] by simp
qed auto

lemma keeps_stmt_at:
  assumes "\<And>s1 x s'. agents s1 = agents s \<Longrightarrow> body s1 = Inr (x, s') \<Longrightarrow> keeps org s1 s'"
  shows "keeps org s (snd (stmt body s))"
proof (rule stmt_cases [of body s])
  fix x s2
  assume "body (s\<lparr>db_faults := tl (db_faults s)\<rparr>) = Inr (x, s2)" "stmt body s = (Inr x, s2)"
  then show ?thesis using assms [of "s\<lparr>db_faults := tl (db_faults s)\<rparr>" x s2] by simp
qed auto

lemma stmt_field:
  assumes "\<And>s x s'. body s = Inr (x, s') \<Longrightarrow> g s' = g s" and "\<And>s f. g (s\<lparr>db_faults := f\<rparr>) = g s"
  shows "g (snd (stmt body s)) = g s"
  by (rule stmt_cases [of body s]) (auto simp: assms(2) dest!: assms(1))

lemma snd_with_ctx [simp]: "snd (with_ctx pre r) = snd r"
  by (auto simp: with_ctx_def split: prod.splits sum.splits)

lemma keeps_select [simp]: "keeps org s (snd (select f s))"
  unfolding select_def by (rule keeps_stmt) auto

lemma select_Inr: "fst (select f s) = Inr x \<Longrightarrow> x = f (s\<lparr>db_faults := tl (db_faults s)\<rparr>)"
  by (auto simp: select_def stmt_def Let_def split: if_splits)

lemma with_ctx_Inr [simp]: "fst (with_ctx pre r) = Inr x \<longleftrightarrow> fst r = Inr x"
  by (auto simp: with_ctx_def split: prod.splits sum.splits)

lemma filter_update_where:
  assumes "\<And>r. Q (f r) = Q r" "\<And>r. P r \<Longrightarrow> \<not> Q r"
  shows "filter Q (update_where P f rows) = filter Q rows"
  using assms by (induction rows) (auto simp: update_where_def)

lemma map_update_where: "(\<And>r. g (f r) = g r) \<Longrightarrow> map g (update_where P f rows) = map g rows"
  by (induction rows) (auto simp: update_where_def)

lemma set_map_update_where: "(\<And>r. g (f r) = g r) \<Longrightarrow> g ` set (update_where P f rows) = g ` set rows"
  by (metis list.set_map map_update_where)

lemma filter_remove: "(\<And>r. Q r \<Longrightarrow> P r) \<Longrightarrow> filter Q (filter P rows) = filter Q rows"
  by (induction rows) auto

lemma order_by_set [simp]: "set (order_by lt rows) = set rows"
  by (simp add: order_by_def)

lemma order_by_mset [simp]: "mset (order_by lt rows) = mset rows"
  by (simp add: order_by_def)

lemma order_by_sorted:
  "strict_weak_on (set rows) lt \<Longrightarrow> sorted_wrt (\<lambda>a b. \<not> lt b a) (order_by lt rows)"
  by (simp add: order_by_def sorted_slice_stable)

end
