(* ===== verification/Http.thy ===== *)
theory Http
  imports Storage_Db
begin

text \<open>
  What the handlers and the middleware of \<open>internal/api\<close> use of \<open>net/http\<close> and of the chi router: a
  request, a response, header, query and cookie lookup. A header name compares without case; of
  several values \<open>Get\<close> returns the first.
\<close>

record request =
  rq_method :: string
  rq_path :: string
  rq_params :: "(string \<times> string) list"
  rq_query :: "(string \<times> string) list"
  rq_headers :: "(string \<times> string) list"
  rq_cookies :: "(string \<times> string) list"
  rq_body :: "string option"
  rq_remote :: string
  rq_tls :: bool
  rq_ctx_org :: string
  rq_ctx_user :: string

record cookie =
  ck_name :: string
  ck_value :: string
  ck_http_only :: bool
  ck_secure :: bool
  ck_same_site :: string
  ck_max_age :: int

record response =
  rs_status :: nat
  rs_body :: json
  rs_headers :: "(string \<times> string) list"
  rs_cookies :: "cookie list"

definition header_get :: "string \<Rightarrow> request \<Rightarrow> string" where
  "header_get name r = (case List.find (\<lambda>(k, v). equal_fold k name) (rq_headers r) of
     Some (k, v) \<Rightarrow> v | None \<Rightarrow> [])"

definition query_get :: "string \<Rightarrow> request \<Rightarrow> string" where
  "query_get name r = (case map_of (rq_query r) name of Some v \<Rightarrow> v | None \<Rightarrow> [])"

definition url_param :: "string \<Rightarrow> request \<Rightarrow> string" where
  "url_param name r = (case map_of (rq_params r) name of Some v \<Rightarrow> v | None \<Rightarrow> [])"

definition cookie_get :: "string \<Rightarrow> request \<Rightarrow> string option" where
  "cookie_get name r = map_of (rq_cookies r) name"

definition reply :: "nat \<Rightarrow> json \<Rightarrow> response" where
  "reply code body = \<lparr>rs_status = code, rs_body = body, rs_headers = [(''Content-Type'', ''application/json'')],
     rs_cookies = []\<rparr>"

text \<open>\<open>writeJSONError\<close> and the middleware's \<open>writeError\<close>: the same shape.\<close>

definition write_json_error :: "nat \<Rightarrow> string \<Rightarrow> response" where
  "write_json_error code msg = reply code (JObj [(''error'', JStr msg)])"

definition add_cookie :: "cookie \<Rightarrow> response \<Rightarrow> response" where
  "add_cookie c rs = rs\<lparr>rs_cookies := c # rs_cookies rs\<rparr>"

text \<open>\<open>http.Header.Set\<close> on the response.\<close>

definition set_header :: "string \<Rightarrow> string \<Rightarrow> response \<Rightarrow> response" where
  "set_header k v rs = rs\<lparr>rs_headers := filter (\<lambda>(k', v'). \<not> equal_fold k' k) (rs_headers rs) @ [(k, v)]\<rparr>"

text \<open>The request of the examples.\<close>

definition bare_request :: request where
  "bare_request = \<lparr>rq_method = ''GET'', rq_path = ''/'', rq_params = [], rq_query = [], rq_headers = [],
     rq_cookies = [], rq_body = None, rq_remote = ''10.0.0.1:4000'', rq_tls = False, rq_ctx_org = [],
     rq_ctx_user = []\<rparr>"

end
