(* ===== verification/Storage.thy ===== *)
theory Storage
  imports Storage_Db
begin

text \<open>
  \<open>internal/storage/postgres.go\<close>: one definition per method of \<open>Postgres\<close>, each a state transformer on
  the database. A SELECT is \<open>select\<close> of a function of the tables; a write checks the constraints the
  migrations declare and returns the violated one as its error.
\<close>

section \<open>Organizations\<close>

definition create_org :: "string \<Rightarrow> string \<Rightarrow> organization io" where
  "create_org nm slug s = with_ctx ''create org: '' (stmt (\<lambda>s. case fresh_id s of
       Inl e \<Rightarrow> Inl e
     | Inr (i, s1) \<Rightarrow>
         if list_ex (\<lambda>r. org_id r = i \<or> org_slug r = slug) (orgs s1) then Inl unique_violation
         else let r = \<lparr>org_id = i, org_name = nm, org_slug = slug, org_plan = ''free'', org_created_at = db_now s1\<rparr>
              in Inr (r, s1\<lparr>orgs := orgs s1 @ [r]\<rparr>)) s)"

definition get_org :: "string \<Rightarrow> organization option io" where
  "get_org i s = with_ctx ''get org: '' (select (\<lambda>s. List.find (\<lambda>r. org_id r = i) (orgs s)) s)"

definition list_orgs :: "string list io" where
  "list_orgs s = with_ctx ''list orgs: '' (select (\<lambda>s.
     map org_id (order_by (\<lambda>a b. org_created_at a < org_created_at b) (orgs s))) s)"

section \<open>API keys\<close>

record api_key =
  ak_id :: string
  ak_org :: string
  ak_prefix :: string
  ak_name :: string
  ak_created_at :: int
  ak_revoked_at :: "int option"

definition hash_api_key_plain :: "storage_env \<Rightarrow> string \<Rightarrow> string" where
  "hash_api_key_plain E plaintext = hex_encode (st_sha256 E plaintext)"

definition hash_api_key_hmac :: "storage_env \<Rightarrow> string \<Rightarrow> string \<Rightarrow> string" where
  "hash_api_key_hmac E plaintext pepper = hex_encode (st_hmac E pepper plaintext)"

definition api_key_pepper :: "storage_env \<Rightarrow> string" where
  "api_key_pepper E = env_pepper E"

definition create_api_key :: "storage_env \<Rightarrow> string \<Rightarrow> string \<Rightarrow> (api_key \<times> string) io" where
  "create_api_key E org nm s = (case rand_bytes s of
     (Inl e, s1) \<Rightarrow> (Inl (ErrWrap ''generate key: '' e []), s1)
   | (Inr raw, s1) \<Rightarrow>
       (let plaintext = ''rk_'' @ hex_encode raw;
            prefix = take 10 plaintext;
            pepper = api_key_pepper E;
            (keyHash, algo) = (if pepper \<noteq> [] then (hash_api_key_hmac E plaintext pepper, ''hmac_sha256'')
                               else (hash_api_key_plain E plaintext, ''sha256''))
        in with_ctx ''create api key: '' (stmt (\<lambda>s. case fresh_id s of
             Inl e \<Rightarrow> Inl e
           | Inr (i, s2) \<Rightarrow>
               if \<not> org_exists org s2 then Inl fk_violation
               else if list_ex (\<lambda>k. k_id k = i \<or> k_hash k = keyHash) (api_keys s2) then Inl unique_violation
               else Inr ((\<lparr>ak_id = i, ak_org = org, ak_prefix = prefix, ak_name = nm,
                           ak_created_at = db_now s2, ak_revoked_at = None\<rparr>, plaintext),
                         s2\<lparr>api_keys := api_keys s2 @
                           [\<lparr>k_id = i, k_org = org, k_hash = keyHash, k_prefix = prefix, k_name = nm,
                             k_algo = algo, k_created_at = db_now s2, k_revoked_at = None\<rparr>]\<rparr>)) s1)))"

definition key_hashes :: "storage_env \<Rightarrow> string \<Rightarrow> string list" where
  "key_hashes E plaintext = hash_api_key_plain E plaintext #
     (if api_key_pepper E \<noteq> [] then [hash_api_key_hmac E plaintext (api_key_pepper E)] else [])"

definition validate_api_key :: "storage_env \<Rightarrow> string \<Rightarrow> string io" where
  "validate_api_key E plaintext s =
     (case select (\<lambda>s. List.find (\<lambda>k. k_hash k \<in> set (key_hashes E plaintext) \<and> k_revoked_at k = None) (api_keys s)) s of
        (Inl e, s1) \<Rightarrow> (Inl (ErrWrap ''validate key: '' e []), s1)
      | (Inr None, s1) \<Rightarrow> (Inl (ErrText ''invalid or revoked API key''), s1)
      | (Inr (Some k), s1) \<Rightarrow> (Inr (k_org k), s1))"

definition revoke_api_key :: "string \<Rightarrow> string \<Rightarrow> unit io" where
  "revoke_api_key org key_id = stmt (\<lambda>s. Inr ((), s\<lparr>api_keys :=
     update_where (\<lambda>k. k_id k = key_id \<and> k_org k = org) (\<lambda>k. k\<lparr>k_revoked_at := Some (db_now s)\<rparr>) (api_keys s)\<rparr>))"

section \<open>Runs\<close>

definition err_run_already_exists :: go_error where
  "err_run_already_exists = Sentinel ''storage: run already exists''"

definition insert_run :: "run \<Rightarrow> unit io" where
  "insert_run r s =
     (case stmt (\<lambda>s.
        if \<not> (int4_opt (r_duration_ms r) \<and> int4_opt (r_exit_code r) \<and> int4 (r_actions_total r) \<and>
              int4 (r_actions_allowed r) \<and> int4 (r_actions_denied r)) then Inl (ErrText ''cannot encode int4'')
        else if list_ex (\<lambda>q. r_org q = r_org r \<and> r_id q = r_id r) (runs s) then Inl unique_violation
        else if \<not> org_exists (r_org r) s then Inl fk_violation
        else Inr ((), s\<lparr>runs := runs s @
               [r\<lparr>r_started_at := micros (r_started_at r), r_expires_at := micros (r_expires_at r)\<rparr>]\<rparr>)) s of
        (Inl e, s1) \<Rightarrow> (Inl (if errors_is e ''pg:23505'' then err_run_already_exists else e), s1)
      | (Inr u, s1) \<Rightarrow> (Inr u, s1))"

definition newest_run_first :: "run \<Rightarrow> run \<Rightarrow> bool" where
  "newest_run_first a b \<longleftrightarrow> r_started_at b < r_started_at a"

text \<open>\<open>LIMIT l OFFSET o\<close>; PostgreSQL refuses negative ones.\<close>

definition page :: "int \<Rightarrow> int \<Rightarrow> 'a list \<Rightarrow> go_error + 'a list" where
  "page l off rows = (if l < 0 \<or> off < 0 then Inl (pg_error ''2201W'')
     else Inr (take (nat l) (drop (nat off) rows)))"

definition list_runs :: "string \<Rightarrow> string \<Rightarrow> int \<Rightarrow> int \<Rightarrow> run list io" where
  "list_runs org agent_name l off s = with_ctx ''list runs: '' (stmt (\<lambda>s.
     map_sum id (\<lambda>rows. (rows, s)) (page l off (order_by newest_run_first
       (filter (\<lambda>r. r_org r = org \<and> (agent_name = [] \<or> r_agent_name r = agent_name)) (runs s))))) s)"

definition list_runs_for_simulate :: "string \<Rightarrow> string \<Rightarrow> int \<Rightarrow> int \<Rightarrow> run list io" where
  "list_runs_for_simulate org agent_name since l s = with_ctx ''list runs for simulate: '' (stmt (\<lambda>s.
     map_sum id (\<lambda>rows. (rows, s)) (page l 0 (order_by newest_run_first
       (filter (\<lambda>r. r_org r = org \<and> r_agent_name r = agent_name \<and> r_started_at r \<ge> micros since) (runs s))))) s)"

definition get_run :: "string \<Rightarrow> string \<Rightarrow> run option io" where
  "get_run org rid s = with_ctx ''get run: ''
     (select (\<lambda>s. List.find (\<lambda>r. r_org r = org \<and> r_id r = rid) (runs s)) s)"

text \<open>The storage key of the deleted run, empty when there was none.\<close>

definition delete_run :: "string \<Rightarrow> string \<Rightarrow> string io" where
  "delete_run org rid = stmt (\<lambda>s.
     case List.find (\<lambda>r. r_org r = org \<and> r_id r = rid) (runs s) of
       None \<Rightarrow> Inr ([], s)
     | Some r \<Rightarrow> Inr (r_storage_key r, s\<lparr>runs := filter (\<lambda>q. \<not> (r_org q = org \<and> r_id q = rid)) (runs s)\<rparr>))"

record expired_run =
  er_id :: string
  er_org :: string
  er_storage_key :: string

definition expired_run_of :: "run \<Rightarrow> expired_run" where
  "expired_run_of r = \<lparr>er_id = r_id r, er_org = r_org r, er_storage_key = r_storage_key r\<rparr>"

text \<open>
  \<open>ReapExpiredRuns\<close>: \<open>locked\<close> tells the rows another worker holds, which the inner SELECT skips. The
  outer DELETE takes every row whose id is among the ids selected.
\<close>

definition reap_selected :: "(run \<Rightarrow> bool) \<Rightarrow> int \<Rightarrow> int \<Rightarrow> run list \<Rightarrow> run list" where
  "reap_selected locked before l rows = take (nat l) (order_by (\<lambda>a b. r_expires_at a < r_expires_at b)
     (filter (\<lambda>r. r_expires_at r < micros before \<and> \<not> locked r) rows))"

definition reap_expired_runs :: "(run \<Rightarrow> bool) \<Rightarrow> int \<Rightarrow> int \<Rightarrow> expired_run list io" where
  "reap_expired_runs locked before l s =
     (let lim = (if l \<le> 0 then 100 else l) in
      with_ctx ''reap expired runs: '' (stmt (\<lambda>s.
        let ids = map r_id (reap_selected locked before lim (runs s)) in
        Inr (map expired_run_of (filter (\<lambda>r. r_id r \<in> set ids) (runs s)),
             s\<lparr>runs := filter (\<lambda>r. r_id r \<notin> set ids) (runs s)\<rparr>)) s))"

definition count_expired_runs :: "int \<Rightarrow> int io" where
  "count_expired_runs before s = with_ctx ''count expired runs: ''
     (select (\<lambda>s. int (length (filter (\<lambda>r. r_expires_at r < micros before) (runs s)))) s)"

definition list_runs_in_window :: "string \<Rightarrow> int \<Rightarrow> int \<Rightarrow> run list io" where
  "list_runs_in_window org start stop s = with_ctx ''list runs window: '' (select (\<lambda>s.
     order_by (\<lambda>a b. r_started_at a < r_started_at b)
       (filter (\<lambda>r. r_org r = org \<and> r_started_at r \<ge> micros start \<and> r_started_at r < micros stop) (runs s))) s)"

section \<open>Agents\<close>

definition is_agent :: "string \<Rightarrow> string \<Rightarrow> agent_row \<Rightarrow> bool" where
  "is_agent org nm a \<longleftrightarrow> a_org a = org \<and> a_name a = nm"

definition agent_of :: "agent_row \<Rightarrow> agent" where
  "agent_of a = agent.truncate a"

definition update_agent_last_seen :: "string \<Rightarrow> string \<Rightarrow> unit io" where
  "update_agent_last_seen org nm = stmt (\<lambda>s. Inr ((), s\<lparr>agents :=
     update_where (is_agent org nm) (\<lambda>a. a\<lparr>a_last_seen := db_now s\<rparr>) (agents s)\<rparr>))"

definition upsert_agent :: "storage_env \<Rightarrow> agent \<Rightarrow> unit io" where
  "upsert_agent E a = stmt (\<lambda>s.
     case jsonb E (a_manifest a) of
       None \<Rightarrow> Inl (pg_error ''22P02'')
     | Some manifest \<Rightarrow>
         if list_ex (is_agent (a_org a) (a_name a)) (agents s) then
           Inr ((), s\<lparr>agents := update_where (is_agent (a_org a) (a_name a))
             (\<lambda>r. r\<lparr>a_version := a_version a, a_manifest := manifest,
                    a_capabilities_hash := a_capabilities_hash a, a_policy_hash := a_policy_hash a,
                    a_last_seen := db_now s\<rparr>) (agents s)\<rparr>)
         else case fresh_id s of
           Inl e \<Rightarrow> Inl e
         | Inr (i, s1) \<Rightarrow>
             if list_ex (\<lambda>r. a_id r = i) (agents s1) then Inl unique_violation
             else if \<not> org_exists (a_org a) s1 then Inl fk_violation
             else Inr ((), s1\<lparr>agents := agents s1 @
               [\<lparr>a_id = i, a_org = a_org a, a_name = a_name a, a_version = a_version a,
                 a_manifest = manifest, a_capabilities_hash = a_capabilities_hash a,
                 a_policy_hash = a_policy_hash a, a_registered_at = db_now s1, a_last_seen = db_now s1,
                 a_applied_hash = None, a_applied_at = None, a_policy_yaml = None,
                 a_policy_updated_at = None\<rparr>]\<rparr>))"

definition by_agent_name :: "agent_row \<Rightarrow> agent_row \<Rightarrow> bool" where
  "by_agent_name a b \<longleftrightarrow> \<not> string_le (a_name b) (a_name a)"

definition list_agents :: "string \<Rightarrow> agent list io" where
  "list_agents org = select (\<lambda>s. map agent_of (order_by by_agent_name (filter (\<lambda>a. a_org a = org) (agents s))))"

definition get_agent :: "string \<Rightarrow> string \<Rightarrow> agent option io" where
  "get_agent org nm = select (\<lambda>s. map_option agent_of (List.find (is_agent org nm) (agents s)))"

definition get_agent_policy :: "string \<Rightarrow> string \<Rightarrow> string io" where
  "get_agent_policy org nm s = with_ctx ''get agent policy: '' (select (\<lambda>s.
     case List.find (is_agent org nm) (agents s) of
       None \<Rightarrow> []
     | Some a \<Rightarrow> (case a_policy_yaml a of None \<Rightarrow> [] | Some y \<Rightarrow> y)) s)"

definition update_agent_policy :: "string \<Rightarrow> string \<Rightarrow> string \<Rightarrow> unit io" where
  "update_agent_policy org nm yaml s = with_ctx ''update agent policy: '' (stmt (\<lambda>s. Inr ((), s\<lparr>agents :=
     update_where (is_agent org nm)
       (\<lambda>a. a\<lparr>a_policy_yaml := Some yaml, a_policy_updated_at := Some (db_now s)\<rparr>) (agents s)\<rparr>)) s)"

definition get_agent_by_id :: "string \<Rightarrow> string \<Rightarrow> agent option io" where
  "get_agent_by_id org aid s = with_ctx ''get agent by id: ''
     (select (\<lambda>s. map_option agent_of (List.find (\<lambda>a. a_id a = aid \<and> a_org a = org) (agents s))) s)"

definition mark_policy_applied :: "string \<Rightarrow> string \<Rightarrow> string \<Rightarrow> unit io" where
  "mark_policy_applied org nm hash s =
     (case stmt (\<lambda>s. Inr (length (filter (is_agent org nm) (agents s)), s\<lparr>agents :=
        update_where (is_agent org nm)
          (\<lambda>a. a\<lparr>a_applied_hash := Some hash, a_applied_at := Some (db_now s)\<rparr>) (agents s)\<rparr>)) s of
        (Inl e, s1) \<Rightarrow> (Inl (ErrWrap ''mark policy applied: '' e []), s1)
      | (Inr n, s1) \<Rightarrow> (if n = 0 then Inl (ErrText (''mark policy applied: agent '' @ go_quote nm @ '' not found''))
                        else Inr (), s1))"

section \<open>Baselines\<close>

definition get_agent_baseline :: "string \<Rightarrow> string \<Rightarrow> agent_baseline option io" where
  "get_agent_baseline org aid s = with_ctx ''get agent baseline: '' (select (\<lambda>s.
     case order_by (\<lambda>a b. b_computed_at b < b_computed_at a)
            (filter (\<lambda>b. b_agent b = aid \<and> list_ex (\<lambda>a. a_id a = b_agent b \<and> a_org a = org) (agents s)) (baselines s)) of
       [] \<Rightarrow> None | b # _ \<Rightarrow> Some b) s)"

definition insert_baseline :: "storage_env \<Rightarrow> agent_baseline \<Rightarrow> unit io" where
  "insert_baseline E b s = with_ctx ''insert baseline: '' (stmt (\<lambda>s.
     case jsonb E (b_tools b) of
       None \<Rightarrow> Inl (pg_error ''22P02'')
     | Some tools \<Rightarrow>
         if \<not> int4 (b_window_days b) then Inl (ErrText ''cannot encode int4'')
         else if list_ex (\<lambda>c. b_agent c = b_agent b \<and> b_computed_at c = micros (b_computed_at b)) (baselines s)
         then Inl unique_violation
         else if \<not> list_ex (\<lambda>a. a_id a = b_agent b) (agents s) then Inl fk_violation
         else Inr ((), s\<lparr>baselines := baselines s @
                [b\<lparr>b_computed_at := micros (b_computed_at b), b_tools := tools\<rparr>]\<rparr>)) s)"

text \<open>\<open>COALESCE(AVG(...), 0)\<close>.\<close>

definition avg_of :: "int list \<Rightarrow> rat" where
  "avg_of xs = (if xs = [] then 0 else of_int (sum_list xs) / of_nat (length xs))"

definition nanos_per_day :: int where
  "nanos_per_day = 86400 * 1000000000"

definition compute_baseline :: "string \<Rightarrow> string \<Rightarrow> int \<Rightarrow> agent_baseline io" where
  "compute_baseline org aid window_days s =
     (case get_agent_by_id org aid s of
        (Inl e, s1) \<Rightarrow> (Inl (ErrWrap ''get agent: '' e []), s1)
      | (Inr None, s1) \<Rightarrow> (Inl (ErrText ''agent not found''), s1)
      | (Inr (Some a), s1) \<Rightarrow>
          (case select (\<lambda>s. filter (\<lambda>r. r_org r = a_org a \<and> r_agent_name r = a_name a \<and>
                    r_started_at r \<ge> db_now s - window_days * nanos_per_day) (runs s)) s1 of
             (Inl e, s2) \<Rightarrow> (Inl (ErrWrap ''compute baseline: '' e []), s2)
           | (Inr rs, s2) \<Rightarrow>
               (Inr \<lparr>b_agent = aid, b_computed_at = db_now s2, b_window_days = window_days,
                     b_avg_actions = avg_of (map r_actions_total rs), b_avg_denials = avg_of (map r_actions_denied rs),
                     b_tools = ''{}''\<rparr>, s2)))"

section \<open>Audit events\<close>

definition insert_audit_event :: "storage_env \<Rightarrow> string \<Rightarrow> string \<Rightarrow> string \<Rightarrow> string \<Rightarrow> string \<Rightarrow>
    string option \<Rightarrow> unit io" where
  "insert_audit_event E org uid action resource rid metadata s = with_ctx ''insert audit event: '' (stmt (\<lambda>s.
     case (jsonb E (case metadata of None \<Rightarrow> ''{}'' | Some m \<Rightarrow> m), fresh_id s) of
       (Some m, Inr (i, s1)) \<Rightarrow>
         if list_ex (\<lambda>e. ev_id e = i) (audits s1) then Inl unique_violation
         else if \<not> org_exists org s1 then Inl fk_violation
         else Inr ((), s1\<lparr>audits := audits s1 @
           [\<lparr>ev_id = i, ev_org = org, ev_user = uid, ev_action = action, ev_resource = resource,
             ev_resource_id = rid, ev_metadata = m, ev_created_at = db_now s1\<rparr>]\<rparr>)
     | (None, _) \<Rightarrow> Inl (pg_error ''22P02'')
     | (_, Inl e) \<Rightarrow> Inl e) s)"

definition list_audit_events :: "string \<Rightarrow> int \<Rightarrow> int \<Rightarrow> audit_event list io" where
  "list_audit_events org l off s = with_ctx ''list audit events: '' (stmt (\<lambda>s.
     map_sum id (\<lambda>rows. (rows, s)) (page l off (order_by (\<lambda>a b. ev_created_at b < ev_created_at a)
       (filter (\<lambda>e. ev_org e = org) (audits s))))) s)"

definition list_audit_events_in_window :: "string \<Rightarrow> int \<Rightarrow> int \<Rightarrow> audit_event list io" where
  "list_audit_events_in_window org start stop s = with_ctx ''list audit events window: '' (select (\<lambda>s.
     order_by (\<lambda>a b. ev_created_at a < ev_created_at b)
       (filter (\<lambda>e. ev_org e = org \<and> ev_created_at e \<ge> micros start \<and> ev_created_at e < micros stop) (audits s))) s)"

section \<open>Proposals\<close>

definition insert_proposal :: "storage_env \<Rightarrow> proposal \<Rightarrow> string io" where
  "insert_proposal E pr = stmt (\<lambda>s.
     case (jsonb E (pr_evidence pr), jsonb E (pr_rule pr), fresh_id s) of
       (Some ev, Some rl, Inr (i, s1)) \<Rightarrow>
         if list_ex (\<lambda>q. pr_id q = i) (proposals s1) then Inl unique_violation
         else if \<not> org_exists (pr_org pr) s1 then Inl fk_violation
         else Inr (i, s1\<lparr>proposals := proposals s1 @
           [\<lparr>pr_id = i, pr_org = pr_org pr, pr_agent_name = pr_agent_name pr, pr_status = ''pending'',
             pr_trigger = pr_trigger pr, pr_evidence = ev, pr_rule = rl, pr_created_at = db_now s1,
             pr_decided_at = None, pr_decided_by = None\<rparr>]\<rparr>)
     | (_, _, Inl e) \<Rightarrow> Inl e
     | _ \<Rightarrow> Inl (pg_error ''22P02''))"

definition list_proposals :: "string \<Rightarrow> string \<Rightarrow> proposal list io" where
  "list_proposals org status = select (\<lambda>s. order_by (\<lambda>a b. pr_created_at b < pr_created_at a)
     (filter (\<lambda>p. pr_org p = org \<and> (status = [] \<or> pr_status p = status)) (proposals s)))"

definition update_proposal_status :: "string \<Rightarrow> string \<Rightarrow> string \<Rightarrow> string \<Rightarrow> bool io" where
  "update_proposal_status org pid status uid = stmt (\<lambda>s.
     let hit = (\<lambda>p. pr_id p = pid \<and> pr_org p = org) in
     if list_ex hit (proposals s) \<and>
        status \<notin> {''pending'', ''approved'', ''rejected'', ''expired'', ''dismissed''} then Inl check_violation
     else Inr (list_ex hit (proposals s), s\<lparr>proposals := update_where hit
       (\<lambda>p. p\<lparr>pr_status := status, pr_decided_at := Some (db_now s),
              pr_decided_by := (if uid \<noteq> [] then Some uid else None)\<rparr>) (proposals s)\<rparr>))"

section \<open>Users\<close>

record user =
  us_id :: string
  us_org :: string
  us_email :: string
  us_role :: string
  us_created_at :: int
  us_password_hash :: string
  us_provider :: string

definition user_of :: "user_row \<Rightarrow> user" where
  "user_of u = \<lparr>us_id = u_id u, us_org = u_org u, us_email = u_email u, us_role = u_role u,
     us_created_at = u_created_at u,
     us_password_hash = (case u_password u of None \<Rightarrow> [] | Some p \<Rightarrow> p), us_provider = u_provider u\<rparr>"

definition insert_user :: "string \<Rightarrow> string \<Rightarrow> string \<Rightarrow> string option \<Rightarrow> string \<Rightarrow> user io" where
  "insert_user org email role password provider = stmt (\<lambda>s. case fresh_id s of
       Inl e \<Rightarrow> Inl e
     | Inr (i, s1) \<Rightarrow>
         if list_ex (\<lambda>u. u_id u = i \<or> u_email u = email) (users s1) then Inl unique_violation
         else if \<not> org_exists org s1 then Inl fk_violation
         else let u = \<lparr>u_id = i, u_org = org, u_email = email, u_role = role, u_created_at = db_now s1,
                       u_password = password, u_provider = provider\<rparr>
              in Inr (user_of u, s1\<lparr>users := users s1 @ [u]\<rparr>))"

definition create_user :: "string \<Rightarrow> string \<Rightarrow> string \<Rightarrow> user io" where
  "create_user org email role = insert_user org email role None ''supabase''"

definition create_user_with_password :: "string \<Rightarrow> string \<Rightarrow> string \<Rightarrow> string \<Rightarrow> string \<Rightarrow> user io" where
  "create_user_with_password org email role hash provider = insert_user org email role (Some hash) provider"

definition get_user_by_id :: "string \<Rightarrow> string \<Rightarrow> user option io" where
  "get_user_by_id org uid s =
     (if org = [] \<or> uid = [] then (Inr None, s)
      else with_ctx ''get user by id: '' (select (\<lambda>s.
        map_option (\<lambda>u. (user_of u)\<lparr>us_password_hash := [], us_provider := []\<rparr>)
          (List.find (\<lambda>u. u_id u = uid \<and> u_org u = org) (users s))) s))"

definition get_user_by_email :: "string \<Rightarrow> string \<Rightarrow> user option io" where
  "get_user_by_email org email s =
     (if org = [] \<or> email = [] then (Inr None, s)
      else select (\<lambda>s. map_option user_of (List.find (\<lambda>u. u_email u = email \<and> u_org u = org) (users s))) s)"

definition lookup_user_for_login :: "string \<Rightarrow> string \<Rightarrow> user option io" where
  "lookup_user_for_login email provider s =
     (if email = [] then (Inr None, s)
      else select (\<lambda>s. map_option user_of (List.find (\<lambda>u. u_email u = email \<and> u_provider u = provider) (users s))) s)"

definition count_users :: "int io" where
  "count_users = select (\<lambda>s. int (length (users s)))"

definition count_users_by_provider :: "string \<Rightarrow> int io" where
  "count_users_by_provider provider = select (\<lambda>s. int (length (filter (\<lambda>u. u_provider u = provider) (users s))))"

section \<open>Policy sets\<close>

definition is_set :: "string \<Rightarrow> string \<Rightarrow> policy_set \<Rightarrow> bool" where
  "is_set org nm p \<longleftrightarrow> set_org p = org \<and> set_name p = nm"

text \<open>The resulting set; the Go code scans id, version and timestamps back into its argument.\<close>

definition upsert_body :: "storage_env \<Rightarrow> policy_set \<Rightarrow> db \<Rightarrow> go_error + policy_set \<times> db" where
  "upsert_body E p s = (
     case jsonb E (set_selector p) of
       None \<Rightarrow> Inl (pg_error ''22P02'')
     | Some sel \<Rightarrow>
         (case List.find (is_set (set_org p) (set_name p)) (policy_sets s) of
            Some old \<Rightarrow>
              if \<not> int4 (set_version old + 1) then Inl (pg_error ''22003'')
              else let new = old\<lparr>set_selector := sel, set_yaml := set_yaml p, set_hash := set_hash p,
                                 set_version := set_version old + 1, set_updated_at := db_now s\<rparr>
                   in Inr (p\<lparr>set_id := set_id new, set_version := set_version new,
                             set_created_at := set_created_at new, set_updated_at := set_updated_at new\<rparr>,
                           s\<lparr>policy_sets := update_where (is_set (set_org p) (set_name p)) (\<lambda>_. new) (policy_sets s)\<rparr>)
          | None \<Rightarrow>
              (case fresh_id s of
                 Inl e \<Rightarrow> Inl e
               | Inr (i, s1) \<Rightarrow>
                   if list_ex (\<lambda>q. set_id q = i) (policy_sets s1) then Inl unique_violation
                   else if \<not> org_exists (set_org p) s1 then Inl fk_violation
                   else let new = p\<lparr>set_id := i, set_version := 1, set_created_at := db_now s1, set_updated_at := db_now s1\<rparr>
                        in Inr (new, s1\<lparr>policy_sets := policy_sets s1 @ [new\<lparr>set_selector := sel\<rparr>]\<rparr>))))"

definition upsert_policy_set :: "storage_env \<Rightarrow> policy_set \<Rightarrow> policy_set io" where
  "upsert_policy_set E p = stmt (upsert_body E p)"

definition get_policy_set_by_id :: "string \<Rightarrow> string \<Rightarrow> policy_set option io" where
  "get_policy_set_by_id org i s = with_ctx ''get policy set: ''
     (select (\<lambda>s. List.find (\<lambda>p. set_org p = org \<and> set_id p = i) (policy_sets s)) s)"

definition get_policy_set_by_name :: "string \<Rightarrow> string \<Rightarrow> policy_set option io" where
  "get_policy_set_by_name org nm s = with_ctx ''get policy set by name: ''
     (select (\<lambda>s. List.find (is_set org nm) (policy_sets s)) s)"

section \<open>Labels and selectors\<close>

definition insert_label :: "string \<Rightarrow> string \<times> string \<Rightarrow> unit io" where
  "insert_label aid kv = stmt (\<lambda>s.
     if list_ex (\<lambda>l. lab_agent l = aid \<and> lab_key l = fst kv) (labels s) then Inl unique_violation
     else if \<not> list_ex (\<lambda>a. a_id a = aid) (agents s) then Inl fk_violation
     else Inr ((), s\<lparr>labels := labels s @ [\<lparr>lab_agent = aid, lab_key = fst kv, lab_value = snd kv\<rparr>]\<rparr>))"

fun insert_labels :: "string \<Rightarrow> (string \<times> string) list \<Rightarrow> unit io" where
  "insert_labels aid [] s = (Inr (), s)"
| "insert_labels aid (kv # kvs) s =
     (case insert_label aid kv s of
        (Inl e, s1) \<Rightarrow> (Inl (ErrWrap (''set agent labels: insert '' @ go_quote (fst kv) @ '': '') e []), s1)
      | (Inr _, s1) \<Rightarrow> insert_labels aid kvs s1)"

text \<open>The statements between BEGIN and COMMIT; \<open>kvs\<close> is the map in its iteration order.\<close>

definition set_labels_tx :: "string \<Rightarrow> string \<Rightarrow> (string \<times> string) list \<Rightarrow> unit io" where
  "set_labels_tx org nm kvs s =
     (case select (\<lambda>s. List.find (is_agent org nm) (agents s)) s of
        (Inl e, s1) \<Rightarrow> (Inl (ErrWrap ''set agent labels: resolve agent: '' e []), s1)
      | (Inr None, s1) \<Rightarrow> (Inl (ErrText (''set agent labels: agent '' @ go_quote nm @ '' not found'')), s1)
      | (Inr (Some a), s1) \<Rightarrow>
          (case with_ctx ''set agent labels: delete: '' (stmt (\<lambda>s. Inr ((),
                  s\<lparr>labels := filter (\<lambda>l. lab_agent l \<noteq> a_id a) (labels s)\<rparr>)) s1) of
             (Inl e, s2) \<Rightarrow> (Inl e, s2)
           | (Inr _, s2) \<Rightarrow>
               (case insert_labels (a_id a) kvs s2 of
                  (Inl e, s3) \<Rightarrow> (Inl e, s3)
                | (Inr _, s3) \<Rightarrow> stmt (\<lambda>s. Inr ((), s)) s3)))"

definition set_agent_labels :: "string \<Rightarrow> string \<Rightarrow> (string \<times> string) list \<Rightarrow> unit io" where
  "set_agent_labels org nm kvs s =
     (case with_ctx ''set agent labels: begin: '' (stmt (\<lambda>s. Inr ((), s)) s) of
        (Inl e, s1) \<Rightarrow> (Inl e, s1)
      | (Inr _, s1) \<Rightarrow>
          (case set_labels_tx org nm kvs s1 of
             (Inl e, s2) \<Rightarrow> (Inl e, s1\<lparr>db_faults := db_faults s2\<rparr>)
           | (Inr u, s2) \<Rightarrow> (Inr u, s2)))"

definition get_agent_labels :: "string \<Rightarrow> string \<Rightarrow> (string \<times> string) list io" where
  "get_agent_labels org nm s = with_ctx ''get agent labels: '' (select (\<lambda>s.
     dedup_keys (map (\<lambda>l. (lab_key l, lab_value l))
       (filter (\<lambda>l. list_ex (\<lambda>a. a_id a = lab_agent l \<and> is_agent org nm a) (agents s)) (labels s)))) s)"

text \<open>
  The match arm's query: the labels of the agent that equal one of the pairs, grouped by agent, with
  as many distinct keys as the selector has.
\<close>

definition label_hits :: "(string \<times> string) list \<Rightarrow> string \<Rightarrow> agent_label list \<Rightarrow> agent_label list" where
  "label_hits kvs aid ls =
     filter (\<lambda>l. lab_agent l = aid \<and> list_ex (\<lambda>(k, v). lab_key l = k \<and> lab_value l = v) kvs) ls"

definition selector_matches :: "(string \<times> string) list \<Rightarrow> db \<Rightarrow> agent_row \<Rightarrow> bool" where
  "selector_matches kvs s a \<longleftrightarrow> length (remdups (map lab_key (label_hits kvs (a_id a) (labels s)))) = length kvs \<and>
     label_hits kvs (a_id a) (labels s) \<noteq> []"

definition resolve_selector :: "string \<Rightarrow> string \<Rightarrow> agent list io" where
  "resolve_selector org selector s =
     (case Option.bind (unmarshal_struct selector)
             (\<lambda>ms. case (field_string ''agent_name'' ms, field_string_map ''match'' ms) of
                     (Some n, Some kvs) \<Rightarrow> Some (n, kvs) | _ \<Rightarrow> None) of
        None \<Rightarrow> (Inl (ErrText ''resolve selector: invalid JSON''), s)
      | Some (nm, kvs) \<Rightarrow>
          if nm \<noteq> [] then
            (case get_agent org nm s of
               (Inl e, s1) \<Rightarrow> (Inl e, s1)
             | (Inr None, s1) \<Rightarrow> (Inr [], s1)
             | (Inr (Some a), s1) \<Rightarrow> (Inr [a], s1))
          else if kvs = [] then (Inl (ErrText ''resolve selector: empty selector''), s)
          else with_ctx ''resolve selector: query: '' (select (\<lambda>s.
            map agent_of (order_by by_agent_name
              (filter (\<lambda>a. a_org a = org \<and> selector_matches kvs s a) (agents s)))) s))"

end
