(* ===== verification/Middleware.thy ===== *)
theory Middleware
  imports Http Storage
begin

text \<open>
  \<open>internal/api/middleware\<close>: authentication, the double-submit CSRF check, per-address token buckets and
  the security headers. A handler is a function of the request and the state \<open>'w\<close> behind the server;
  a middleware wraps one. Token counts are rationals where Go has \<open>float64\<close>; the clock is in
  nanoseconds.
\<close>

type_synonym 'w handler = "request \<Rightarrow> 'w \<Rightarrow> response \<times> 'w"

section \<open>Claims\<close>

record claims =
  cl_user :: string
  cl_org :: string
  cl_email :: string

section \<open>Auth\<close>

definition org_id_from_context :: "request \<Rightarrow> string" where
  "org_id_from_context r = rq_ctx_org r"

definition user_id_from_context :: "request \<Rightarrow> string" where
  "user_id_from_context r = rq_ctx_user r"

text \<open>
  \<open>validate\<close> is \<open>ValidateAPIKey\<close> on the server's database, \<open>verify\<close> the configured provider's \<open>Verify\<close>.
\<close>

definition auth_middleware :: "(string \<Rightarrow> 'w \<Rightarrow> string res \<times> 'w) \<Rightarrow> (string \<Rightarrow> 'w \<Rightarrow> claims res) \<Rightarrow>
    'w handler \<Rightarrow> 'w handler" where
  "auth_middleware validate verify nxt r w =
     (let header = header_get ''Authorization'' r in
      if header = [] then (write_json_error 401 ''missing Authorization header'', w)
      else case split_n2 (CHR '' '') header of
        [scheme, token] \<Rightarrow>
          if \<not> equal_fold scheme ''Bearer'' then (write_json_error 401 ''invalid Authorization format'', w)
          else if has_prefix token ''rk_'' then
            (case validate token w of
               (Inl e, w1) \<Rightarrow> (write_json_error 401 ''invalid API key'', w1)
             | (Inr org, w1) \<Rightarrow> nxt (r\<lparr>rq_ctx_org := org\<rparr>) w1)
          else (case verify token w of
              Inl e \<Rightarrow> (write_json_error 401 ''invalid credentials'', w)
            | Inr c \<Rightarrow>
                let r1 = (if cl_user c \<noteq> [] then r\<lparr>rq_ctx_user := cl_user c\<rparr> else r);
                    r2 = (if cl_org c \<noteq> [] then r1\<lparr>rq_ctx_org := cl_org c\<rparr> else r1)
                in nxt r2 w)
      | _ \<Rightarrow> (write_json_error 401 ''invalid Authorization format'', w))"

section \<open>CSRF\<close>

record csrf =
  csrf_cookie :: string
  csrf_header :: string
  csrf_path :: string
  csrf_secure :: bool
  csrf_exempt :: "string list"

definition new_csrf :: "bool \<Rightarrow> string list \<Rightarrow> csrf" where
  "new_csrf secure exempt = \<lparr>csrf_cookie = ''relic_csrf'', csrf_header = ''X-CSRF-Token'', csrf_path = ''/'',
     csrf_secure = secure, csrf_exempt = exempt\<rparr>"

definition is_safe_method :: "string \<Rightarrow> bool" where
  "is_safe_method m \<longleftrightarrow> m = ''GET'' \<or> m = ''HEAD'' \<or> m = ''OPTIONS''"

definition new_token :: "string option \<Rightarrow> string option" where
  "new_token rand = map_option hex_encode rand"

text \<open>The cookie to set; \<open>rand\<close> is what \<open>rand.Read\<close> gives for this request, \<open>None\<close> its error.\<close>

definition mint_if_missing :: "csrf \<Rightarrow> string option \<Rightarrow> request \<Rightarrow> cookie option" where
  "mint_if_missing c rand r =
     (if (case cookie_get (csrf_cookie c) r of Some v \<Rightarrow> v \<noteq> [] | None \<Rightarrow> False) then None
      else map_option (\<lambda>tok. \<lparr>ck_name = csrf_cookie c, ck_value = tok, ck_http_only = False,
        ck_secure = csrf_secure c, ck_same_site = ''Strict'', ck_max_age = 8 * 60 * 60\<rparr>) (new_token rand))"

text \<open>The verify step: the error it writes, or \<open>None\<close> when the request goes through.\<close>

definition csrf_error :: "csrf \<Rightarrow> request \<Rightarrow> string option" where
  "csrf_error c r =
     (if is_safe_method (rq_method r) then None
      else if rq_path r \<in> set (csrf_exempt c) then None
      else if has_prefix (trim_space (header_get ''Authorization'' r)) ''Bearer rk_'' then None
      else if cookie_get ''relic_session'' r = None then None
      else case cookie_get (csrf_cookie c) r of
        None \<Rightarrow> Some ''csrf cookie missing''
      | Some v \<Rightarrow>
          if v = [] then Some ''csrf cookie missing''
          else if header_get (csrf_header c) r = [] then Some ''csrf header missing''
          else if v \<noteq> header_get (csrf_header c) r then Some ''csrf token mismatch''
          else None)"

definition csrf_middleware :: "csrf \<Rightarrow> string option \<Rightarrow> 'w handler \<Rightarrow> 'w handler" where
  "csrf_middleware c rand nxt r w =
     (let (rs, w1) = (case csrf_error c r of
            Some msg \<Rightarrow> (write_json_error 403 msg, w)
          | None \<Rightarrow> nxt r w)
      in (case mint_if_missing c rand r of None \<Rightarrow> rs | Some ck \<Rightarrow> add_cookie ck rs, w1))"

section \<open>Rate limiting\<close>

record token_bucket =
  tb_tokens :: rat
  tb_last_refill :: int
  tb_capacity :: rat
  tb_rate :: rat

definition seconds_between :: "int \<Rightarrow> int \<Rightarrow> rat" where
  "seconds_between a b = of_int (b - a) / 1000000000"

definition allow_request :: "int \<Rightarrow> token_bucket \<Rightarrow> bool \<times> token_bucket" where
  "allow_request now tb =
     (let elapsed = seconds_between (tb_last_refill tb) now;
          tokens = min (tb_capacity tb) (tb_tokens tb + elapsed * tb_rate tb);
          tb1 = tb\<lparr>tb_tokens := tokens, tb_last_refill := now\<rparr>
      in if tokens \<ge> 1 then (True, tb1\<lparr>tb_tokens := tokens - 1\<rparr>) else (False, tb1))"

record rate_limiter =
  rl_buckets :: "string \<rightharpoonup> token_bucket"
  rl_rate :: rat
  rl_burst :: int

definition new_rate_limiter :: "rat \<Rightarrow> int \<Rightarrow> rate_limiter" where
  "new_rate_limiter rate burst = \<lparr>rl_buckets = Map.empty, rl_rate = (if rate \<le> 0 then 10 else rate),
     rl_burst = (if burst \<le> 0 then 20 else burst)\<rparr>"

definition get_bucket :: "int \<Rightarrow> string \<Rightarrow> rate_limiter \<Rightarrow> token_bucket" where
  "get_bucket now key rl = (case rl_buckets rl key of
     Some tb \<Rightarrow> tb
   | None \<Rightarrow> \<lparr>tb_tokens = of_int (rl_burst rl), tb_last_refill = now, tb_capacity = of_int (rl_burst rl),
              tb_rate = rl_rate rl\<rparr>)"

text \<open>\<open>net.SplitHostPort\<close>: the host part; \<open>None\<close> is its error (no port, stray brackets or colons).\<close>

definition split_host_port :: "string \<Rightarrow> string option" where
  "split_host_port s =
     (case last_index_of s '':'' of
        None \<Rightarrow> None
      | Some i \<Rightarrow>
          if s \<noteq> [] \<and> hd s = CHR ''['' then
            (case index_of s '']'' of
               None \<Rightarrow> None
             | Some j \<Rightarrow> if j + 1 = i \<and> CHR ''['' \<notin> set (drop 1 s) \<and> CHR '']'' \<notin> set (drop (j + 1) s)
                         then Some (take (j - 1) (drop 1 s)) else None)
          else if CHR '':'' \<in> set (take i s) \<or> CHR ''['' \<in> set s \<or> CHR '']'' \<in> set s then None
          else Some (take i s))"

definition client_ip :: "request \<Rightarrow> string" where
  "client_ip r =
     (let fwd = header_get ''X-Forwarded-For'' r;
          first = trim_space (hd (split_on (CHR '','') fwd))
      in if fwd \<noteq> [] \<and> first \<noteq> [] then first
         else case split_host_port (rq_remote r) of Some h \<Rightarrow> h | None \<Rightarrow> rq_remote r)"

definition limit_key :: "int \<Rightarrow> string \<Rightarrow> rate_limiter \<Rightarrow> bool \<times> rate_limiter" where
  "limit_key now key rl =
     (case allow_request now (get_bucket now key rl) of
        (ok, tb) \<Rightarrow> (ok, rl\<lparr>rl_buckets := (rl_buckets rl)(key \<mapsto> tb)\<rparr>))"

definition rate_limit_middleware :: "int \<Rightarrow> 'w handler \<Rightarrow> (rate_limiter \<times> 'w) handler" where
  "rate_limit_middleware now nxt r s =
     (case limit_key now (client_ip r) (fst s) of
        (True, rl) \<Rightarrow> (case nxt r (snd s) of (rs, w) \<Rightarrow> (rs, (rl, w)))
      | (False, rl) \<Rightarrow> (write_json_error 429 ''rate limit exceeded'', (rl, snd s)))"

section \<open>Security headers\<close>

definition is_https :: "request \<Rightarrow> bool" where
  "is_https r \<longleftrightarrow> rq_tls r \<or> header_get ''X-Forwarded-Proto'' r = ''https''"

definition security_header_list :: "request \<Rightarrow> (string \<times> string) list" where
  "security_header_list r =
     (if is_https r then [(''Strict-Transport-Security'', ''max-age=31536000; includeSubDomains; preload'')] else []) @
     [(''X-Content-Type-Options'', ''nosniff''), (''X-Frame-Options'', ''DENY''),
      (''Referrer-Policy'', ''strict-origin-when-cross-origin''),
      (''Permissions-Policy'', ''interest-cohort=(), browsing-topics=()''),
      (''Cross-Origin-Opener-Policy'', ''same-origin''), (''Cross-Origin-Resource-Policy'', ''same-origin'')]"

text \<open>The headers are set before the handler runs, which may overwrite them.\<close>

definition security_headers :: "'w handler \<Rightarrow> 'w handler" where
  "security_headers nxt r w =
     (case nxt r w of (rs, w1) \<Rightarrow>
        (rs\<lparr>rs_headers := filter (\<lambda>(k, v). \<not> list_ex (\<lambda>(k', v'). equal_fold k k') (rs_headers rs))
              (security_header_list r) @ rs_headers rs\<rparr>, w1))"

section \<open>Fail closed\<close>

text \<open>
  Who may pass: a Bearer token that is an API key the database validates, or another token the
  provider verifies. The last two arguments are the request and the state the handler is given.
\<close>

inductive authenticated :: "(string \<Rightarrow> 'w \<Rightarrow> string res \<times> 'w) \<Rightarrow> (string \<Rightarrow> 'w \<Rightarrow> claims res) \<Rightarrow>
    request \<Rightarrow> 'w \<Rightarrow> request \<Rightarrow> 'w \<Rightarrow> bool"
  for validate verify r w where
  by_key: "header_get ''Authorization'' r = scheme @ CHR '' '' # token \<Longrightarrow> equal_fold scheme ''Bearer'' \<Longrightarrow>
    has_prefix token ''rk_'' \<Longrightarrow> validate token w = (Inr org, w1) \<Longrightarrow>
    authenticated validate verify r w (r\<lparr>rq_ctx_org := org\<rparr>) w1"
| by_token: "header_get ''Authorization'' r = scheme @ CHR '' '' # token \<Longrightarrow> equal_fold scheme ''Bearer'' \<Longrightarrow>
    \<not> has_prefix token ''rk_'' \<Longrightarrow> verify token w = Inr c \<Longrightarrow>
    authenticated validate verify r w
      (r\<lparr>rq_ctx_org := (if cl_org c = [] then rq_ctx_org r else cl_org c),
         rq_ctx_user := (if cl_user c = [] then rq_ctx_user r else cl_user c)\<rparr>) w"

lemma bearer_no_space: "equal_fold scheme ''Bearer'' \<Longrightarrow> CHR '' '' \<notin> set scheme"
proof
  assume f: "equal_fold scheme ''Bearer''" and "CHR '' '' \<in> set scheme"
  then have "lower_char (CHR '' '') \<in> set (to_lower scheme)" by (auto simp: to_lower_def)
  then have "lower_char (CHR '' '') \<in> set (to_lower ''Bearer'')" using f by (simp add: equal_fold_def)
  moreover have "lower_char (CHR '' '') \<notin> set (to_lower ''Bearer'')" by code_simp
  ultimately show False by contradiction
qed

lemma bearer_split:
  assumes "equal_fold scheme ''Bearer''"
  shows "split_n2 (CHR '' '') h = [scheme, token] \<longleftrightarrow> h = scheme @ CHR '' '' # token"
  using split_n2_two split_n2_append bearer_no_space [OF assms] by metis

lemma authenticated_passes:
  assumes "authenticated validate verify r w r' w'"
  shows "auth_middleware validate verify nxt r w = nxt r' w'"
  using assms
proof cases
  case (by_key scheme token org)
  then have "split_n2 (CHR '' '') (header_get ''Authorization'' r) = [scheme, token]"
    by (simp add: bearer_split)
  with by_key show ?thesis by (simp add: auth_middleware_def Let_def)
next
  case (by_token scheme token c)
  then have "split_n2 (CHR '' '') (header_get ''Authorization'' r) = [scheme, token]"
    by (simp add: bearer_split)
  with by_token show ?thesis
    by (cases r) (simp add: auth_middleware_def Let_def)
qed

lemma unauthenticated_refused:
  assumes "\<nexists>r' w'. authenticated validate verify r w r' w'"
  shows "\<exists>msg w'. \<forall>nxt. auth_middleware validate verify nxt r w = (write_json_error 401 msg, w')"
proof (cases "\<exists>scheme token. split_n2 (CHR '' '') (header_get ''Authorization'' r) = [scheme, token]
    \<and> equal_fold scheme ''Bearer''")
  case False
  then have "auth_middleware validate verify nxt r w =
      (write_json_error 401 (if header_get ''Authorization'' r = [] then ''missing Authorization header''
        else ''invalid Authorization format''), w)" for nxt
    by (auto simp: auth_middleware_def Let_def split: list.splits)
  then show ?thesis by blast
next
  case True
  then obtain scheme token where p: "split_n2 (CHR '' '') (header_get ''Authorization'' r) = [scheme, token]"
    and b: "equal_fold scheme ''Bearer''" by blast
  from p b have h: "header_get ''Authorization'' r = scheme @ CHR '' '' # token" by (simp add: bearer_split)
  have "\<exists>e w'. validate token w = (Inl e, w')" if "has_prefix token ''rk_''"
    using assms by_key [OF h b that, where validate = validate and verify = verify]
    by (metis surj_pair sumE)
  moreover have "\<exists>e. verify token w = Inl e" if "\<not> has_prefix token ''rk_''"
    using assms by_token [OF h b that, where validate = validate and verify = verify]
    by (cases "verify token w") auto
  ultimately show ?thesis using h b p
    by (cases "has_prefix token ''rk_''") (auto simp: auth_middleware_def)
qed

text \<open>
  Authentication fails closed: the handler behind it runs exactly when the request carries a
  Bearer token that is an API key the database validates, or another token the provider verifies;
  it then runs with that key's organization, or with the claims of that token, in its context. In
  every other case the answer is 401 whatever the handler is, so it does not run.
\<close>

lemma auth_fails_closed:
  "if \<exists>r' w'. authenticated validate verify r w r' w'
   then \<exists>r' w'. authenticated validate verify r w r' w' \<and>
     (\<forall>nxt. auth_middleware validate verify nxt r w = nxt r' w')
   else \<exists>msg w'. \<forall>nxt. auth_middleware validate verify nxt r w = (write_json_error 401 msg, w')"
  using unauthenticated_refused authenticated_passes by (metis (no_types, lifting))

section \<open>Double submit\<close>

text \<open>
  Which mutating requests must carry the token twice: those a browser sends with a session cookie.
\<close>

definition needs_csrf_token :: "csrf \<Rightarrow> request \<Rightarrow> bool" where
  "needs_csrf_token c r \<longleftrightarrow> rq_method r \<notin> {''GET'', ''HEAD'', ''OPTIONS''} \<and> rq_path r \<notin> set (csrf_exempt c) \<and>
     \<not> has_prefix (trim_space (header_get ''Authorization'' r)) ''Bearer rk_'' \<and>
     cookie_get ''relic_session'' r \<noteq> None"

definition carries_csrf_token :: "csrf \<Rightarrow> string \<Rightarrow> request \<Rightarrow> bool" where
  "carries_csrf_token c tok r \<longleftrightarrow> tok \<noteq> [] \<and> cookie_get (csrf_cookie c) r = Some tok \<and> header_get (csrf_header c) r = tok"

lemma csrf_error_iff:
  "csrf_error c r = None \<longleftrightarrow> (if needs_csrf_token c r then \<exists>tok. carries_csrf_token c tok r else True)"
  by (auto simp: csrf_error_def needs_csrf_token_def carries_csrf_token_def is_safe_method_def split: option.splits)

lemma rs_status_add_cookie [simp]: "rs_status (add_cookie c rs) = rs_status rs"
  by (simp add: add_cookie_def)

lemma rs_status_write_json_error [simp]: "rs_status (write_json_error code msg) = code"
  by (simp add: write_json_error_def reply_def)

text \<open>
  C23. The double-submit check: a request reaches the handler exactly when it needs no token (a safe
  method, an exempt path, an API key, no session cookie) or carries one non-empty token both in the
  cookie and in the header. Otherwise the answer is 403 and the state is as before. Whichever way it
  goes, a request without the cookie is handed a fresh one, and none is replaced.
\<close>

theorem csrf_double_submit:
  "(if needs_csrf_token c r \<and> (\<nexists>tok. carries_csrf_token c tok r)
    then rs_status (fst (csrf_middleware c rand nxt r w)) = 403 \<and> snd (csrf_middleware c rand nxt r w) = w
    else rs_status (fst (csrf_middleware c rand nxt r w)) = rs_status (fst (nxt r w)) \<and>
         snd (csrf_middleware c rand nxt r w) = snd (nxt r w)) \<and>
   (case mint_if_missing c (Some bytes) r of
      None \<Rightarrow> \<exists>tok. tok \<noteq> [] \<and> cookie_get (csrf_cookie c) r = Some tok
    | Some ck \<Rightarrow> ck_value ck = hex_encode bytes \<and> cookie_get (csrf_cookie c) r \<in> {None, Some []})"
proof (rule conjI)
  show "if needs_csrf_token c r \<and> (\<nexists>tok. carries_csrf_token c tok r)
    then rs_status (fst (csrf_middleware c rand nxt r w)) = 403 \<and> snd (csrf_middleware c rand nxt r w) = w
    else rs_status (fst (csrf_middleware c rand nxt r w)) = rs_status (fst (nxt r w)) \<and>
         snd (csrf_middleware c rand nxt r w) = snd (nxt r w)"
    using csrf_error_iff [of c r]
    by (auto simp: csrf_middleware_def split: option.splits prod.splits if_splits)
qed (auto simp: mint_if_missing_def new_token_def split: option.splits)

section \<open>The token bucket\<close>

text \<open>
  A run of requests, each an address and its time: how many of address \<open>k\<close> pass, and the limiter after.
\<close>

fun admitted :: "string \<Rightarrow> (int \<times> string) list \<Rightarrow> rate_limiter \<Rightarrow> nat \<times> rate_limiter" where
  "admitted k [] rl = (0, rl)"
| "admitted k ((now, key) # es) rl =
     (case limit_key now key rl of (ok, rl1) \<Rightarrow>
      case admitted k es rl1 of (n, rl2) \<Rightarrow> ((if ok \<and> key = k then Suc n else n), rl2))"

definition bucket_ok :: "rate_limiter \<Rightarrow> int \<Rightarrow> token_bucket \<Rightarrow> bool" where
  "bucket_ok rl now tb \<longleftrightarrow> tb_capacity tb = of_int (rl_burst rl) \<and> tb_rate tb = rl_rate rl \<and>
     0 \<le> tb_tokens tb \<and> tb_tokens tb \<le> tb_capacity tb \<and> tb_last_refill tb \<le> now"

definition limiter_ok :: "int \<Rightarrow> rate_limiter \<Rightarrow> bool" where
  "limiter_ok now rl \<longleftrightarrow> rl_rate rl > 0 \<and> rl_burst rl > 0 \<and> (\<forall>tb\<in>ran (rl_buckets rl). bucket_ok rl now tb)"

definition tokens_at :: "string \<Rightarrow> int \<Rightarrow> rate_limiter \<Rightarrow> rat" where
  "tokens_at k now rl = (let tb = get_bucket now k rl in
     min (tb_capacity tb) (tb_tokens tb + seconds_between (tb_last_refill tb) now * tb_rate tb))"

lemma seconds_between_nonneg: "a \<le> b \<Longrightarrow> 0 \<le> seconds_between a b"
  by (simp add: seconds_between_def)

lemma seconds_between_add: "seconds_between a b + seconds_between b c = seconds_between a c"
  by (simp add: seconds_between_def field_simps)

lemma get_bucket_ok: "limiter_ok now rl \<Longrightarrow> bucket_ok rl now (get_bucket now key rl)"
  by (auto simp: limiter_ok_def bucket_ok_def get_bucket_def ran_def split: option.splits)

lemma limiter_ok_later: "limiter_ok a rl \<Longrightarrow> a \<le> b \<Longrightarrow> limiter_ok b rl"
  by (fastforce simp: limiter_ok_def bucket_ok_def)

lemma new_limiter_ok: "limiter_ok now (new_rate_limiter rate burst)"
  by (simp add: limiter_ok_def new_rate_limiter_def)

lemma allow_request_ok:
  assumes "bucket_ok rl now tb" "0 < rl_rate rl"
  shows "bucket_ok rl now (snd (allow_request now tb))"
proof -
  have "0 \<le> seconds_between (tb_last_refill tb) now * tb_rate tb"
    using assms by (simp add: bucket_ok_def seconds_between_nonneg)
  with assms show ?thesis by (auto simp: bucket_ok_def allow_request_def Let_def)
qed

lemma limit_key_ok:
  assumes "limiter_ok now rl"
  shows "limiter_ok now (snd (limit_key now key rl))"
proof -
  let ?tb = "snd (allow_request now (get_bucket now key rl))"
  have "bucket_ok rl now ?tb"
    using allow_request_ok [OF get_bucket_ok [OF assms]] assms by (simp add: limiter_ok_def)
  then show ?thesis using assms
    by (auto simp: limiter_ok_def limit_key_def bucket_ok_def ran_def split: prod.splits if_splits)
qed

lemma tokens_at_le: "limiter_ok now rl \<Longrightarrow> tokens_at k now rl \<le> of_int (rl_burst rl)"
  using get_bucket_ok [of now rl k] by (simp add: tokens_at_def Let_def bucket_ok_def)

lemma tokens_at_later:
  assumes "limiter_ok a rl" "a \<le> b"
  shows "tokens_at k b rl \<le> tokens_at k a rl + rl_rate rl * seconds_between a b"
proof (cases "rl_buckets rl k")
  case None
  with assms show ?thesis
    by (simp add: tokens_at_def get_bucket_def limiter_ok_def seconds_between_def)
next
  case (Some tb)
  then have "bucket_ok rl a tb" using assms by (auto simp: limiter_ok_def ran_def)
  moreover have "0 \<le> seconds_between a b * rl_rate rl"
    using assms by (simp add: limiter_ok_def seconds_between_nonneg)
  moreover have "seconds_between (tb_last_refill tb) b * rl_rate rl =
      seconds_between (tb_last_refill tb) a * rl_rate rl + seconds_between a b * rl_rate rl"
    by (simp flip: seconds_between_add [of "tb_last_refill tb" a b] add: field_simps)
  ultimately show ?thesis using Some
    by (auto simp: tokens_at_def get_bucket_def bucket_ok_def min_def mult.commute)
qed

lemma limit_key_tokens:
  assumes "limiter_ok now rl" "limit_key now key rl = (ok, rl1)"
  shows "tokens_at k now rl1 + (if ok \<and> key = k then 1 else 0) = tokens_at k now rl
    \<and> rl_burst rl1 = rl_burst rl \<and> rl_rate rl1 = rl_rate rl"
  using assms(2)
  by (auto simp: limit_key_def tokens_at_def get_bucket_def allow_request_def Let_def seconds_between_def
      split: if_splits option.splits)

lemma admitted_le:
  assumes "limiter_ok now rl" "sorted (now # map fst es)"
  shows "of_nat (fst (admitted k es rl)) \<le>
    tokens_at k now rl + rl_rate rl * seconds_between now (last (now # map fst es))
    \<and> limiter_ok (last (now # map fst es)) (snd (admitted k es rl))
    \<and> rl_burst (snd (admitted k es rl)) = rl_burst rl \<and> rl_rate (snd (admitted k es rl)) = rl_rate rl"
  using assms
proof (induction es arbitrary: now rl)
  case Nil
  have "bucket_ok rl now (get_bucket now k rl)" using get_bucket_ok Nil by blast
  then have "0 \<le> tokens_at k now rl"
    using Nil seconds_between_nonneg [of "tb_last_refill (get_bucket now k rl)" now]
    by (simp add: tokens_at_def Let_def bucket_ok_def limiter_ok_def)
  with Nil show ?case by (simp add: seconds_between_def)
next
  case (Cons e es)
  obtain t key where e: "e = (t, key)" by fastforce
  obtain ok rl1 where k: "limit_key t key rl = (ok, rl1)" by fastforce
  have le: "now \<le> t" and s: "sorted (t # map fst es)" using Cons.prems e by auto
  have o0: "limiter_ok t rl" using limiter_ok_later Cons.prems(1) le .
  have o1: "limiter_ok t rl1" using limit_key_ok [OF o0, of key] k by simp
  note step = limit_key_tokens [OF o0 k, of k]
  note later = tokens_at_later [OF Cons.prems(1) le, of k]
  have sec: "rl_rate rl * seconds_between now (last (t # map fst es)) =
      rl_rate rl * seconds_between now t + rl_rate rl * seconds_between t (last (t # map fst es))"
    by (simp only: distrib_left [symmetric] seconds_between_add)
  show ?case using Cons.IH [OF o1 s] step later sec e k
    by (auto split: prod.splits if_splits)
qed

text \<open>
  C24. In every window of the limiter's life, the requests of one address that pass number at most
  the burst plus the rate times the window's length, whatever the other addresses send: starting
  from a new limiter and any earlier traffic.
\<close>

theorem rate_limit_bound:
  fixes rate :: rat and burst :: int
  assumes "mid \<noteq> []" and "sorted (map fst (pre @ mid))"
  defines "rl0 \<equiv> new_rate_limiter rate burst"
  shows "of_nat (fst (admitted k mid (snd (admitted k' pre rl0)))) \<le>
    of_int (rl_burst rl0) + rl_rate rl0 * seconds_between (fst (hd mid)) (fst (last mid))"
proof -
  define t0 where "t0 = fst (hd (pre @ mid))"
  have srt: "sorted (map fst pre)" "sorted (map fst mid)" "\<forall>x\<in>set pre. \<forall>y\<in>set mid. fst x \<le> fst y"
    using assms(2) by (auto simp: sorted_append)
  have "sorted (t0 # map fst pre)" using srt(1) by (cases pre) (auto simp: t0_def)
  note p = admitted_le [OF new_limiter_ok this, of k' rate burst, folded rl0_def]
  let ?rl = "snd (admitted k' pre rl0)"
  have "last (t0 # map fst pre) \<le> fst (hd mid)"
    using srt(3) assms(1) by (cases pre rule: rev_cases; cases mid) (auto simp: t0_def)
  then have ok: "limiter_ok (fst (hd mid)) ?rl" using p limiter_ok_later by blast
  have "sorted (fst (hd mid) # map fst mid)" using srt(2) assms(1) by (cases mid) auto
  note m = admitted_le [OF ok this, of k]
  have "last (fst (hd mid) # map fst mid) = fst (last mid)" using assms(1) by (simp add: last_map)
  with m p tokens_at_le [OF ok, of k] show ?thesis by auto
qed

lemma rate_limit_bound_witness:
  "of_nat (fst (admitted ''a'' [(5, ''a'')] (snd (admitted ''b'' [(0, ''b'')] (new_rate_limiter 2 3))))) \<le>
    of_int (rl_burst (new_rate_limiter 2 3)) + rl_rate (new_rate_limiter 2 3) * seconds_between 5 5"
  using rate_limit_bound [where mid = "[(5, ''a'')]" and pre = "[(0, ''b'')]" and k = "''a''" and k' = "''b''" and
    rate = 2 and burst = 3] by simp

end
