(* ===== verification/Feeds.thy ===== *)
theory Feeds
  imports Go_Json
begin

text \<open>
  The two publish/subscribe backplanes: \<open>internal/policyfeed/hub.go\<close> (policy updates to agent runtimes)
  and \<open>internal/livefeed/hub.go\<close> (live events to dashboards). Both have the same mechanics: a set of
  subscribers with bounded channels, and one listener that decodes PostgreSQL notifications and fans
  them out. A subscription is its index in \<open>hub_subs\<close>; a closed one keeps the entries its owner has
  not read yet. A goroutine holds the mutex for a whole operation, so operations are steps; the
  listener step and the pending notifications of the PostgreSQL channel are explicit.
\<close>

section \<open>The hub\<close>

record ('k, 'e) subscriber =
  sub_org :: string
  sub_key :: 'k
  sub_queue :: "'e list"
  sub_open :: bool

record ('k, 'e) hub =
  hub_subs :: "('k, 'e) subscriber list"
  hub_closed :: bool
  hub_dropped :: nat
  hub_listening :: bool

definition new_hub :: "('k, 'e) hub" where
  "new_hub = \<lparr>hub_subs = [], hub_closed = False, hub_dropped = 0, hub_listening = False\<rparr>"

text \<open>\<open>Start\<close>: acquiring the connection or LISTEN may fail.\<close>

definition hub_start :: "string option \<Rightarrow> string option \<Rightarrow> ('k, 'e) hub \<Rightarrow> string option \<times> ('k, 'e) hub" where
  "hub_start acquire_err listen_err h =
     (case acquire_err of Some e \<Rightarrow> (Some (''acquire conn: '' @ e), h)
      | None \<Rightarrow> (case listen_err of Some e \<Rightarrow> (Some (''LISTEN: '' @ e), h)
          | None \<Rightarrow> (None, h\<lparr>hub_listening := True\<rparr>)))"

text \<open>\<open>Subscribe\<close>: on a closed hub the subscription is born closed.\<close>

definition hub_subscribe :: "string \<Rightarrow> 'k \<Rightarrow> ('k, 'e) hub \<Rightarrow> nat \<times> ('k, 'e) hub" where
  "hub_subscribe org key h =
     (length (hub_subs h),
      h\<lparr>hub_subs := hub_subs h @ [\<lparr>sub_org = org, sub_key = key, sub_queue = [], sub_open = \<not> hub_closed h\<rparr>]\<rparr>)"

text \<open>The subscription's \<open>closeFn\<close>; a second call finds the map entry gone.\<close>

definition hub_unsubscribe :: "nat \<Rightarrow> ('k, 'e) hub \<Rightarrow> ('k, 'e) hub" where
  "hub_unsubscribe i h =
     (if i < length (hub_subs h) \<and> sub_open (hub_subs h ! i)
      then h\<lparr>hub_subs := (hub_subs h)[i := (hub_subs h ! i)\<lparr>sub_open := False\<rparr>]\<rparr> else h)"

text \<open>One subscriber's share of \<open>dispatch\<close>: enqueue, or drop the new entry when the channel is full.\<close>

definition offer :: "nat \<Rightarrow> ('e \<Rightarrow> string) \<Rightarrow> ('k \<Rightarrow> 'e \<Rightarrow> bool) \<Rightarrow> 'e \<Rightarrow> ('k, 'e) subscriber \<Rightarrow> ('k, 'e) subscriber" where
  "offer cap org_of wants ev s =
     (if sub_open s \<and> sub_org s = org_of ev \<and> wants (sub_key s) ev \<and> length (sub_queue s) < cap
      then s\<lparr>sub_queue := sub_queue s @ [ev]\<rparr> else s)"

definition overflows :: "nat \<Rightarrow> ('e \<Rightarrow> string) \<Rightarrow> ('k \<Rightarrow> 'e \<Rightarrow> bool) \<Rightarrow> 'e \<Rightarrow> ('k, 'e) subscriber \<Rightarrow> bool" where
  "overflows cap org_of wants ev s \<longleftrightarrow>
     sub_open s \<and> sub_org s = org_of ev \<and> wants (sub_key s) ev \<and> \<not> length (sub_queue s) < cap"

definition hub_dispatch :: "nat \<Rightarrow> ('e \<Rightarrow> string) \<Rightarrow> ('k \<Rightarrow> 'e \<Rightarrow> bool) \<Rightarrow> 'e \<Rightarrow> ('k, 'e) hub \<Rightarrow> ('k, 'e) hub" where
  "hub_dispatch cap org_of wants ev h =
     h\<lparr>hub_subs := map (offer cap org_of wants ev) (hub_subs h),
       hub_dropped := hub_dropped h + length (filter (overflows cap org_of wants ev) (hub_subs h))\<rparr>"

text \<open>The owner reading its channel: an entry, or nothing yet, or the closed channel.\<close>

datatype 'e recv = Got 'e | Blocked | Closed

definition hub_receive :: "nat \<Rightarrow> ('k, 'e) hub \<Rightarrow> 'e recv \<times> ('k, 'e) hub" where
  "hub_receive i h =
     (if \<not> i < length (hub_subs h) then (Blocked, h)
      else let s = hub_subs h ! i in
        case sub_queue s of
          [] \<Rightarrow> (if sub_open s then Blocked else Closed, h)
        | e # q \<Rightarrow> (Got e, h\<lparr>hub_subs := (hub_subs h)[i := s\<lparr>sub_queue := q\<rparr>]\<rparr>))"

definition hub_close :: "('k, 'e) hub \<Rightarrow> ('k, 'e) hub" where
  "hub_close h = (if hub_closed h then h
     else h\<lparr>hub_closed := True, hub_listening := False,
            hub_subs := map (\<lambda>s. s\<lparr>sub_open := False\<rparr>) (hub_subs h)\<rparr>)"

text \<open>One turn of \<open>run\<close>: a notification, a wait error (the listener ends), or the one-second timeout.\<close>

datatype wait_result = Notified string | WaitFailed | WaitTimeout

definition hub_run_step :: "(string \<Rightarrow> 'e option) \<Rightarrow> ('e \<Rightarrow> ('k, 'e) hub \<Rightarrow> ('k, 'e) hub) \<Rightarrow>
    wait_result \<Rightarrow> ('k, 'e) hub \<Rightarrow> ('k, 'e) hub" where
  "hub_run_step decode dispatch w h =
     (if \<not> hub_listening h then h
      else case w of
        Notified payload \<Rightarrow> (case decode payload of None \<Rightarrow> h | Some ev \<Rightarrow> dispatch ev h)
      | WaitFailed \<Rightarrow> h\<lparr>hub_listening := False\<rparr>
      | WaitTimeout \<Rightarrow> h)"

definition hub_subscribers :: "('k, 'e) hub \<Rightarrow> nat" where
  "hub_subscribers h = length (filter sub_open (hub_subs h))"

section \<open>Policy updates\<close>

record notification =
  nt_org :: string
  nt_agent :: string
  nt_hash :: string
  nt_version :: int
  nt_set :: string
  nt_published_at :: int

text \<open>\<open>time.Time\<close> in JSON: RFC 3339 with nanoseconds, written and read.\<close>

record time_libs =
  show_time :: "int \<Rightarrow> string"
  read_time :: "string \<Rightarrow> int option"

definition pf_buffer :: nat where
  "pf_buffer = 16"

definition pf_max_payload :: nat where
  "pf_max_payload = 8000"

definition pf_wants :: "string \<Rightarrow> notification \<Rightarrow> bool" where
  "pf_wants agent_name note \<longleftrightarrow> agent_name = nt_agent note"

type_synonym policy_hub = "(string, notification) hub"

definition pf_dispatch :: "notification \<Rightarrow> policy_hub \<Rightarrow> policy_hub" where
  "pf_dispatch = hub_dispatch pf_buffer nt_org pf_wants"

definition member_text :: "string \<Rightarrow> string \<Rightarrow> string" where
  "member_text k v = CHR 0x22 # k @ [CHR 0x22, CHR '':''] @ v"

definition pf_marshal :: "time_libs \<Rightarrow> notification \<Rightarrow> string" where
  "pf_marshal T n = ''{'' @ member_text ''org_id'' (json_string (nt_org n)) @ '','' @
     member_text ''agent_name'' (json_string (nt_agent n)) @ '','' @
     member_text ''policy_hash'' (json_string (nt_hash n)) @ '','' @
     member_text ''version'' (show_int (nt_version n)) @ '','' @
     member_text ''policy_set_name'' (json_string (nt_set n)) @ '','' @
     member_text ''published_at'' (json_string (show_time T (nt_published_at n))) @ ''}''"

definition dec_time :: "time_libs \<Rightarrow> int \<Rightarrow> json \<Rightarrow> int option" where
  "dec_time T acc v = (case v of JNull \<Rightarrow> Some acc | JStr s \<Rightarrow> read_time T s | _ \<Rightarrow> None)"

definition pf_unmarshal :: "time_libs \<Rightarrow> string \<Rightarrow> notification option" where
  "pf_unmarshal T payload =
     (case unmarshal_struct payload of
        None \<Rightarrow> None
      | Some ms \<Rightarrow>
          (case (field_string ''org_id'' ms, field_string ''agent_name'' ms, field_string ''policy_hash'' ms,
                 field_int ''version'' ms, field_string ''policy_set_name'' ms,
                 decode_field (dec_time T) ''published_at'' 0 ms) of
             (Some og, Some ag, Some ha, Some ve, Some se, Some pu) \<Rightarrow>
               Some \<lparr>nt_org = og, nt_agent = ag, nt_hash = ha, nt_version = ve, nt_set = se, nt_published_at = pu\<rparr>
           | _ \<Rightarrow> None))"

text \<open>
  \<open>Publish\<close>: the error, or the payload handed to \<open>pg_notify\<close>, whose own failure is \<open>pg_err\<close>.
\<close>

definition pf_publish :: "time_libs \<Rightarrow> int \<Rightarrow> string option \<Rightarrow> notification \<Rightarrow> string res" where
  "pf_publish T now pg_err note =
     (if nt_org note = [] then Inl (ErrText ''policyfeed: org_id required'')
      else if nt_agent note = [] then Inl (ErrText ''policyfeed: agent_name required'')
      else if nt_hash note = [] then Inl (ErrText ''policyfeed: policy_hash required'')
      else let note' = (if nt_published_at note = 0 then note\<lparr>nt_published_at := now\<rparr> else note);
               payload = pf_marshal T note'
           in if length payload > pf_max_payload then
                Inl (ErrText (''policyfeed: payload '' @ show_nat (length payload) @ '' bytes exceeds NOTIFY cap ('' @
                  show_nat pf_max_payload @ '')''))
              else case pg_err of
                Some e \<Rightarrow> Inl (ErrText (''policyfeed: pg_notify: '' @ e))
              | None \<Rightarrow> Inr payload)"

definition pf_run_step :: "time_libs \<Rightarrow> wait_result \<Rightarrow> policy_hub \<Rightarrow> policy_hub" where
  "pf_run_step T = hub_run_step (pf_unmarshal T) pf_dispatch"

section \<open>Live events\<close>

record live_event =
  le_org :: string
  le_type :: string
  le_agent :: string
  le_run :: string
  le_verdict :: string
  le_payload :: string

record live_filter =
  lf_agent :: string
  lf_tool :: string
  lf_verdict :: string

definition lf_buffer :: nat where
  "lf_buffer = 128"

definition lf_max_payload :: nat where
  "lf_max_payload = 8000"

definition filter_matches :: "live_filter \<Rightarrow> live_event \<Rightarrow> bool" where
  "filter_matches f ev =
     (if lf_agent f \<noteq> [] \<and> le_agent ev \<noteq> lf_agent f then False
      else if lf_verdict f \<noteq> [] \<and> le_verdict ev \<noteq> lf_verdict f then False
      else if lf_tool f \<noteq> [] then
        (case Option.bind (unmarshal_struct (le_payload ev)) (field_string ''target'') of
           None \<Rightarrow> False | Some t \<Rightarrow> t = lf_tool f)
      else True)"

type_synonym live_hub = "(live_filter, live_event) hub"

definition lf_dispatch :: "live_event \<Rightarrow> live_hub \<Rightarrow> live_hub" where
  "lf_dispatch = hub_dispatch lf_buffer le_org filter_matches"

definition lf_subscribe :: "string \<Rightarrow> live_filter \<Rightarrow> live_hub \<Rightarrow> nat \<times> live_hub" where
  "lf_subscribe = hub_subscribe"

definition lf_unsubscribe :: "nat \<Rightarrow> live_hub \<Rightarrow> live_hub" where
  "lf_unsubscribe = hub_unsubscribe"

definition lf_start :: "string option \<Rightarrow> string option \<Rightarrow> live_hub \<Rightarrow> string option \<times> live_hub" where
  "lf_start = hub_start"

definition lf_close :: "live_hub \<Rightarrow> live_hub" where
  "lf_close = hub_close"

definition lf_subscribers :: "live_hub \<Rightarrow> nat" where
  "lf_subscribers = hub_subscribers"

definition lf_unmarshal :: "string \<Rightarrow> live_event option" where
  "lf_unmarshal payload =
     (case (unmarshal_struct payload, raw_members payload) of
        (Some ms, Some raws) \<Rightarrow>
          (case (field_string ''org_id'' ms, field_string ''type'' ms, field_string ''agent'' ms,
                 field_string ''run'' ms, field_string ''verdict'' ms) of
             (Some og, Some ty, Some ag, Some ru, Some ve) \<Rightarrow>
               Some \<lparr>le_org = og, le_type = ty, le_agent = ag, le_run = ru, le_verdict = ve,
                     le_payload = field_raw ''payload'' raws\<rparr>
           | _ \<Rightarrow> None)
      | _ \<Rightarrow> None)"

text \<open>
  The encoder of a \<open>json.RawMessage\<close>: white space outside strings removed, \<open><\<close>, \<open>>\<close>, \<open>&\<close> and the two
  line separators escaped; an empty message is \<open>null\<close>.
\<close>

fun compact_json :: "bool \<Rightarrow> string \<Rightarrow> string" where
  "compact_json q [] = []"
| "compact_json q (c # s) =
     (if q then
        (if c = CHR 0x5C then (case s of [] \<Rightarrow> [c] | d # t \<Rightarrow> c # d # compact_json True t)
         else if c = CHR 0x22 then c # compact_json False s
         else if c = CHR ''<'' \<or> c = CHR ''>'' \<or> c = CHR ''&'' then u00 c @ compact_json True s
         else (case s of
             d # e # t \<Rightarrow>
               if c = CHR 0xE2 \<and> d = CHR 0x80 \<and> (e = CHR 0xA8 \<or> e = CHR 0xA9)
               then [CHR 0x5C, CHR ''u'', CHR ''2'', CHR ''0'', CHR ''2'', if e = CHR 0xA8 then CHR ''8'' else CHR ''9''] @ compact_json True t
               else c # compact_json True s
           | _ \<Rightarrow> c # compact_json True s))
      else if c = CHR 0x22 then c # compact_json True s
      else if is_ws c then compact_json False s
      else c # compact_json False s)"

definition optional_member :: "string \<Rightarrow> string \<Rightarrow> string" where
  "optional_member k v = (if v = [] then [] else '','' @ member_text k (json_string v))"

definition lf_marshal :: "live_event \<Rightarrow> string res" where
  "lf_marshal ev =
     (let raw = (if le_payload ev = [] then ''null'' else le_payload ev) in
      if json_parse raw = None then Inl (ErrText ''json: error calling MarshalJSON for type json.RawMessage'')
      else Inr (''{'' @ member_text ''org_id'' (json_string (le_org ev)) @ '','' @
             member_text ''type'' (json_string (le_type ev)) @ optional_member ''agent'' (le_agent ev) @
             optional_member ''run'' (le_run ev) @ optional_member ''verdict'' (le_verdict ev) @ '','' @
             member_text ''payload'' (compact_json False raw) @ ''}''))"

definition lf_publish :: "string option \<Rightarrow> live_event \<Rightarrow> string res" where
  "lf_publish pg_err ev =
     (if le_org ev = [] then Inl (ErrText ''livefeed: org_id required'')
      else if le_type ev \<noteq> ''intent'' \<and> le_type ev \<noteq> ''action'' then
        Inl (ErrText (''livefeed: unsupported event type '' @ go_quote (le_type ev)))
      else case lf_marshal ev of
        Inl e \<Rightarrow> Inl (ErrWrap ''livefeed: marshal: '' e [])
      | Inr payload \<Rightarrow>
          if length payload > lf_max_payload then
            Inl (ErrText (''livefeed: payload '' @ show_nat (length payload) @ '' bytes exceeds NOTIFY cap ('' @
              show_nat lf_max_payload @ '')''))
          else case pg_err of
            Some e \<Rightarrow> Inl (ErrText (''livefeed: pg_notify: '' @ e))
          | None \<Rightarrow> Inr payload)"

definition lf_run_step :: "wait_result \<Rightarrow> live_hub \<Rightarrow> live_hub" where
  "lf_run_step = hub_run_step lf_unmarshal lf_dispatch"

section \<open>A hub as a state machine\<close>

datatype ('k, 'e) hub_op =
    Subscribe string 'k | Unsubscribe nat | Dispatch 'e | Receive nat | CloseHub | StartHub | ListenerEnds

fun hub_step :: "('e \<Rightarrow> ('k, 'e) hub \<Rightarrow> ('k, 'e) hub) \<Rightarrow> ('k, 'e) hub_op \<Rightarrow> ('k, 'e) hub \<Rightarrow> ('k, 'e) hub" where
  "hub_step dispatch (Subscribe org k) h = snd (hub_subscribe org k h)"
| "hub_step dispatch (Unsubscribe i) h = hub_unsubscribe i h"
| "hub_step dispatch (Dispatch e) h = dispatch e h"
| "hub_step dispatch (Receive i) h = snd (hub_receive i h)"
| "hub_step dispatch CloseHub h = hub_close h"
| "hub_step dispatch StartHub h = snd (hub_start None None h)"
| "hub_step dispatch ListenerEnds h = h\<lparr>hub_listening := False\<rparr>"

inductive hub_reaches :: "('e \<Rightarrow> ('k, 'e) hub \<Rightarrow> ('k, 'e) hub) \<Rightarrow> ('k, 'e) hub \<Rightarrow> bool" for dispatch where
  start: "hub_reaches dispatch new_hub"
| step: "hub_reaches dispatch h \<Longrightarrow> hub_reaches dispatch (hub_step dispatch oper h)"

text \<open>A subscriber holds at most \<open>cap\<close> entries, all of its organization and wanted by its key.\<close>

definition sub_ok :: "nat \<Rightarrow> ('e \<Rightarrow> string) \<Rightarrow> ('k \<Rightarrow> 'e \<Rightarrow> bool) \<Rightarrow> ('k, 'e) subscriber \<Rightarrow> bool" where
  "sub_ok cap org_of wants s \<longleftrightarrow> length (sub_queue s) \<le> cap \<and>
     list_all (\<lambda>e. org_of e = sub_org s \<and> wants (sub_key s) e) (sub_queue s)"

definition hub_ok :: "nat \<Rightarrow> ('e \<Rightarrow> string) \<Rightarrow> ('k \<Rightarrow> 'e \<Rightarrow> bool) \<Rightarrow> ('k, 'e) hub \<Rightarrow> bool" where
  "hub_ok cap org_of wants h \<longleftrightarrow> list_all (sub_ok cap org_of wants) (hub_subs h) \<and>
     (if hub_closed h then hub_subscribers h = 0 else True)"

section \<open>Fan-out as an interface\<close>

text \<open>
  What a client of a hub relies on. \<open>queue i h\<close> is what subscription \<open>i\<close> can still read.
\<close>

locale fanout =
  fixes cap :: nat
    and dispatch :: "'e \<Rightarrow> 'h \<Rightarrow> 'h"
    and queue :: "nat \<Rightarrow> 'h \<Rightarrow> 'e list"
    and accepts :: "nat \<Rightarrow> 'h \<Rightarrow> 'e \<Rightarrow> bool"
  assumes accepts_dispatch: "accepts i (dispatch e h) = accepts i h"
    and queue_dispatch: "queue i (dispatch e h) =
      (if accepts i h e \<and> length (queue i h) < cap then queue i h @ [e] else queue i h)"
begin

lemma accepts_run: "accepts i (fold dispatch es h) = accepts i h"
  by (induction es arbitrary: h) (simp_all add: accepts_dispatch)

text \<open>Without reads, the first entries that fit are kept in order and the later ones dropped.\<close>

lemma queue_run:
  "length (queue i h) \<le> cap \<Longrightarrow>
     queue i (fold dispatch es h) = take cap (queue i h @ filter (accepts i h) es)"
proof (induction es arbitrary: h)
  case (Cons e es)
  show ?case
  proof (cases "accepts i h e \<and> length (queue i h) < cap")
    case True
    then have "length (queue i (dispatch e h)) \<le> cap" by (simp add: queue_dispatch)
    from Cons.IH [OF this] True show ?thesis by (simp add: queue_dispatch accepts_dispatch)
  next
    case False
    then have "length (queue i (dispatch e h)) \<le> cap" using Cons.prems by (simp add: queue_dispatch)
    from Cons.IH [OF this] False Cons.prems show ?thesis
      by (auto simp: queue_dispatch accepts_dispatch)
  qed
qed simp

lemma no_loss_below_cap:
  "length (queue i h) + length (filter (accepts i h) es) \<le> cap \<Longrightarrow>
     queue i (fold dispatch es h) = queue i h @ filter (accepts i h) es"
  using queue_run [of i h es] by simp

end

definition queue_at :: "nat \<Rightarrow> ('k, 'e) hub \<Rightarrow> 'e list" where
  "queue_at i h = (if i < length (hub_subs h) then sub_queue (hub_subs h ! i) else [])"

definition accepts_at :: "('e \<Rightarrow> string) \<Rightarrow> ('k \<Rightarrow> 'e \<Rightarrow> bool) \<Rightarrow> nat \<Rightarrow> ('k, 'e) hub \<Rightarrow> 'e \<Rightarrow> bool" where
  "accepts_at org_of wants i h e \<longleftrightarrow> i < length (hub_subs h) \<and> sub_open (hub_subs h ! i) \<and>
     sub_org (hub_subs h ! i) = org_of e \<and> wants (sub_key (hub_subs h ! i)) e"

lemma offer_fields [simp]:
  "sub_org (offer cap f w e s) = sub_org s" "sub_key (offer cap f w e s) = sub_key s"
  "sub_open (offer cap f w e s) = sub_open s"
  by (simp_all add: offer_def)

lemma sub_queue_offer: "sub_queue (offer cap f w e s) =
    (if sub_open s \<and> sub_org s = f e \<and> w (sub_key s) e \<and> length (sub_queue s) < cap
     then sub_queue s @ [e] else sub_queue s)"
  by (simp add: offer_def)

lemma fanout_hub: "fanout cap (hub_dispatch cap f w) queue_at (accepts_at f w)"
  by unfold_locales (auto simp: hub_dispatch_def queue_at_def accepts_at_def sub_queue_offer fun_eq_iff)

interpretation policy_fanout: fanout pf_buffer pf_dispatch queue_at "accepts_at nt_org pf_wants"
  unfolding pf_dispatch_def by (rule fanout_hub)

interpretation live_fanout: fanout lf_buffer lf_dispatch queue_at "accepts_at le_org filter_matches"
  unfolding lf_dispatch_def by (rule fanout_hub)

section \<open>Reachable hubs\<close>

lemma sub_ok_offer: "sub_ok cap f w s \<Longrightarrow> sub_ok cap f w (offer cap f w e s)"
  by (auto simp: sub_ok_def sub_queue_offer)

lemma sub_ok_field [simp]: "sub_ok cap f w (s\<lparr>sub_open := b\<rparr>) = sub_ok cap f w s"
  by (simp add: sub_ok_def)

lemma hub_subscribers_0: "hub_subscribers h = 0 \<longleftrightarrow> list_all (\<lambda>s. \<not> sub_open s) (hub_subs h)"
  by (auto simp: hub_subscribers_def filter_empty_conv list_all_iff)

lemma list_all_upd: "list_all P xs \<Longrightarrow> P x \<Longrightarrow> list_all P (xs[i := x])"
  using set_update_subset_insert [of xs i x] by (auto simp: list_all_iff)

lemma list_all_nth_in: "list_all P xs \<Longrightarrow> i < length xs \<Longrightarrow> P (xs ! i)"
  by (simp add: list_all_length)

lemma hub_ok_step:
  assumes "hub_ok cap f w h"
  shows "hub_ok cap f w (hub_step (hub_dispatch cap f w) oper h)"
proof (cases oper)
  case (Dispatch e)
  with assms show ?thesis
    by (auto simp: hub_ok_def hub_dispatch_def hub_subscribers_0 list_all_iff sub_ok_offer)
next
  case (Receive i)
  show ?thesis
  proof (cases "i < length (hub_subs h)")
    case True
    have ok: "sub_ok cap f w (hub_subs h ! i)" using assms True by (auto simp: hub_ok_def list_all_nth_in)
    have cl: "list_all (\<lambda>s. \<not> sub_open s) (hub_subs h) \<Longrightarrow> \<not> sub_open (hub_subs h ! i)"
      using True by (simp add: list_all_length)
    with ok assms True Receive show ?thesis
      by (auto simp: hub_ok_def hub_receive_def Let_def sub_ok_def hub_subscribers_0 list_all_nth_in
          intro!: list_all_upd split: list.splits)
  qed (use assms Receive in \<open>simp add: hub_receive_def\<close>)
next
  case (Unsubscribe i)
  with assms show ?thesis
    by (auto simp: hub_ok_def hub_unsubscribe_def hub_subscribers_0 list_all_nth_in intro!: list_all_upd)
next
  case CloseHub
  with assms show ?thesis by (auto simp: hub_ok_def hub_close_def hub_subscribers_0 list_all_iff)
next
  case (Subscribe og k)
  with assms show ?thesis by (auto simp: hub_ok_def hub_subscribe_def hub_subscribers_0 sub_ok_def)
qed (use assms in \<open>auto simp: hub_ok_def hub_start_def hub_subscribers_def\<close>)

lemma hub_reaches_ok: "hub_reaches (hub_dispatch cap f w) h \<Longrightarrow> hub_ok cap f w h"
proof (induction rule: hub_reaches.induct)
  case start
  show ?case by (simp add: hub_ok_def new_hub_def hub_subscribers_def)
qed (rule hub_ok_step)

section \<open>The wire format of policy updates\<close>

definition plain_text :: "string \<Rightarrow> bool" where
  "plain_text k \<longleftrightarrow> list_all (\<lambda>c. c \<noteq> CHR 0x22 \<and> c \<noteq> CHR 0x5C \<and> \<not> (of_char c :: nat) < 32) k"

lemma p_str_plain_text: "plain_text k \<Longrightarrow> p_str (k @ CHR 0x22 # r) = Some (k, r)"
  by (induction k) (auto simp: plain_text_def p_str_plain)

lemma skip_ws_head: "\<not> is_ws c \<Longrightarrow> skip_ws (c # r) = c # r"
  by (simp add: skip_ws_def)

lemma p_key_member:
  assumes "plain_text k" "v = c # v'" "\<not> is_ws c"
  shows "p_key (member_text k v @ r) = Some (k, v @ r)"
proof -
  have q: "\<not> is_ws (CHR 0x22)" "\<not> is_ws (CHR '':'')" by (simp_all add: is_ws_def)
  show ?thesis
    using p_str_plain_text [OF assms(1)] assms(2,3) q
    by (simp add: p_key_def member_text_def skip_ws_head)
qed

lemma p_val_string: "p_val (Suc n) (json_string s @ r) = Some (JStr s, r)"
  using p_str_quote [of s r] by (simp add: json_string_def skip_ws_def is_ws_def)

lemma p_val_int:
  assumes "\<not> is_num_char d"
  shows "p_val (Suc n) (show_int i @ d # r) = Some (JNum (show_int i), d # r)"
proof -
  obtain c s where cs: "show_int i = c # s"
    using show_nat_not_Nil by (cases "show_int i") (auto simp: show_int_def split: if_splits)
  with show_int_num_chars [of i] have "is_num_char c" by simp
  then have "\<not> is_ws c" "c \<noteq> CHR ''{''" "c \<noteq> CHR ''[''" "c \<noteq> CHR 0x22"
    by (auto simp: is_num_char_def is_digit_def is_ws_def)
  with p_literal_int [OF assms, of i r] cs show ?thesis by (simp add: skip_ws_head)
qed

lemma p_mems_member:
  assumes "plain_text k" "v = c # v'" "\<not> is_ws c" "p_val n (v @ d # r) = Some (j, d # r)"
    and "d = CHR '','' \<or> d = CHR ''}''"
  shows "p_mems (Suc n) (member_text k v @ d # r) =
    (if d = CHR ''}'' then Some ([(k, j)], r) else map_option (\<lambda>(ms, z). ((k, j) # ms, z)) (p_mems n r))"
  using assms p_key_member [OF assms(1-3), of "d # r"] by (auto simp: skip_ws_def is_ws_def)

lemma json_string_head: "\<exists>v'. json_string s = CHR 0x22 # v'" "\<not> is_ws (CHR 0x22)"
  by (simp_all add: json_string_def is_ws_def)

lemma show_int_head: "\<exists>c v'. show_int i = c # v' \<and> \<not> is_ws c"
proof -
  obtain c s where cs: "show_int i = c # s"
    using show_nat_not_Nil by (cases "show_int i") (auto simp: show_int_def split: if_splits)
  with show_int_num_chars [of i] have "is_num_char c" by simp
  then have "\<not> is_ws c" by (auto simp: is_num_char_def is_digit_def is_ws_def)
  with cs show ?thesis by blast
qed

lemma p_mems_string:
  assumes "plain_text k" "d = CHR '','' \<or> d = CHR ''}''"
  shows "p_mems (Suc (Suc n)) (member_text k (json_string s) @ d # r) =
    (if d = CHR ''}'' then Some ([(k, JStr s)], r) else map_option (\<lambda>(ms, z). ((k, JStr s) # ms, z)) (p_mems (Suc n) r))"
proof -
  obtain v' where "json_string s = CHR 0x22 # v'" using json_string_head(1) by blast
  from p_mems_member [OF assms(1) this json_string_head(2) p_val_string assms(2)] show ?thesis .
qed

lemma p_mems_int:
  assumes "plain_text k"
  shows "p_mems (Suc (Suc n)) (member_text k (show_int i) @ CHR '','' # r) =
    map_option (\<lambda>(ms, z). ((k, JNum (show_int i)) # ms, z)) (p_mems (Suc n) r)"
proof -
  obtain c v' where c: "show_int i = c # v'" "\<not> is_ws c" using show_int_head by blast
  have "\<not> is_num_char (CHR '','')" by (simp add: is_num_char_def is_digit_def)
  from p_mems_member [OF assms c p_val_int [OF this]] show ?thesis by simp
qed

lemma plain_keys:
  "plain_text ''org_id''" "plain_text ''agent_name''" "plain_text ''policy_hash''" "plain_text ''version''"
  "plain_text ''policy_set_name''" "plain_text ''published_at''"
  by (simp_all add: plain_text_def)

lemma p_val_object:
  "p_val (Suc n) (CHR ''{'' # member_text k v @ r) = map_option (\<lambda>(ms, z). (JObj ms, z)) (p_mems n (member_text k v @ r))"
  by (simp add: skip_ws_def is_ws_def member_text_def)

lemma pf_members:
  "json_parse (pf_marshal T n) = Some (JObj
     [(''org_id'', JStr (nt_org n)), (''agent_name'', JStr (nt_agent n)), (''policy_hash'', JStr (nt_hash n)),
      (''version'', JNum (show_int (nt_version n))), (''policy_set_name'', JStr (nt_set n)),
      (''published_at'', JStr (show_time T (nt_published_at n)))])"
proof -
  have "8 \<le> json_fuel (pf_marshal T n)" by (simp add: pf_marshal_def member_text_def json_fuel_def)
  then obtain k where "json_fuel (pf_marshal T n) = 8 + k" using le_Suc_ex by blast
  then have k: "json_fuel (pf_marshal T n) = Suc (Suc (Suc (Suc (Suc (Suc (Suc (Suc k)))))))" by simp
  have "p_val (json_fuel (pf_marshal T n)) (pf_marshal T n) = Some (JObj
     [(''org_id'', JStr (nt_org n)), (''agent_name'', JStr (nt_agent n)), (''policy_hash'', JStr (nt_hash n)),
      (''version'', JNum (show_int (nt_version n))), (''policy_set_name'', JStr (nt_set n)),
      (''published_at'', JStr (show_time T (nt_published_at n)))], [])"
    unfolding k
    by (simp add: pf_marshal_def p_val_object p_mems_string p_mems_int plain_keys del: p_mems.simps p_val.simps)
  then show ?thesis by (simp add: json_parse_def skip_ws_def)
qed

lemma pf_roundtrip:
  assumes "\<And>t. read_time T (show_time T t) = Some t" "- (2 ^ 63) \<le> nt_version n" "nt_version n < 2 ^ 63"
  shows "pf_unmarshal T (pf_marshal T n) = Some n"
  using atoi_show_int [OF assms(2,3)]
  by (simp add: pf_unmarshal_def unmarshal_struct_def as_members_def pf_members field_string_def field_int_def
      dec_string_def dec_int_def dec_time_def equal_fold_def to_lower_def lower_char_def assms(1))

section \<open>Properties\<close>

text \<open>
  In every state a policy hub can reach, however subscriptions, publications, reads and shutdown
  interleave, a subscriber's channel holds at most its 16 entries, and only notifications for its own
  organization and agent; a closed hub has no open subscription left.
\<close>

lemma policy_hub_invariant:
  assumes "hub_reaches pf_dispatch h"
  shows "hub_ok pf_buffer nt_org pf_wants h"
  using assms unfolding pf_dispatch_def by (rule hub_reaches_ok)

definition demo_note :: notification where
  "demo_note = \<lparr>nt_org = ''a'', nt_agent = ''bot'', nt_hash = ''h'', nt_version = 3, nt_set = ''base'',
     nt_published_at = 7\<rparr>"

lemma policy_hub_invariant_witness:
  "hub_ok pf_buffer nt_org pf_wants (pf_dispatch demo_note (snd (hub_subscribe ''a'' ''bot'' new_hub)))"
proof (rule policy_hub_invariant)
  have "hub_reaches pf_dispatch (hub_step pf_dispatch (Dispatch demo_note)
      (hub_step pf_dispatch (Subscribe ''a'' ''bot'') new_hub))"
    by (intro hub_reaches.intros)
  then show "hub_reaches pf_dispatch (pf_dispatch demo_note (snd (hub_subscribe ''a'' ''bot'' new_hub)))" by simp
qed

text \<open>
  Between two reads a live subscriber receives the events of its organization that pass its
  filter, in order and without duplicates, up to the capacity of its channel; what does not fit is
  the newest, which is dropped.
\<close>

lemma live_queue_keeps_oldest:
  assumes "length (queue_at i h) \<le> lf_buffer"
  shows "queue_at i (fold lf_dispatch es h) =
    take lf_buffer (queue_at i h @ filter (accepts_at le_org filter_matches i h) es)"
  by (rule live_fanout.queue_run [OF assms])

lemma live_queue_keeps_oldest_witness:
  "queue_at 0 (fold lf_dispatch [] (new_hub :: live_hub)) =
    take lf_buffer (queue_at 0 (new_hub :: live_hub) @ filter (accepts_at le_org filter_matches 0 new_hub) [])"
  by (rule live_queue_keeps_oldest) (simp add: queue_at_def new_hub_def)

text \<open>The time library of the examples writes nanoseconds as a number.\<close>

definition demo_times :: time_libs where
  "demo_times = \<lparr>show_time = show_int, read_time = (\<lambda>s. case s of [] \<Rightarrow> None | c # r \<Rightarrow>
     if c = CHR ''-'' then Some (- int (nat_of_digits r)) else Some (int (nat_of_digits s)))\<rparr>"

lemma demo_times_roundtrip: "read_time demo_times (show_time demo_times t) = Some t"
proof -
  obtain c s where cs: "show_nat (nat t) = c # s" "is_digit c" using show_nat_head by blast
  have "c \<noteq> CHR ''-''" using cs(2) not_digit_sign by metis
  with cs nat_of_digits_show [of "nat t"] show ?thesis by (auto simp: demo_times_def show_int_def)
qed

end
