(* ===== verification/Auth.thy ===== *)
theory Auth
  imports Middleware Feeds
begin

text \<open>
  \<open>internal/auth\<close> and the signed flow cookie of \<open>internal/api/oidc_handlers.go\<close>: the three providers,
  what they accept and issue, base64url, and the cookie that binds an OIDC callback to the login that
  opened it. The JWT library and bcrypt are parameters; \<open>now\<close> is the clock in nanoseconds.
\<close>

section \<open>Modes and libraries\<close>

datatype auth_mode = ModeLocal | ModeSupabase | ModeOIDC

definition parse_mode :: "string \<Rightarrow> auth_mode res" where
  "parse_mode s =
     (if s = ''local'' then Inr ModeLocal
      else if s = ''supabase'' then Inr ModeSupabase
      else if s = ''oidc'' then Inr ModeOIDC
      else if s = [] then Inl (ErrText ''RELIC_AUTH_MODE is required (one of: local, supabase, oidc)'')
      else Inl (ErrText (''unknown RELIC_AUTH_MODE '' @ go_quote s @ '' (expected: local, supabase, oidc)'')))"

text \<open>
  \<open>jwt_parse token key issuer audience now\<close> is \<open>ParseWithClaims\<close> with HS256 as the only method (an
  empty issuer or audience is not checked), \<open>jwt_sign claims key\<close> is \<open>SignedString\<close>.
\<close>

record auth_libs =
  jwt_parse :: "string \<Rightarrow> string \<Rightarrow> string \<Rightarrow> string \<Rightarrow> int \<Rightarrow> string + (string \<rightharpoonup> json)"
  jwt_sign :: "(string \<times> json) list \<Rightarrow> string \<Rightarrow> string res"
  bcrypt_generate :: "string \<Rightarrow> string res"
  bcrypt_compare :: "string \<Rightarrow> string \<Rightarrow> go_error option"
  au_hmac :: "string \<Rightarrow> string \<Rightarrow> string"
  au_sha256 :: "string \<Rightarrow> string"

definition err_invalid_token :: go_error where
  "err_invalid_token = Sentinel ''invalid token''"

definition err_issue_unsupported :: go_error where
  "err_issue_unsupported = Sentinel ''token issuance not supported in this auth mode''"

section \<open>Claims\<close>

definition claim_string :: "string \<Rightarrow> (string \<rightharpoonup> json) \<Rightarrow> string" where
  "claim_string k m = (case m k of Some (JStr s) \<Rightarrow> s | _ \<Rightarrow> [])"

definition metadata_org :: "(string \<rightharpoonup> json) \<Rightarrow> string" where
  "metadata_org m = (case m ''app_metadata'' of Some (JObj kvs) \<Rightarrow> claim_string ''org_id'' (go_map kvs) | _ \<Rightarrow> [])"

definition claims_of :: "(string \<rightharpoonup> json) \<Rightarrow> claims" where
  "claims_of m = \<lparr>cl_user = claim_string ''sub'' m, cl_org = metadata_org m, cl_email = claim_string ''email'' m\<rparr>"

definition unix_seconds :: "int \<Rightarrow> int" where
  "unix_seconds t = t div 1000000000"

definition session_claims :: "int \<Rightarrow> int \<Rightarrow> claims \<Rightarrow> (string \<times> json) list" where
  "session_claims now ttl c =
     [(''sub'', JStr (cl_user c)), (''email'', JStr (cl_email c)), (''iat'', JInt (unix_seconds now)),
      (''exp'', JInt (unix_seconds (now + ttl))), (''app_metadata'', JObj [(''org_id'', JStr (cl_org c))])]"

definition day_nanos :: int where
  "day_nanos = 24 * 3600 * 1000000000"

section \<open>Local passwords\<close>

record local_provider =
  lp_secret :: string
  lp_ttl :: int
  lp_issuer :: string
  lp_audience :: string

definition new_local_provider :: "string \<Rightarrow> int \<Rightarrow> string \<Rightarrow> string \<Rightarrow> local_provider res" where
  "new_local_provider secret ttl issuer audience =
     (if secret = [] then Inl (ErrText ''RELIC_JWT_SECRET is required for RELIC_AUTH_MODE=local'')
      else Inr \<lparr>lp_secret = secret, lp_ttl = (if ttl = 0 then day_nanos else ttl),
        lp_issuer = issuer, lp_audience = audience\<rparr>)"

definition local_verify :: "auth_libs \<Rightarrow> local_provider \<Rightarrow> int \<Rightarrow> string \<Rightarrow> claims res" where
  "local_verify J p now token =
     (case jwt_parse J token (lp_secret p) (lp_issuer p) (lp_audience p) now of
        Inl e \<Rightarrow> Inl (ErrWrap [] err_invalid_token ('': '' @ e))
      | Inr m \<Rightarrow> Inr (claims_of m))"

definition local_issue :: "auth_libs \<Rightarrow> local_provider \<Rightarrow> int \<Rightarrow> claims \<Rightarrow> string res" where
  "local_issue J p now c =
     (if cl_user c = [] \<or> cl_org c = [] then Inl (ErrText ''issue token: UserID and OrgID are both required'')
      else jwt_sign J (session_claims now (lp_ttl p) c @
        (if lp_issuer p \<noteq> [] then [(''iss'', JStr (lp_issuer p))] else []) @
        (if lp_audience p \<noteq> [] then [(''aud'', JStr (lp_audience p))] else [])) (lp_secret p))"

definition hash_password :: "auth_libs \<Rightarrow> string \<Rightarrow> string res" where
  "hash_password J plaintext =
     (if length plaintext < 8 then Inl (ErrText ''password must be at least 8 characters'')
      else case bcrypt_generate J plaintext of
        Inl e \<Rightarrow> Inl (ErrWrap ''bcrypt: '' e [])
      | Inr h \<Rightarrow> Inr h)"

definition verify_password :: "auth_libs \<Rightarrow> string \<Rightarrow> string \<Rightarrow> go_error option" where
  "verify_password J hash plaintext =
     (if hash = [] then Some (ErrText ''no password set for this account'')
      else bcrypt_compare J hash plaintext)"

section \<open>Supabase\<close>

record supabase_provider =
  sp_secret :: string
  sp_issuer :: string
  sp_audience :: string

text \<open>\<open>issuer\<close> and \<open>audience\<close> are RELIC_JWT_ISSUER and RELIC_JWT_AUDIENCE.\<close>

definition new_supabase_provider :: "string \<Rightarrow> string \<Rightarrow> string \<Rightarrow> supabase_provider res" where
  "new_supabase_provider secret issuer audience =
     (if secret = [] then Inl (ErrText ''SUPABASE_JWT_SECRET is required for RELIC_AUTH_MODE=supabase'')
      else Inr \<lparr>sp_secret = secret, sp_issuer = issuer, sp_audience = audience\<rparr>)"

definition supabase_verify :: "auth_libs \<Rightarrow> supabase_provider \<Rightarrow> int \<Rightarrow> string \<Rightarrow> claims res" where
  "supabase_verify J p now token =
     (case jwt_parse J token (sp_secret p) (sp_issuer p) (sp_audience p) now of
        Inl e \<Rightarrow> Inl (ErrWrap [] err_invalid_token ('': '' @ e))
      | Inr m \<Rightarrow>
          let c = claims_of m in
          Inr (if cl_org c = [] then c\<lparr>cl_org := claim_string ''org_id'' m\<rparr> else c))"

definition supabase_issue :: "claims \<Rightarrow> string res" where
  "supabase_issue c = Inl err_issue_unsupported"

section \<open>OIDC\<close>

record oidc_config =
  oc_discovery :: string
  oc_client_id :: string
  oc_redirect :: string
  oc_default_org :: string
  oc_default_role :: string
  oc_secret :: string
  oc_ttl :: int

record oidc_claims =
  oi_subject :: string
  oi_email :: string
  oi_email_verified :: bool
  oi_name :: string

text \<open>
  What \<open>Exchange\<close> and the ID-token verifier give for a code and a PKCE verifier: a failure of the
  exchange, no id_token, a token that fails verification, or its nonce and claims.
\<close>

datatype idp_answer =
    ExchangeFailed string | NoIdToken | BadIdToken string
  | IdToken string "oidc_claims option"

record oidc_provider =
  op_config :: oidc_config
  op_key :: string
  op_ttl :: int
  op_default_org :: string
  op_default_role :: string
  op_exchange :: "string \<Rightarrow> string \<Rightarrow> idp_answer"
  op_auth_url :: "string \<Rightarrow> (string \<times> string) list \<Rightarrow> string"

definition normalize_issuer :: "string \<Rightarrow> string" where
  "normalize_issuer s = trim_suffix (trim_suffix (trim_space s) ''/'') ''/.well-known/openid-configuration''"

text \<open>The identity provider's URL carries the state, the nonce and the S256 challenge of PKCE.\<close>

definition auth_code_url :: "oidc_provider \<Rightarrow> string \<Rightarrow> string \<Rightarrow> string \<Rightarrow> string" where
  "auth_code_url p state_text nonce challenge = op_auth_url p state_text
     [(''nonce'', nonce), (''code_challenge'', challenge), (''code_challenge_method'', ''S256'')]"

text \<open>
  \<open>discover\<close> is \<open>oidc.NewProvider\<close>: its error, or the exchange and the authorization URL of the issuer,
  which takes the state and further parameters.
\<close>

definition new_oidc_provider ::
  "(string \<Rightarrow> string + (string \<Rightarrow> string \<Rightarrow> idp_answer) \<times> (string \<Rightarrow> (string \<times> string) list \<Rightarrow> string)) \<Rightarrow>
    oidc_config \<Rightarrow> oidc_provider res" where
  "new_oidc_provider discover cfg =
     (if oc_discovery cfg = [] then Inl (ErrText ''RELIC_OIDC_DISCOVERY_URL is required'')
      else if oc_client_id cfg = [] then Inl (ErrText ''RELIC_OIDC_CLIENT_ID is required'')
      else if oc_redirect cfg = [] then Inl (ErrText ''RELIC_OIDC_REDIRECT_URL is required'')
      else if oc_secret cfg = [] then
        Inl (ErrText ''RELIC_JWT_SECRET is required even in OIDC mode (signs session tokens)'')
      else case discover (normalize_issuer (oc_discovery cfg)) of
        Inl e \<Rightarrow> Inl (ErrText (''oidc discovery: '' @ e))
      | Inr (ex, url) \<Rightarrow>
          Inr \<lparr>op_config = cfg, op_key = oc_secret cfg,
            op_ttl = (if oc_ttl cfg = 0 then day_nanos else oc_ttl cfg),
            op_default_org = oc_default_org cfg,
            op_default_role = (if oc_default_role cfg = [] then ''member'' else oc_default_role cfg),
            op_exchange = ex, op_auth_url = url\<rparr>)"

definition oidc_verify :: "auth_libs \<Rightarrow> oidc_provider \<Rightarrow> int \<Rightarrow> string \<Rightarrow> claims res" where
  "oidc_verify J p now token =
     (case jwt_parse J token (op_key p) [] [] now of
        Inl e \<Rightarrow> Inl (ErrWrap [] err_invalid_token ('': '' @ e))
      | Inr m \<Rightarrow> Inr (claims_of m))"

definition oidc_issue :: "auth_libs \<Rightarrow> oidc_provider \<Rightarrow> int \<Rightarrow> claims \<Rightarrow> string res" where
  "oidc_issue J p now c =
     (if cl_user c = [] \<or> cl_org c = [] then Inl (ErrText ''issue token: UserID and OrgID are both required'')
      else jwt_sign J (session_claims now (op_ttl p) c) (op_key p))"

definition exchange_and_verify :: "oidc_provider \<Rightarrow> string \<Rightarrow> string \<Rightarrow> string \<Rightarrow> oidc_claims res" where
  "exchange_and_verify p code verifier nonce =
     (case op_exchange p code verifier of
        ExchangeFailed e \<Rightarrow> Inl (ErrText (''token exchange: '' @ e))
      | NoIdToken \<Rightarrow> Inl (ErrText ''token response missing id_token'')
      | BadIdToken e \<Rightarrow> Inl (ErrText (''verify id_token: '' @ e))
      | IdToken n cs \<Rightarrow>
          if nonce \<noteq> [] \<and> n \<noteq> nonce then Inl (ErrText ''nonce mismatch'')
          else case cs of
            None \<Rightarrow> Inl (ErrText ''decode id_token claims: not an object of that shape'')
          | Some c \<Rightarrow> if oi_subject c = [] then Inl (ErrText ''id_token missing sub claim'') else Inr c)"

definition provider_tag :: "oidc_provider \<Rightarrow> string" where
  "provider_tag p = ''oidc:'' @ normalize_issuer (oc_discovery (op_config p))"

section \<open>The configured provider\<close>

datatype auth_provider = LocalAuth local_provider | SupabaseAuth supabase_provider | OidcAuth oidc_provider

fun provider_mode :: "auth_provider \<Rightarrow> auth_mode" where
  "provider_mode (LocalAuth p) = ModeLocal"
| "provider_mode (SupabaseAuth p) = ModeSupabase"
| "provider_mode (OidcAuth p) = ModeOIDC"

fun provider_verify :: "auth_libs \<Rightarrow> auth_provider \<Rightarrow> int \<Rightarrow> string \<Rightarrow> claims res" where
  "provider_verify J (LocalAuth p) now t = local_verify J p now t"
| "provider_verify J (SupabaseAuth p) now t = supabase_verify J p now t"
| "provider_verify J (OidcAuth p) now t = oidc_verify J p now t"

fun provider_issue :: "auth_libs \<Rightarrow> auth_provider \<Rightarrow> int \<Rightarrow> claims \<Rightarrow> string res" where
  "provider_issue J (LocalAuth p) now c = local_issue J p now c"
| "provider_issue J (SupabaseAuth p) now c = supabase_issue c"
| "provider_issue J (OidcAuth p) now c = oidc_issue J p now c"

section \<open>Issued tokens verify\<close>

fun provider_ttl :: "auth_provider \<Rightarrow> int" where
  "provider_ttl (LocalAuth p) = lp_ttl p"
| "provider_ttl (SupabaseAuth p) = 0"
| "provider_ttl (OidcAuth p) = op_ttl p"

text \<open>
  What the JWT library documents: a token signed under a key parses under it, while \<open>exp\<close> lies in the
  future and the issuer and audience asked for are the ones it carries, to claims that read the same.
\<close>

definition carries_claim :: "string \<Rightarrow> string \<Rightarrow> (string \<times> json) list \<Rightarrow> bool" where
  "carries_claim k v cs \<longleftrightarrow> v = [] \<or> map_of cs k = Some (JStr v)"

definition jwt_accepts :: "auth_libs \<Rightarrow> bool" where
  "jwt_accepts J \<longleftrightarrow> (\<forall>cs key tok issuer audience now e.
     jwt_sign J cs key = Inr tok \<longrightarrow> map_of cs ''exp'' = Some (JInt e) \<longrightarrow> unix_seconds now < e \<longrightarrow>
     carries_claim ''iss'' issuer cs \<longrightarrow> carries_claim ''aud'' audience cs \<longrightarrow>
     (\<exists>m. jwt_parse J tok key issuer audience now = Inr m \<and> claims_of m = claims_of (map_of cs) \<and>
          claim_string ''org_id'' m = claim_string ''org_id'' (map_of cs)))"

lemma session_claims_read:
  "claims_of (map_of (session_claims now ttl c @ extra)) = c"
  "map_of (session_claims now ttl c @ extra) ''exp'' = Some (JInt (unix_seconds (now + ttl)))"
  by (simp_all add: session_claims_def claims_of_def claim_string_def metadata_org_def go_map_def)

lemma jwt_acceptsD:
  assumes "jwt_accepts J" "jwt_sign J (session_claims now ttl c @ extra) key = Inr tok"
    and "unix_seconds t < unix_seconds (now + ttl)"
    and "carries_claim ''iss'' issuer (session_claims now ttl c @ extra)"
    and "carries_claim ''aud'' audience (session_claims now ttl c @ extra)"
  shows "\<exists>m. jwt_parse J tok key issuer audience t = Inr m \<and> claims_of m = c"
  using assms session_claims_read [of now ttl c extra] unfolding jwt_accepts_def by metis

text \<open>
  The interface \<open>Provider\<close>: what the middleware and the login rely on, whichever adapter is configured. A
  session token is worth the claims it was issued for: a provider that issues tokens refuses claims
  without a user or an organization, and what it issues it verifies, until it expires, to those claims.
  \<open>sound\<close> says that the JWT library behind it does what it documents.
\<close>

locale token_provider =
  fixes sound :: bool and verify :: "int \<Rightarrow> string \<Rightarrow> claims res" and issue :: "int \<Rightarrow> claims \<Rightarrow> string res" and ttl :: int
  assumes issued_complete: "issue now c = Inr tok \<Longrightarrow> cl_user c \<noteq> [] \<and> cl_org c \<noteq> []"
    and issued_verifies: "sound \<Longrightarrow> issue now c = Inr tok \<Longrightarrow> unix_seconds t < unix_seconds (now + ttl) \<Longrightarrow> verify t tok = Inr c"
begin

text \<open>The client's side: a request that bears an issued token runs as the user it was issued for.\<close>

lemma issued_authenticates:
  assumes "sound" "issue now c = Inr tok" "unix_seconds t < unix_seconds (now + ttl)"
    and "header_get ''Authorization'' r = ''Bearer '' @ tok" "\<not> has_prefix tok ''rk_''" "check tok w = verify t tok"
  shows "auth_middleware validate check nxt r w = nxt (r\<lparr>rq_ctx_org := cl_org c, rq_ctx_user := cl_user c\<rparr>) w"
proof -
  have h: "header_get ''Authorization'' r = ''Bearer'' @ CHR '' '' # tok" using assms(4) by simp
  have f: "equal_fold ''Bearer'' ''Bearer''" by (simp add: equal_fold_def)
  have v: "check tok w = Inr c" using assms(6) issued_verifies [OF assms(1-3)] by simp
  from authenticated_passes [OF by_token [OF h f assms(5), where validate = validate and verify = check, OF v], of nxt]
  show ?thesis using issued_complete [OF assms(2)] by simp
qed

end

interpretation local_tokens: token_provider "jwt_accepts J" "local_verify J p" "local_issue J p" "lp_ttl p" for J p
proof unfold_locales
  fix now c tok t
  assume i: "local_issue J p now c = Inr tok"
  then show "cl_user c \<noteq> [] \<and> cl_org c \<noteq> []" by (auto simp: local_issue_def split: if_splits)
  let ?x = "(if lp_issuer p \<noteq> [] then [(''iss'', JStr (lp_issuer p))] else []) @
    (if lp_audience p \<noteq> [] then [(''aud'', JStr (lp_audience p))] else [])"
  from i have s: "jwt_sign J (session_claims now (lp_ttl p) c @ ?x) (lp_secret p) = Inr tok"
    by (auto simp: local_issue_def split: if_splits)
  have "carries_claim ''iss'' (lp_issuer p) (session_claims now (lp_ttl p) c @ ?x)"
    "carries_claim ''aud'' (lp_audience p) (session_claims now (lp_ttl p) c @ ?x)"
    by (simp_all add: carries_claim_def session_claims_def)
  from jwt_acceptsD [OF _ s _ this, of t]
  show "jwt_accepts J \<Longrightarrow> unix_seconds t < unix_seconds (now + lp_ttl p) \<Longrightarrow> local_verify J p t tok = Inr c"
    by (auto simp: local_verify_def)
qed

interpretation oidc_tokens: token_provider "jwt_accepts J" "oidc_verify J p" "oidc_issue J p" "op_ttl p" for J p
proof unfold_locales
  fix now c tok t
  assume i: "oidc_issue J p now c = Inr tok"
  then show "cl_user c \<noteq> [] \<and> cl_org c \<noteq> []" by (auto simp: oidc_issue_def split: if_splits)
  from i have s: "jwt_sign J (session_claims now (op_ttl p) c @ []) (op_key p) = Inr tok"
    by (auto simp: oidc_issue_def split: if_splits)
  have "carries_claim k [] cs" for k cs by (simp add: carries_claim_def)
  from jwt_acceptsD [OF _ s _ this this, of t]
  show "jwt_accepts J \<Longrightarrow> unix_seconds t < unix_seconds (now + op_ttl p) \<Longrightarrow> oidc_verify J p t tok = Inr c"
    by (auto simp: oidc_verify_def)
qed

text \<open>The configured provider is one of them, or Supabase, which issues nothing.\<close>

interpretation sessions: token_provider "jwt_accepts J" "provider_verify J P" "provider_issue J P" "provider_ttl P" for J P
proof unfold_locales
  fix now c tok t
  assume "provider_issue J P now c = Inr tok"
  then show "cl_user c \<noteq> [] \<and> cl_org c \<noteq> []"
    and "jwt_accepts J \<Longrightarrow> unix_seconds t < unix_seconds (now + provider_ttl P) \<Longrightarrow> provider_verify J P t tok = Inr c"
    using local_tokens.issued_complete oidc_tokens.issued_complete local_tokens.issued_verifies oidc_tokens.issued_verifies
    by (cases P; auto simp: supabase_issue_def)+
qed

text \<open>The libraries of the examples: a token that spells out the claims, and a reversible hash.\<close>

definition toy_field :: "string \<Rightarrow> string" where
  "toy_field s = quote_json s @ [CHR 0x22]"

definition toy_claims :: "string \<Rightarrow> (string \<rightharpoonup> json) option" where
  "toy_claims t = Option.bind (p_str t) (\<lambda>(u, r1). Option.bind (p_str r1) (\<lambda>(e, r2).
     Option.bind (p_str r2) (\<lambda>(og, r3). Option.bind (p_str r3) (\<lambda>(og2, r4).
       Some [''sub'' \<mapsto> JStr u, ''email'' \<mapsto> JStr e, ''app_metadata'' \<mapsto> JObj [(''org_id'', JStr og)],
             ''org_id'' \<mapsto> JStr og2]))))"

definition demo_auth :: auth_libs where
  "demo_auth = \<lparr>jwt_parse = (\<lambda>t k i a now. case toy_claims t of None \<Rightarrow> Inl ''malformed'' | Some m \<Rightarrow> Inr m),
     jwt_sign = (\<lambda>cs k. let m = map_of cs in
       Inr (toy_field (claim_string ''sub'' m) @ toy_field (claim_string ''email'' m) @
            toy_field (metadata_org m) @ toy_field (claim_string ''org_id'' m))),
     bcrypt_generate = (\<lambda>p. Inr (CHR ''$'' # p)),
     bcrypt_compare = (\<lambda>h p. if h = CHR ''$'' # p then None else Some (ErrText ''mismatch'')),
     au_hmac = (\<lambda>k m. k @ m), au_sha256 = id\<rparr>"

lemma toy_claims_fields:
  "toy_claims (toy_field u @ toy_field e @ toy_field og @ toy_field og2) =
     Some [''sub'' \<mapsto> JStr u, ''email'' \<mapsto> JStr e, ''app_metadata'' \<mapsto> JObj [(''org_id'', JStr og)],
           ''org_id'' \<mapsto> JStr og2]"
  by (simp add: toy_claims_def toy_field_def p_str_quote)

lemma demo_auth_accepts: "jwt_accepts demo_auth"
  by (simp add: jwt_accepts_def demo_auth_def Let_def toy_claims_fields claims_of_def claim_string_def
      metadata_org_def go_map_def)

definition demo_local :: auth_provider where
  "demo_local = LocalAuth \<lparr>lp_secret = ''k'', lp_ttl = day_nanos, lp_issuer = ''relic'', lp_audience = []\<rparr>"

end
