(* ===== verification/Flow_Cookie.thy ===== *)
theory Flow_Cookie
  imports Auth
begin

text \<open>
  The signed cookie of the OIDC login flow (\<open>internal/api/oidc_helpers.go\<close> and the helpers of
  \<open>oidc_handlers.go\<close>), with \<open>base64.RawURLEncoding\<close> and the random values the flow starts from.
\<close>

section \<open>base64url without padding\<close>

definition b64_char :: "nat \<Rightarrow> char" where
  "b64_char n = (if n < 26 then char_of (65 + n) else if n < 52 then char_of (97 + (n - 26))
     else if n < 62 then char_of (48 + (n - 52)) else if n = 62 then CHR ''-'' else CHR ''_'')"

definition b64_val :: "char \<Rightarrow> nat option" where
  "b64_val c = (let n = of_char c in
     if 65 \<le> n \<and> n < 91 then Some (n - 65) else if 97 \<le> n \<and> n < 123 then Some (n - 97 + 26)
     else if 48 \<le> n \<and> n < 58 then Some (n - 48 + 52) else if c = CHR ''-'' then Some 62
     else if c = CHR ''_'' then Some 63 else None)"

fun b64url_encode :: "string \<Rightarrow> string" where
  "b64url_encode [] = []"
| "b64url_encode [a] = (let x = of_char a in [b64_char (x div 4), b64_char (x mod 4 * 16)])"
| "b64url_encode [a, b] = (let x = of_char a; y = of_char b in
     [b64_char (x div 4), b64_char (x mod 4 * 16 + y div 16), b64_char (y mod 16 * 4)])"
| "b64url_encode (a # b # c # s) = (let x = of_char a; y = of_char b; z = of_char c in
     [b64_char (x div 4), b64_char (x mod 4 * 16 + y div 16), b64_char (y mod 16 * 4 + z div 64),
      b64_char (z mod 64)] @ b64url_encode s)"

text \<open>The four-character groups; the bits a short last group does not use are ignored.\<close>

fun b64_groups :: "nat list \<Rightarrow> string option" where
  "b64_groups [] = Some []"
| "b64_groups [p] = None"
| "b64_groups [p, q] = Some [char_of (p * 4 + q div 16)]"
| "b64_groups [p, q, r] = Some [char_of (p * 4 + q div 16), char_of (q mod 16 * 16 + r div 4)]"
| "b64_groups (p # q # r # t # ns) = map_option
     (\<lambda>s. [char_of (p * 4 + q div 16), char_of (q mod 16 * 16 + r div 4), char_of (r mod 4 * 64 + t)] @ s)
     (b64_groups ns)"

text \<open>Line breaks are skipped, any other character outside the alphabet is an error.\<close>

definition b64url_decode :: "string \<Rightarrow> string option" where
  "b64url_decode s = Option.bind (all_some (map b64_val (filter (\<lambda>c. c \<noteq> CHR 0x0A \<and> c \<noteq> CHR 0x0D) s))) b64_groups"

lemma of_b64_char:
  "n < 64 \<Longrightarrow> of_char (b64_char n) = (if n < 26 then 65 + n else if n < 52 then 71 + n
     else if n < 62 then n - 4 else if n = 62 then 45 else (95 :: nat))"
  by (simp add: b64_char_def)

lemma char_eq_of: "c = d \<longleftrightarrow> (of_char c :: nat) = of_char d"
  by simp

lemma b64_val_char: "n < 64 \<Longrightarrow> b64_val (b64_char n) = Some n"
  by (auto simp: b64_val_def Let_def of_b64_char char_eq_of simp del: of_char_eq_iff)

lemma b64_char_plain: "n < 64 \<Longrightarrow> b64_char n \<noteq> CHR 0x0A \<and> b64_char n \<noteq> CHR 0x0D \<and> b64_char n \<noteq> CHR ''.''"
  by (auto simp: of_b64_char char_eq_of simp del: of_char_eq_iff split: if_splits)

definition b64_digits :: "nat list \<Rightarrow> bool" where
  "b64_digits ns \<longleftrightarrow> list_all (\<lambda>n. n < 64) ns"

lemma b64_decode_chars:
  assumes "b64_digits ns"
  shows "b64url_decode (map b64_char ns) = b64_groups ns"
proof -
  have "filter (\<lambda>c. c \<noteq> CHR 0x0A \<and> c \<noteq> CHR 0x0D) (map b64_char ns) = map b64_char ns"
    using assms b64_char_plain by (auto simp: b64_digits_def list_all_iff intro!: filter_True)
  moreover have "all_some (map b64_val (map b64_char ns)) = Some ns"
    using assms by (induction ns) (auto simp: b64_digits_def b64_val_char)
  ultimately show ?thesis by (simp add: b64url_decode_def)
qed

lemma of_char_lt [simp]: "(of_char c :: nat) < 256"
  by (rule of_char_less_256)

lemma split_high_low:
  fixes k r m :: nat
  assumes "r < m"
  shows "(k * m + r) div m = k" "(k * m + r) mod m = r"
  using assms by simp_all

lemma b64_byte:
  fixes x y z :: nat
  assumes "x < 256" "y < 256" "z < 256"
  shows "x div 4 < 64" "x mod 4 * 16 < 64" "x mod 4 * 16 + y div 16 < 64" "y mod 16 * 4 < 64"
    "y mod 16 * 4 + z div 64 < 64" "z mod 64 < 64"
    "x div 4 * 4 + (x mod 4 * 16 + y div 16) div 16 = x" "x div 4 * 4 + x mod 4 * 16 div 16 = x"
    "(x mod 4 * 16 + y div 16) mod 16 * 16 + (y mod 16 * 4 + z div 64) div 4 = y"
    "(x mod 4 * 16 + y div 16) mod 16 * 16 + y mod 16 * 4 div 4 = y"
    "(y mod 16 * 4 + z div 64) mod 4 * 64 + z mod 64 = z"
proof -
  have y: "y div 16 < 16" and z: "z div 64 < 4" using assms by auto
  have m: "x mod 4 < 4" "y mod 16 < 16" by simp_all
  show "x div 4 < 64" "x mod 4 * 16 < 64" "y mod 16 * 4 < 64" "z mod 64 < 64" using assms m by auto
  show "x mod 4 * 16 + y div 16 < 64" using m(1) y by linarith
  show "y mod 16 * 4 + z div 64 < 64" using m(2) z by linarith
  show "x div 4 * 4 + (x mod 4 * 16 + y div 16) div 16 = x" by (simp only: split_high_low [OF y] div_mult_mod_eq)
  show "x div 4 * 4 + x mod 4 * 16 div 16 = x" by simp
  show "(x mod 4 * 16 + y div 16) mod 16 * 16 + (y mod 16 * 4 + z div 64) div 4 = y"
    by (simp only: split_high_low [OF y] split_high_low [OF z] div_mult_mod_eq)
  show "(x mod 4 * 16 + y div 16) mod 16 * 16 + y mod 16 * 4 div 4 = y"
    by (simp only: split_high_low [OF y]) simp
  show "(y mod 16 * 4 + z div 64) mod 4 * 64 + z mod 64 = z"
    by (simp only: split_high_low [OF z] div_mult_mod_eq)
qed

lemmas b64_compute = b64_digits_def list.pred_inject list.map append_Cons append_Nil option.map
  b64_groups.simps b64url_encode.simps Let_def char_of_char

lemma b64_encode_digits:
  "\<exists>ns. b64_digits ns \<and> b64url_encode s = map b64_char ns \<and> b64_groups ns = Some s"
proof (induction s rule: b64url_encode.induct)
  case 1
  show ?case by (rule exI [of _ "[]"]) (simp add: b64_digits_def)
next
  case (2 a)
  let ?x = "of_char a :: nat"
  note b = b64_byte [of ?x ?x ?x, OF of_char_lt of_char_lt of_char_lt]
  show ?case
    by (rule exI [of _ "[?x div 4, ?x mod 4 * 16]"]) (simp only: b64_compute b simp_thms)
next
  case (3 a b)
  let ?x = "of_char a :: nat" and ?y = "of_char b :: nat"
  note b = b64_byte [of ?x ?y ?y, OF of_char_lt of_char_lt of_char_lt]
  show ?case
    by (rule exI [of _ "[?x div 4, ?x mod 4 * 16 + ?y div 16, ?y mod 16 * 4]"])
      (simp only: b64_compute b simp_thms)
next
  case (4 a b c s)
  then obtain ns where ns: "b64_digits ns" "b64url_encode s = map b64_char ns" "b64_groups ns = Some s"
    by blast
  let ?x = "of_char a :: nat" and ?y = "of_char b :: nat" and ?z = "of_char c :: nat"
  note b = b64_byte [of ?x ?y ?z, OF of_char_lt of_char_lt of_char_lt]
  show ?case
    by (rule exI [of _ "[?x div 4, ?x mod 4 * 16 + ?y div 16, ?y mod 16 * 4 + ?z div 64, ?z mod 64] @ ns"])
      (use ns in \<open>simp only: b64_compute b simp_thms\<close>)
qed

lemma b64_roundtrip: "b64url_decode (b64url_encode s) = Some s"
  using b64_encode_digits [of s] b64_decode_chars by metis

lemma b64_no_dot: "CHR ''.'' \<notin> set (b64url_encode s)"
  using b64_encode_digits [of s] b64_char_plain by (fastforce simp: b64_digits_def list_all_iff)

section \<open>Random values\<close>

definition generate_state :: "string option \<Rightarrow> string option" where
  "generate_state rand = map_option hex_encode rand"

definition generate_nonce :: "string option \<Rightarrow> string option" where
  "generate_nonce rand = map_option b64url_encode rand"

definition pkce_challenge_s256 :: "auth_libs \<Rightarrow> string \<Rightarrow> string" where
  "pkce_challenge_s256 J verifier = b64url_encode (au_sha256 J verifier)"

definition generate_pkce_pair :: "auth_libs \<Rightarrow> string option \<Rightarrow> (string \<times> string) option" where
  "generate_pkce_pair J rand = map_option (\<lambda>b. (b64url_encode b, pkce_challenge_s256 J (b64url_encode b))) rand"

section \<open>The cookie\<close>

record flow_state =
  fl_state :: string
  fl_nonce :: string
  fl_verifier :: string
  fl_return_to :: string

definition flow_marshal :: "flow_state \<Rightarrow> string" where
  "flow_marshal st = ''{'' @ member_text ''s'' (json_string (fl_state st)) @ '','' @
     member_text ''n'' (json_string (fl_nonce st)) @ '','' @
     member_text ''v'' (json_string (fl_verifier st)) @ optional_member ''r'' (fl_return_to st) @ ''}''"

definition flow_unmarshal :: "string \<Rightarrow> flow_state option" where
  "flow_unmarshal s = (case unmarshal_struct s of
     None \<Rightarrow> None
   | Some ms \<Rightarrow>
       (case (field_string ''s'' ms, field_string ''n'' ms, field_string ''v'' ms, field_string ''r'' ms) of
          (Some a, Some b, Some c, Some d) \<Rightarrow>
            Some \<lparr>fl_state = a, fl_nonce = b, fl_verifier = c, fl_return_to = d\<rparr>
        | _ \<Rightarrow> None))"

definition encode_flow_cookie :: "auth_libs \<Rightarrow> string \<Rightarrow> flow_state \<Rightarrow> string res" where
  "encode_flow_cookie J secret st =
     (if secret = [] then Inl (ErrText ''session secret unset'')
      else let enc = b64url_encode (flow_marshal st)
           in Inr (enc @ ''.'' @ b64url_encode (au_hmac J secret enc)))"

definition decode_flow_cookie :: "auth_libs \<Rightarrow> string \<Rightarrow> string \<Rightarrow> flow_state res" where
  "decode_flow_cookie J secret raw =
     (case split_n2 (CHR ''.'') raw of
        [enc, sig] \<Rightarrow>
          (case (b64url_decode enc, b64url_decode sig) of
             (Some body, Some mac) \<Rightarrow>
               if mac \<noteq> au_hmac J secret enc then Inl (ErrText ''bad cookie hmac'')
               else (case flow_unmarshal body of
                       None \<Rightarrow> Inl (ErrText ''json: cannot decode the flow state'')
                     | Some st \<Rightarrow> Inr st)
           | _ \<Rightarrow> Inl (ErrText ''illegal base64 data''))
      | _ \<Rightarrow> Inl (ErrText ''malformed flow cookie''))"

definition is_safe_return_to :: "string \<Rightarrow> bool" where
  "is_safe_return_to p \<longleftrightarrow> p \<noteq> [] \<and> has_prefix p ''/'' \<and> \<not> has_prefix p ''//''"

lemma flow_keys: "plain_text ''s''" "plain_text ''n''" "plain_text ''v''" "plain_text ''r''"
  by (simp_all add: plain_text_def)

lemma flow_members:
  "json_parse (flow_marshal st) = Some (JObj
     ([(''s'', JStr (fl_state st)), (''n'', JStr (fl_nonce st)), (''v'', JStr (fl_verifier st))] @
      (if fl_return_to st = [] then [] else [(''r'', JStr (fl_return_to st))])))"
proof -
  have "6 \<le> json_fuel (flow_marshal st)" by (simp add: flow_marshal_def member_text_def json_fuel_def)
  then obtain k where "json_fuel (flow_marshal st) = 6 + k" using le_Suc_ex by blast
  then have k: "json_fuel (flow_marshal st) = Suc (Suc (Suc (Suc (Suc (Suc k)))))" by simp
  have "p_val (json_fuel (flow_marshal st)) (flow_marshal st) = Some (JObj
     ([(''s'', JStr (fl_state st)), (''n'', JStr (fl_nonce st)), (''v'', JStr (fl_verifier st))] @
      (if fl_return_to st = [] then [] else [(''r'', JStr (fl_return_to st))])), [])"
    unfolding k
    by (simp add: flow_marshal_def optional_member_def p_val_object p_mems_string flow_keys
        del: p_mems.simps p_val.simps)
  then show ?thesis by (simp add: json_parse_def skip_ws_def)
qed

lemma flow_marshal_roundtrip: "flow_unmarshal (flow_marshal st) = Some st"
  by (simp add: flow_unmarshal_def unmarshal_struct_def as_members_def flow_members field_string_def
      dec_string_def equal_fold_def to_lower_def lower_char_def)

lemma decoded_cookie:
  assumes "decode_flow_cookie J secret cookie = Inr st'"
  shows "\<exists>enc sig. cookie = enc @ ''.'' @ sig \<and> b64url_decode sig = Some (au_hmac J secret enc) \<and>
    Option.bind (b64url_decode enc) flow_unmarshal = Some st'"
proof -
  obtain enc sig where s: "split_n2 (CHR ''.'') cookie = [enc, sig]"
    and d: "b64url_decode sig = Some (au_hmac J secret enc)" "Option.bind (b64url_decode enc) flow_unmarshal = Some st'"
    using assms by (auto simp: decode_flow_cookie_def split: list.splits option.splits if_splits)
  from split_n2_two [OF s] d show ?thesis by auto
qed

lemma encoded_cookie_decodes:
  assumes "secret \<noteq> []"
  shows "\<exists>raw. encode_flow_cookie J secret st = Inr raw \<and> decode_flow_cookie J secret raw = Inr st"
proof -
  let ?enc = "b64url_encode (flow_marshal st)"
  have "split_n2 (CHR ''.'') (?enc @ CHR ''.'' # b64url_encode (au_hmac J secret ?enc)) =
      [?enc, b64url_encode (au_hmac J secret ?enc)]"
    by (rule split_n2_append [OF b64_no_dot])
  then show ?thesis
    using assms
    by (simp add: encode_flow_cookie_def decode_flow_cookie_def Let_def b64_roundtrip flow_marshal_roundtrip)
qed


definition demo_flow :: flow_state where
  "demo_flow = \<lparr>fl_state = ''5f'', fl_nonce = ''n'', fl_verifier = ''v'', fl_return_to = ''/runs''\<rparr>"


text \<open>A backslash after the first slash passes the check; browsers read it as a second slash.\<close>

lemma return_to_backslash: "is_safe_return_to (''/'' @ [CHR 0x5C] @ ''evil.com'')"
  by code_simp

end
