(* ===== verification/Identity.thy ===== *)
theory Identity
  imports Storage
begin

text \<open>
  \<open>internal/storage/identity.go\<close>: SSO configuration with its sealed client secret, SCIM tokens,
  invites and sessions, over the database of \<open>Storage_Db\<close>. HMAC-SHA256 and SHA-256 are parameters;
  what \<open>secretsKey\<close> returns for a decoded key of 16 to 31 bytes depends on the capacity
  \<open>hex.DecodeString\<close> gives its result (\<open>b[:32]\<close> panics past it) and is the parameter \<open>short_key\<close>, whose
  \<open>None\<close> is the panic, an error value here.
\<close>

section \<open>Secrets\<close>

definition secrets_key :: "storage_env \<Rightarrow> string res" where
  "secrets_key E =
     (let raw = (if env_secrets_key E = [] then env_jwt_secret E else env_secrets_key E) in
      if raw = [] then Inl (ErrText ''RELIC_SECRETS_KEY (or RELIC_JWT_SECRET) required to encrypt SSO secrets'')
      else case hex_decode raw of
        Some b \<Rightarrow> if length b \<ge> 32 then Inr (take 32 b)
                  else if length b \<ge> 16 then
                    (case short_key E raw of
                       None \<Rightarrow> Inl (ErrText ''panic: slice bounds out of range'')
                     | Some k \<Rightarrow> Inr k)
                  else Inr (st_sha256 E raw)
      | None \<Rightarrow> Inr (st_sha256 E raw))"

definition secret_tag :: "storage_env \<Rightarrow> string \<Rightarrow> string \<Rightarrow> string" where
  "secret_tag E key plain = take 16 (st_hmac E key plain)"

definition encrypt_secret :: "storage_env \<Rightarrow> string \<Rightarrow> string res" where
  "encrypt_secret E plain = (case secrets_key E of
     Inl e \<Rightarrow> Inl e
   | Inr key \<Rightarrow> Inr (secret_tag E key plain @ plain))"

definition decrypt_secret :: "storage_env \<Rightarrow> string \<Rightarrow> string res" where
  "decrypt_secret E enc =
     (if length enc < 16 then Inl (ErrText ''encrypted blob too short'')
      else case secrets_key E of
        Inl e \<Rightarrow> Inl e
      | Inr key \<Rightarrow>
          if take 16 enc \<noteq> secret_tag E key (drop 16 enc)
          then Inl (ErrText (''hmac mismatch '' @ em_dash @ '' wrong RELIC_SECRETS_KEY?''))
          else Inr (drop 16 enc))"

definition hash_scim_token :: "storage_env \<Rightarrow> string \<Rightarrow> string" where
  "hash_scim_token E plain =
     (let pepper = (if env_pepper E = []
                    then (case secrets_key E of Inr k \<Rightarrow> k | Inl _ \<Rightarrow> []) else env_pepper E)
      in hex_encode (st_hmac E pepper plain))"

section \<open>SSO configuration\<close>

record sso_config =
  cfg_org :: string
  cfg_provider :: string
  cfg_discovery :: string
  cfg_client_id :: string
  cfg_client_secret :: string
  cfg_redirect :: string
  cfg_scopes :: "string list"
  cfg_default_role :: string
  cfg_created_at :: int
  cfg_updated_at :: int
  cfg_has_secret :: bool

definition sso_of_row :: "sso_row \<Rightarrow> sso_config" where
  "sso_of_row r = \<lparr>cfg_org = sso_org r, cfg_provider = sso_provider r, cfg_discovery = sso_discovery r,
     cfg_client_id = sso_client_id r, cfg_client_secret = [], cfg_redirect = sso_redirect r,
     cfg_scopes = sso_scopes r, cfg_default_role = sso_default_role r, cfg_created_at = sso_created_at r,
     cfg_updated_at = sso_updated_at r, cfg_has_secret = False\<rparr>"

definition get_sso_config :: "storage_env \<Rightarrow> string \<Rightarrow> sso_config option io" where
  "get_sso_config E org s =
     (case select (\<lambda>s. List.find (\<lambda>r. sso_org r = org) (sso_configs s)) s of
        (Inl e, s1) \<Rightarrow> (Inl e, s1)
      | (Inr None, s1) \<Rightarrow> (Inr None, s1)
      | (Inr (Some r), s1) \<Rightarrow>
          (case sso_secret_enc r of
             None \<Rightarrow> (Inr (Some (sso_of_row r)), s1)
           | Some enc \<Rightarrow>
               if enc = [] then (Inr (Some (sso_of_row r)), s1)
               else (case decrypt_secret E enc of
                       Inl e \<Rightarrow> (Inl (ErrWrap ''decrypt client_secret: '' e []), s1)
                     | Inr plain \<Rightarrow>
                         (Inr (Some ((sso_of_row r)\<lparr>cfg_client_secret := plain, cfg_has_secret := True\<rparr>)), s1))))"

text \<open>\<open>enc\<close> is the sealed secret, \<open>None\<close> for the nil slice; \<open>COALESCE(NULLIF(new, ''), old)\<close> keeps the old one.\<close>

definition write_sso :: "sso_config \<Rightarrow> string option \<Rightarrow> unit io" where
  "write_sso c enc = stmt (\<lambda>s.
     let role = (if cfg_default_role c = [] then ''member'' else cfg_default_role c) in
     if list_ex (\<lambda>r. sso_org r = cfg_org c) (sso_configs s) then
       Inr ((), s\<lparr>sso_configs := update_where (\<lambda>r. sso_org r = cfg_org c)
         (\<lambda>r. r\<lparr>sso_provider := cfg_provider c, sso_discovery := cfg_discovery c,
                sso_client_id := cfg_client_id c,
                sso_secret_enc := (if enc = None \<or> enc = Some [] then sso_secret_enc r else enc),
                sso_redirect := cfg_redirect c, sso_scopes := cfg_scopes c,
                sso_default_role := role, sso_updated_at := db_now s\<rparr>) (sso_configs s)\<rparr>)
     else if \<not> org_exists (cfg_org c) s then Inl fk_violation
     else Inr ((), s\<lparr>sso_configs := sso_configs s @
       [\<lparr>sso_org = cfg_org c, sso_provider = cfg_provider c, sso_discovery = cfg_discovery c,
         sso_client_id = cfg_client_id c, sso_secret_enc = enc, sso_redirect = cfg_redirect c,
         sso_scopes = cfg_scopes c, sso_default_role = role, sso_created_at = db_now s,
         sso_updated_at = db_now s\<rparr>]\<rparr>))"

definition upsert_sso_config :: "storage_env \<Rightarrow> sso_config \<Rightarrow> unit io" where
  "upsert_sso_config E c s =
     (if cfg_client_secret c \<noteq> [] then
        (case encrypt_secret E (cfg_client_secret c) of
           Inl e \<Rightarrow> (Inl (ErrWrap ''encrypt client_secret: '' e []), s)
         | Inr enc \<Rightarrow> write_sso c (Some enc) s)
      else write_sso c None s)"

section \<open>SCIM tokens\<close>

record scim_token =
  tok_id :: string
  tok_org :: string
  tok_name :: string
  tok_prefix :: string
  tok_created_at :: int
  tok_revoked_at :: "int option"

definition scim_of_row :: "scim_row \<Rightarrow> scim_token" where
  "scim_of_row r = \<lparr>tok_id = sc_id r, tok_org = sc_org r, tok_name = sc_name r, tok_prefix = sc_prefix r,
     tok_created_at = sc_created_at r, tok_revoked_at = sc_revoked_at r\<rparr>"

definition create_scim_token :: "storage_env \<Rightarrow> string \<Rightarrow> string \<Rightarrow> (string \<times> scim_token) io" where
  "create_scim_token E org nm s = (case rand_bytes s of
     (Inl e, s1) \<Rightarrow> (Inl e, s1)
   | (Inr b, s1) \<Rightarrow>
       (let plaintext = ''scim_'' @ hex_encode b; prefix = take 10 plaintext; hash = hash_scim_token E plaintext
        in stmt (\<lambda>s. case fresh_id s of
             Inl e \<Rightarrow> Inl e
           | Inr (i, s2) \<Rightarrow>
               if list_ex (\<lambda>t. sc_id t = i \<or> sc_hash t = hash) (scim_tokens s2) then Inl unique_violation
               else if \<not> org_exists org s2 then Inl fk_violation
               else let r = \<lparr>sc_id = i, sc_org = org, sc_hash = hash, sc_prefix = prefix, sc_name = nm,
                             sc_created_at = db_now s2, sc_revoked_at = None\<rparr>
                    in Inr ((plaintext, scim_of_row r), s2\<lparr>scim_tokens := scim_tokens s2 @ [r]\<rparr>)) s1))"

definition list_scim_tokens :: "string \<Rightarrow> scim_token list io" where
  "list_scim_tokens org = select (\<lambda>s. map scim_of_row (order_by (\<lambda>a b. sc_created_at b < sc_created_at a)
     (filter (\<lambda>t. sc_org t = org) (scim_tokens s))))"

definition revoke_scim_token :: "string \<Rightarrow> string \<Rightarrow> unit io" where
  "revoke_scim_token org tid = stmt (\<lambda>s. Inr ((), s\<lparr>scim_tokens :=
     update_where (\<lambda>t. sc_id t = tid \<and> sc_org t = org \<and> sc_revoked_at t = None)
       (\<lambda>t. t\<lparr>sc_revoked_at := Some (db_now s)\<rparr>) (scim_tokens s)\<rparr>))"

definition validate_scim_token :: "storage_env \<Rightarrow> string \<Rightarrow> string io" where
  "validate_scim_token E plaintext = select (\<lambda>s.
     case List.find (\<lambda>t. sc_hash t = hash_scim_token E plaintext \<and> sc_revoked_at t = None) (scim_tokens s) of
       None \<Rightarrow> [] | Some t \<Rightarrow> sc_org t)"

section \<open>Invites\<close>

definition nanos :: int where
  "nanos = 1000000000"

text \<open>\<open>int(ttl.Seconds())\<close> truncates; a ttl of 0 means seven days.\<close>

definition create_invite :: "string \<Rightarrow> string \<Rightarrow> string \<Rightarrow> int \<Rightarrow> invite io" where
  "create_invite org email role ttl s = (case rand_bytes s of
     (Inl e, s1) \<Rightarrow> (Inl e, s1)
   | (Inr b, s1) \<Rightarrow>
       (let role' = (if role = [] then ''member'' else role);
            ttl' = (if ttl = 0 then 7 * 24 * 3600 * nanos else ttl);
            secs = (if ttl' < 0 then - ((- ttl') div nanos) else ttl' div nanos);
            tok = hex_encode b
        in stmt (\<lambda>s. case fresh_id s of
             Inl e \<Rightarrow> Inl e
           | Inr (i, s2) \<Rightarrow>
               if list_ex (\<lambda>v. inv_id v = i \<or> inv_token v = tok) (invites s2) then Inl unique_violation
               else if \<not> org_exists org s2 then Inl fk_violation
               else let v = \<lparr>inv_id = i, inv_org = org, inv_email = email, inv_role = role', inv_token = tok,
                             inv_expires_at = db_now s2 + secs * nanos, inv_created_at = db_now s2,
                             inv_accepted_at = None, inv_cancelled_at = None\<rparr>
                    in Inr (v, s2\<lparr>invites := invites s2 @ [v]\<rparr>)) s1))"

definition invite_pending :: "invite \<Rightarrow> bool" where
  "invite_pending v \<longleftrightarrow> inv_accepted_at v = None \<and> inv_cancelled_at v = None"

definition list_invites :: "string \<Rightarrow> invite list io" where
  "list_invites org = select (\<lambda>s. order_by (\<lambda>a b. inv_created_at b < inv_created_at a)
     (filter (\<lambda>v. inv_org v = org \<and> invite_pending v) (invites s)))"

definition cancel_invite :: "string \<Rightarrow> string \<Rightarrow> unit io" where
  "cancel_invite org iid = stmt (\<lambda>s. Inr ((), s\<lparr>invites :=
     update_where (\<lambda>v. inv_id v = iid \<and> inv_org v = org \<and> invite_pending v)
       (\<lambda>v. v\<lparr>inv_cancelled_at := Some (db_now s)\<rparr>) (invites s)\<rparr>))"

section \<open>Sessions\<close>

text \<open>The row written, with the id and the two times the statement returns.\<close>

definition create_session :: "storage_env \<Rightarrow> session \<Rightarrow> session io" where
  "create_session E t = stmt (\<lambda>s. case fresh_id s of
       Inl e \<Rightarrow> Inl e
     | Inr (i, s1) \<Rightarrow>
         if list_ex (\<lambda>q. se_id q = i \<or> se_jti q = se_jti t) (sessions s1) then Inl unique_violation
         else if \<not> (org_exists (se_org t) s1 \<and> list_ex (\<lambda>u. u_id u = se_user t) (users s1)) then Inl fk_violation
         else let ip = (case parse_ip E (se_ip t) of Some a \<Rightarrow> a | None \<Rightarrow> []);
                  t' = t\<lparr>se_id := i, se_created_at := db_now s1, se_last_seen_at := db_now s1\<rparr>
              in Inr (t', s1\<lparr>sessions := sessions s1 @
                   [t'\<lparr>se_ip := ip, se_expires_at := micros (se_expires_at t), se_revoked_at := None\<rparr>]\<rparr>))"

definition is_session_revoked :: "string \<Rightarrow> bool io" where
  "is_session_revoked jti s =
     (if jti = [] then (Inr False, s)
      else select (\<lambda>s. case List.find (\<lambda>t. se_jti t = jti) (sessions s) of
        None \<Rightarrow> False | Some t \<Rightarrow> se_revoked_at t \<noteq> None) s)"

definition list_sessions_for_org :: "string \<Rightarrow> session list io" where
  "list_sessions_for_org org = select (\<lambda>s. order_by (\<lambda>a b. se_last_seen_at b < se_last_seen_at a)
     (filter (\<lambda>t. se_org t = org \<and> se_revoked_at t = None \<and> se_expires_at t > db_now s) (sessions s)))"

definition revoke_sessions_where :: "(session \<Rightarrow> bool) \<Rightarrow> unit io" where
  "revoke_sessions_where P = stmt (\<lambda>s. Inr ((), s\<lparr>sessions :=
     update_where (\<lambda>t. P t \<and> se_revoked_at t = None)
       (\<lambda>t. t\<lparr>se_revoked_at := Some (db_now s)\<rparr>) (sessions s)\<rparr>))"

definition revoke_session :: "string \<Rightarrow> string \<Rightarrow> unit io" where
  "revoke_session org sid = revoke_sessions_where (\<lambda>t. se_id t = sid \<and> se_org t = org)"

definition revoke_all_sessions_for_user :: "string \<Rightarrow> string \<Rightarrow> unit io" where
  "revoke_all_sessions_for_user org uid = revoke_sessions_where (\<lambda>t. se_user t = uid \<and> se_org t = org)"

end
