(* ===== verification/Tenancy.thy ===== *)
theory Tenancy
  imports Identity
begin

text \<open>
  Multi-tenancy of the storage layer. Every write that carries an organization keeps the table
  constraints and leaves what every other organization sees untouched; this is stated for each
  operation and then for any interleaving of them (the requests of the API handlers, in any order).
  The retention sweep is not among them: what it does across organizations is the last section.
\<close>

section \<open>Each operation\<close>

named_theorems op_keeps \<open>operations keep the other organizations' view\<close>

lemma list_ex_not: "\<not> list_ex P xs \<longleftrightarrow> (\<forall>x \<in> set xs. \<not> P x)"
  by (auto simp: list_ex_iff)

lemma notin_image: "(\<forall>x \<in> S. f x \<noteq> y) \<Longrightarrow> y \<notin> f ` S"
  by auto

lemmas view_simps = keeps_def db_ok_defs org_view_def agent_ids_def list_ex_not

lemma fresh_id_Inr: "fresh_id s = Inr (i, s') \<Longrightarrow> s' = s\<lparr>db_ids := tl (db_ids s)\<rparr>"
  by (auto simp: fresh_id_def split: list.splits)

lemma keeps_api_keys:
  assumes "filter (\<lambda>k. k_org k = org') ks = filter (\<lambda>k. k_org k = org') (api_keys s)"
    and "db_ok s \<Longrightarrow> distinct (map k_id ks) \<and> distinct (map k_hash ks)"
  shows "keeps org' s (s\<lparr>api_keys := ks\<rparr>)"
  using assms by (simp add: view_simps)

lemma keeps_runs:
  assumes "filter (\<lambda>r. r_org r = org') rs = filter (\<lambda>r. r_org r = org') (runs s)"
    and "db_ok s \<Longrightarrow> distinct (map (\<lambda>r. (r_org r, r_id r)) rs)"
  shows "keeps org' s (s\<lparr>runs := rs\<rparr>)"
  using assms by (simp add: view_simps)

lemma keeps_users:
  assumes "filter (\<lambda>u. u_org u = org') us = filter (\<lambda>u. u_org u = org') (users s)"
    and "db_ok s \<Longrightarrow> distinct (map u_id us) \<and> distinct (map u_email us)"
  shows "keeps org' s (s\<lparr>users := us\<rparr>)"
  using assms by (simp add: view_simps)

lemma keeps_agents:
  assumes "filter (\<lambda>a. a_org a = org') as = filter (\<lambda>a. a_org a = org') (agents s)"
    and "db_ok s \<Longrightarrow> distinct (map a_id as) \<and> distinct (map (\<lambda>a. (a_org a, a_name a)) as)"
  shows "keeps org' s (s\<lparr>agents := as\<rparr>)"
  using assms by (simp add: view_simps)

lemma keeps_audits:
  assumes "filter (\<lambda>e. ev_org e = org') es = filter (\<lambda>e. ev_org e = org') (audits s)"
    and "db_ok s \<Longrightarrow> distinct (map ev_id es)"
  shows "keeps org' s (s\<lparr>audits := es\<rparr>)"
  using assms by (simp add: view_simps)

lemma keeps_proposals:
  assumes "filter (\<lambda>p. pr_org p = org') ps = filter (\<lambda>p. pr_org p = org') (proposals s)"
    and "db_ok s \<Longrightarrow> distinct (map pr_id ps) \<and>
      list_all (\<lambda>p. pr_status p \<in> {''pending'', ''approved'', ''rejected'', ''expired'', ''dismissed''}) ps"
  shows "keeps org' s (s\<lparr>proposals := ps\<rparr>)"
  using assms by (simp add: view_simps)

lemma keeps_sets:
  assumes "filter (\<lambda>p. set_org p = org') ps = filter (\<lambda>p. set_org p = org') (policy_sets s)"
    and "db_ok s \<Longrightarrow> distinct (map set_id ps) \<and> distinct (map (\<lambda>p. (set_org p, set_name p)) ps)"
  shows "keeps org' s (s\<lparr>policy_sets := ps\<rparr>)"
  using assms by (simp add: view_simps)

lemma keeps_labels:
  assumes "filter (\<lambda>l. lab_agent l \<in> agent_ids org' s) ls = filter (\<lambda>l. lab_agent l \<in> agent_ids org' s) (labels s)"
    and "db_ok s \<Longrightarrow> distinct (map (\<lambda>l. (lab_agent l, lab_key l)) ls)"
  shows "keeps org' s (s\<lparr>labels := ls\<rparr>)"
  using assms by (simp add: view_simps)

lemma keeps_sso:
  assumes "filter (\<lambda>c. sso_org c = org') cs = filter (\<lambda>c. sso_org c = org') (sso_configs s)"
    and "db_ok s \<Longrightarrow> distinct (map sso_org cs)"
  shows "keeps org' s (s\<lparr>sso_configs := cs\<rparr>)"
  using assms by (simp add: view_simps)

lemma keeps_scim:
  assumes "filter (\<lambda>c. sc_org c = org') cs = filter (\<lambda>c. sc_org c = org') (scim_tokens s)"
    and "db_ok s \<Longrightarrow> distinct (map sc_id cs) \<and> distinct (map sc_hash cs)"
  shows "keeps org' s (s\<lparr>scim_tokens := cs\<rparr>)"
  using assms by (simp add: view_simps)

lemma keeps_invites:
  assumes "filter (\<lambda>c. inv_org c = org') cs = filter (\<lambda>c. inv_org c = org') (invites s)"
    and "db_ok s \<Longrightarrow> distinct (map inv_id cs) \<and> distinct (map inv_token cs)"
  shows "keeps org' s (s\<lparr>invites := cs\<rparr>)"
  using assms by (simp add: view_simps)

lemma keeps_sessions:
  assumes "filter (\<lambda>c. se_org c = org') cs = filter (\<lambda>c. se_org c = org') (sessions s)"
    and "db_ok s \<Longrightarrow> distinct (map se_id cs) \<and> distinct (map se_jti cs)"
  shows "keeps org' s (s\<lparr>sessions := cs\<rparr>)"
  using assms by (simp add: view_simps)

lemmas keeps_tables = keeps_api_keys keeps_runs keeps_users keeps_agents keeps_audits keeps_proposals
  keeps_sets keeps_labels keeps_sso keeps_scim keeps_invites keeps_sessions

text \<open>The same after a fresh id was taken.\<close>

lemma keeps_after_ids: "keeps org' (s\<lparr>db_ids := i\<rparr>) s' \<Longrightarrow> keeps org' s s'"
  by simp

lemmas keeps_fresh = keeps_tables [THEN keeps_after_ids]

text \<open>The two shapes of a write: a row appended with fresh keys, rows updated in place.\<close>

lemma filter_append_other: "\<not> Q r \<Longrightarrow> filter Q (rows @ [r]) = filter Q rows"
  by simp

lemma distinct_snoc: "distinct (map f (rows @ [r])) \<longleftrightarrow> distinct (map f rows) \<and> (\<forall>x \<in> set rows. f x \<noteq> f r)"
proof -
  have "f r \<notin> f ` set rows \<longleftrightarrow> (\<forall>x \<in> set rows. f x \<noteq> f r)" by (metis imageE image_eqI)
  then show ?thesis by auto
qed

lemmas write_simps = distinct_snoc map_update_where list_ex_not db_ok_defs

lemmas write_intros = keeps_tables keeps_fresh filter_update_where filter_remove distinct_map_filter

lemma keeps_rand: "rand_bytes s = (r, s1) \<Longrightarrow> keeps org' s s1"
  by (auto simp: rand_bytes_def split: list.splits)

text \<open>A statement followed by pure code.\<close>

lemma keeps_stmt_then:
  assumes "\<And>s x s'. body s = Inr (x, s') \<Longrightarrow> keeps org' s s'"
    and "\<And>r s'. snd (k (r, s')) = s'"
  shows "keeps org' s (snd (k (stmt body s)))"
  using keeps_stmt [where body = body and s = s and org = org', OF assms(1)] assms(2)
  by (cases "stmt body s") auto

lemma keeps_create_api_key [op_keeps]:
  assumes "org \<noteq> org'"
  shows "keeps org' s (snd (create_api_key E org nm s))"
proof (cases "rand_bytes s")
  case (Pair r s1)
  note s1 = keeps_rand [OF Pair, of org']
  show ?thesis
  proof (cases r)
    case (Inl e)
    with Pair s1 show ?thesis by (simp add: create_api_key_def)
  next
    case (Inr raw)
    show ?thesis
      unfolding create_api_key_def Pair Inr using assms
      by (auto simp: Let_def write_simps simp del: map_append distinct_append split: prod.splits sum.splits if_splits dest!: fresh_id_Inr
          intro!: keeps_trans [OF s1] keeps_stmt write_intros)
  qed
qed

lemma keeps_revoke_api_key [op_keeps]: "org \<noteq> org' \<Longrightarrow> keeps org' s (snd (revoke_api_key org kid s))"
  unfolding revoke_api_key_def by (rule keeps_stmt) (auto intro!: write_intros simp: write_simps simp del: map_append distinct_append)

lemma keeps_insert_run [op_keeps]: "r_org r \<noteq> org' \<Longrightarrow> keeps org' s (snd (insert_run r s))"
  unfolding insert_run_def
  by (rule keeps_stmt_then)
    (auto intro!: write_intros simp: write_simps simp del: map_append distinct_append split: if_splits sum.splits)

lemma keeps_delete_run [op_keeps]: "org \<noteq> org' \<Longrightarrow> keeps org' s (snd (delete_run org rid s))"
  unfolding delete_run_def
  by (rule keeps_stmt)
    (auto intro!: write_intros simp: write_simps simp del: map_append distinct_append split: option.splits)

lemma keeps_agent_update:
  assumes "org \<noteq> org'" "\<And>a. a_id (f a) = a_id a" "\<And>a. a_org (f a) = a_org a" "\<And>a. a_name (f a) = a_name a"
  shows "keeps org' s (s\<lparr>agents := update_where (is_agent org nm) f (agents s)\<rparr>)"
  using assms by (auto intro!: write_intros simp: write_simps is_agent_def simp del: map_append distinct_append)

lemma keeps_update_agent_last_seen [op_keeps]:
  "org \<noteq> org' \<Longrightarrow> keeps org' s (snd (update_agent_last_seen org nm s))"
  unfolding update_agent_last_seen_def by (rule keeps_stmt) (auto intro!: keeps_agent_update)

lemma keeps_update_agent_policy [op_keeps]:
  "org \<noteq> org' \<Longrightarrow> keeps org' s (snd (update_agent_policy org nm y s))"
  unfolding update_agent_policy_def snd_with_ctx by (rule keeps_stmt) (auto intro!: keeps_agent_update)

lemma keeps_mark_policy_applied [op_keeps]:
  "org \<noteq> org' \<Longrightarrow> keeps org' s (snd (mark_policy_applied org nm h s))"
  unfolding mark_policy_applied_def
  by (rule keeps_stmt_then) (auto intro!: keeps_agent_update split: sum.splits)

lemma keeps_upsert_agent [op_keeps]: "a_org a \<noteq> org' \<Longrightarrow> keeps org' s (snd (upsert_agent E a s))"
  unfolding upsert_agent_def
  by (rule keeps_stmt)
    (auto intro!: keeps_agent_update write_intros simp: write_simps is_agent_def simp del: map_append distinct_append
      split: option.splits sum.splits if_splits dest!: fresh_id_Inr)

lemma keeps_insert_audit_event [op_keeps]:
  "org \<noteq> org' \<Longrightarrow> keeps org' s (snd (insert_audit_event E org u a r i m s))"
  unfolding insert_audit_event_def snd_with_ctx
  by (rule keeps_stmt)
    (auto intro!: write_intros simp: write_simps simp del: map_append distinct_append split: option.splits sum.splits if_splits prod.splits
      dest!: fresh_id_Inr)

lemma keeps_insert_proposal [op_keeps]:
  "pr_org pr \<noteq> org' \<Longrightarrow> keeps org' s (snd (insert_proposal E pr s))"
  unfolding insert_proposal_def
  by (rule keeps_stmt)
    (auto intro!: write_intros simp: write_simps simp del: map_append distinct_append split: option.splits sum.splits if_splits prod.splits
      dest!: fresh_id_Inr)

lemma list_all_update_where:
  "list_all Q rows \<Longrightarrow> (\<And>r. r \<in> set rows \<Longrightarrow> P r \<Longrightarrow> Q (f r)) \<Longrightarrow> list_all Q (update_where P f rows)"
  by (induction rows) (auto simp: update_where_def)

lemma keeps_update_proposal_status [op_keeps]:
  "org \<noteq> org' \<Longrightarrow> keeps org' s (snd (update_proposal_status org pid st u s))"
  unfolding update_proposal_status_def
  by (rule keeps_stmt)
    (auto intro!: write_intros list_all_update_where simp: Let_def write_simps simp del: map_append distinct_append
      split: if_splits)

lemma keeps_insert_user [op_keeps]:
  "org \<noteq> org' \<Longrightarrow> keeps org' s (snd (insert_user org em ro pw pv s))"
  unfolding insert_user_def
  by (rule keeps_stmt)
    (auto intro!: write_intros simp: Let_def write_simps simp del: map_append distinct_append
      split: sum.splits if_splits prod.splits dest!: fresh_id_Inr)

lemma map_update_const:
  "(\<And>r. r \<in> set rows \<Longrightarrow> P r \<Longrightarrow> g new = g r) \<Longrightarrow> map g (update_where P (\<lambda>_. new) rows) = map g rows"
  by (induction rows) (auto simp: update_where_def)

lemma filter_update_const:
  assumes "\<not> Q new" "\<And>r. P r \<Longrightarrow> \<not> Q r"
  shows "filter Q (update_where P (\<lambda>_. new) rows) = filter Q rows"
  using assms by (induction rows) (auto simp: update_where_def)

lemma distinct_same_key:
  "distinct (map g rows) \<Longrightarrow> x \<in> set rows \<Longrightarrow> y \<in> set rows \<Longrightarrow> g x = g y \<Longrightarrow> x = y"
  by (auto simp: distinct_map inj_on_def)

lemma keeps_upsert_policy_set [op_keeps]:
  assumes "set_org p \<noteq> org'"
  shows "keeps org' s (snd (upsert_policy_set E p s))"
  unfolding upsert_policy_set_def
proof (rule keeps_stmt)
  fix s x s'
  let ?hit = "is_set (set_org p) (set_name p)"
  assume body: "upsert_body E p s = Inr (x, s')"
  then obtain sel where j: "jsonb E (set_selector p) = Some sel" by (auto simp: upsert_body_def split: option.splits)
  show "keeps org' s s'"
  proof (cases "List.find ?hit (policy_sets s)")
    case None
    with body j assms show ?thesis
      by (auto intro!: write_intros simp: upsert_body_def Let_def write_simps find_None_iff_all is_set_def
          simp del: map_append distinct_append split: sum.splits if_splits dest!: fresh_id_Inr)
  next
    case (Some old)
    from find_SomeD [OF Some] have old: "old \<in> set (policy_sets s)" "?hit old" by auto
    define new where "new = old\<lparr>set_selector := sel, set_yaml := set_yaml p, set_hash := set_hash p,
      set_version := set_version old + 1, set_updated_at := db_now s\<rparr>"
    have new: "set_id new = set_id old" "set_org new = set_org old" "set_name new = set_name old"
      by (simp_all add: new_def)
    from body j Some have s': "s' = s\<lparr>policy_sets := update_where ?hit (\<lambda>_. new) (policy_sets s)\<rparr>"
      by (auto simp: upsert_body_def Let_def new_def split: if_splits)
    show ?thesis
      unfolding s'
    proof (rule keeps_sets)
      show "filter (\<lambda>p. set_org p = org') (update_where ?hit (\<lambda>_. new) (policy_sets s)) =
          filter (\<lambda>p. set_org p = org') (policy_sets s)"
        using assms old new by (intro filter_update_const) (auto simp: is_set_def)
      assume ok: "db_ok s"
      have same: "r = old" if "r \<in> set (policy_sets s)" "?hit r" for r
        using ok that old
        by (intro distinct_same_key [of "\<lambda>p. (set_org p, set_name p)" "policy_sets s" r old])
          (auto simp: db_ok_defs is_set_def)
      have "map set_id (update_where ?hit (\<lambda>_. new) (policy_sets s)) = map set_id (policy_sets s)"
        "map (\<lambda>p. (set_org p, set_name p)) (update_where ?hit (\<lambda>_. new) (policy_sets s)) =
         map (\<lambda>p. (set_org p, set_name p)) (policy_sets s)"
        using same new by (auto intro!: map_update_const)
      with ok show "distinct (map set_id (update_where ?hit (\<lambda>_. new) (policy_sets s))) \<and>
          distinct (map (\<lambda>p. (set_org p, set_name p)) (update_where ?hit (\<lambda>_. new) (policy_sets s)))"
        by (simp add: db_ok_defs)
    qed
  qed
qed

text \<open>Labels hang on an agent id, which belongs to one organization.\<close>

lemma keeps_insert_label:
  assumes "aid \<notin> agent_ids org' s"
  shows "keeps org' s (snd (insert_label aid kv s)) \<and> agents (snd (insert_label aid kv s)) = agents s"
proof -
  have "agents (snd (insert_label aid kv s)) = agents s"
    unfolding insert_label_def by (rule stmt_field) (auto split: if_splits)
  moreover have "keeps org' s (snd (insert_label aid kv s))"
    unfolding insert_label_def
    using assms
    by (intro keeps_stmt_at)
      (auto intro!: keeps_labels simp: write_simps agent_ids_def simp del: map_append distinct_append split: if_splits)
  ultimately show ?thesis by simp
qed

lemma agent_ids_cong: "agents s = agents s' \<Longrightarrow> agent_ids org' s = agent_ids org' s'"
  by (simp add: agent_ids_def)

lemma keeps_insert_labels:
  "aid \<notin> agent_ids org' s \<Longrightarrow> keeps org' s (snd (insert_labels aid kvs s))"
proof (induction kvs arbitrary: s)
  case (Cons kv kvs)
  note step = keeps_insert_label [OF Cons.prems, of kv]
  then show ?case
    using Cons.IH [of "snd (insert_label aid kv s)"] Cons.prems agent_ids_cong [of "snd (insert_label aid kv s)" s org']
    by (auto split: prod.splits sum.splits intro: keeps_trans)
qed simp

lemma keepsI: "(db_ok s \<Longrightarrow> keeps org' s s') \<Longrightarrow> keeps org' s s'"
  by (auto simp: keeps_def)

lemma agent_id_other:
  assumes "db_ok s" "a \<in> set (agents s)" "a_org a \<noteq> org'"
  shows "a_id a \<notin> agent_ids org' s"
proof
  assume "a_id a \<in> agent_ids org' s"
  then obtain b where "b \<in> set (agents s)" "a_org b = org'" "a_id b = a_id a" by (auto simp: agent_ids_def)
  with assms distinct_same_key [of a_id "agents s" a b] show False by (auto simp: db_ok_defs)
qed

lemma select_cases:
  "select f s = (Inl (ErrText ''query failed''), s\<lparr>db_faults := tl (db_faults s)\<rparr>) \<or>
   select f s = (Inr (f (s\<lparr>db_faults := tl (db_faults s)\<rparr>)), s\<lparr>db_faults := tl (db_faults s)\<rparr>)"
  by (simp add: select_def stmt_def Let_def)

lemma keeps_set_labels_tx:
  assumes "org \<noteq> org'"
  shows "keeps org' s (snd (set_labels_tx org nm kvs s))"
proof (rule keepsI)
  assume ok: "db_ok s"
  let ?s1 = "s\<lparr>db_faults := tl (db_faults s)\<rparr>"
  let ?q = "select (\<lambda>s. List.find (is_agent org nm) (agents s)) s"
  show "keeps org' s (snd (set_labels_tx org nm kvs s))"
  proof (cases "\<exists>a. ?q = (Inr (Some a), ?s1) \<and> List.find (is_agent org nm) (agents s) = Some a")
    case True
    then obtain a where q: "?q = (Inr (Some a), ?s1)" and f: "List.find (is_agent org nm) (agents s) = Some a"
      by auto
    from find_SomeD [OF f] have a: "a \<in> set (agents s)" "a_org a = org" by (auto simp: is_agent_def)
    have aid: "a_id a \<notin> agent_ids org' s" using agent_id_other [OF ok a(1)] a(2) assms by simp
    define del where "del = (\<lambda>s. Inr ((), s\<lparr>labels := filter (\<lambda>l. lab_agent l \<noteq> a_id a) (labels s)\<rparr>) :: go_error + unit \<times> db)"
    obtain r2 s2 where d: "with_ctx ''set agent labels: delete: '' (stmt del ?s1) = (r2, s2)" by (cases "with_ctx ''set agent labels: delete: '' (stmt del ?s1)")
    have s2: "s2 = snd (stmt del ?s1)" using d by (metis snd_conv snd_with_ctx)
    have ag2: "agents s2 = agents s"
      unfolding s2 by (subst stmt_field [where g = agents]) (auto simp: del_def)
    have k2: "keeps org' s s2"
    proof -
      have "keeps org' ?s1 (snd (stmt del ?s1))"
        using aid
        by (intro keeps_stmt_at)
          (auto simp: del_def agent_ids_def write_simps intro!: keeps_labels filter_remove distinct_map_filter)
      then show ?thesis unfolding s2 by simp
    qed
    have k3: "keeps org' s2 (snd (insert_labels (a_id a) kvs s2))"
      using aid agent_ids_cong [OF ag2, of org'] by (intro keeps_insert_labels) simp
    have k4: "keeps org' s3 (snd (stmt (\<lambda>s. Inr ((), s)) s3))" for s3
      by (rule keeps_stmt) simp
    show ?thesis
      using q d k2 k3 k4 unfolding set_labels_tx_def del_def
      by (auto split: sum.splits prod.splits) (metis keeps_trans snd_conv)+
  next
    case False
    with select_cases [of "\<lambda>s. List.find (is_agent org nm) (agents s)" s] show ?thesis
      by (auto simp: set_labels_tx_def split: option.splits)
  qed
qed

lemma keeps_set_agent_labels [op_keeps]:
  assumes "org \<noteq> org'"
  shows "keeps org' s (snd (set_agent_labels org nm kvs s))"
proof -
  obtain r1 s1 where b: "with_ctx ''set agent labels: begin: '' (stmt (\<lambda>s. Inr ((), s)) s) = (r1, s1)"
    by (cases "with_ctx ''set agent labels: begin: '' (stmt (\<lambda>s. Inr ((), s)) s)")
  then have s1: "s1 = snd (stmt (\<lambda>s. Inr ((), s)) s)" by (metis snd_conv snd_with_ctx)
  have k1: "keeps org' s s1" unfolding s1 by (rule keeps_stmt) simp
  have "keeps org' s1 (snd (set_labels_tx org nm kvs s1))" by (rule keeps_set_labels_tx [OF assms])
  with k1 show ?thesis
    unfolding set_agent_labels_def b by (auto split: sum.splits prod.splits intro: keeps_trans)
qed

lemma keeps_upsert_sso_config [op_keeps]:
  assumes "cfg_org c \<noteq> org'"
  shows "keeps org' s (snd (upsert_sso_config E c s))"
proof -
  have "keeps org' s (snd (write_sso c enc s))" for enc
    unfolding write_sso_def using assms
    by (intro keeps_stmt)
      (auto intro!: write_intros simp: Let_def write_simps simp del: map_append distinct_append split: if_splits)
  then show ?thesis by (auto simp: upsert_sso_config_def split: sum.splits)
qed

lemma keeps_create_scim_token [op_keeps]:
  assumes "org \<noteq> org'"
  shows "keeps org' s (snd (create_scim_token E org nm s))"
proof (cases "rand_bytes s")
  case (Pair r s1)
  note s1 = keeps_rand [OF Pair, of org']
  show ?thesis
  proof (cases r)
    case (Inl e)
    with Pair s1 show ?thesis by (simp add: create_scim_token_def)
  next
    case (Inr b)
    show ?thesis
      unfolding create_scim_token_def Pair Inr using assms
      by (auto simp: Let_def write_simps simp del: map_append distinct_append split: sum.splits if_splits
          dest!: fresh_id_Inr intro!: keeps_trans [OF s1] keeps_stmt write_intros)
  qed
qed

lemma keeps_revoke_scim_token [op_keeps]: "org \<noteq> org' \<Longrightarrow> keeps org' s (snd (revoke_scim_token org tid s))"
  unfolding revoke_scim_token_def by (rule keeps_stmt) (auto intro!: write_intros simp: write_simps)

lemma keeps_create_invite [op_keeps]:
  assumes "org \<noteq> org'"
  shows "keeps org' s (snd (create_invite org em ro ttl s))"
proof (cases "rand_bytes s")
  case (Pair r s1)
  note s1 = keeps_rand [OF Pair, of org']
  show ?thesis
  proof (cases r)
    case (Inl e)
    with Pair s1 show ?thesis by (simp add: create_invite_def)
  next
    case (Inr b)
    show ?thesis
      unfolding create_invite_def Pair Inr using assms
      by (auto simp: Let_def write_simps simp del: map_append distinct_append split: sum.splits if_splits
          dest!: fresh_id_Inr intro!: keeps_trans [OF s1] keeps_stmt write_intros)
  qed
qed

lemma keeps_cancel_invite [op_keeps]: "org \<noteq> org' \<Longrightarrow> keeps org' s (snd (cancel_invite org iid s))"
  unfolding cancel_invite_def by (rule keeps_stmt) (auto intro!: write_intros simp: write_simps)

lemma keeps_create_session [op_keeps]: "se_org t \<noteq> org' \<Longrightarrow> keeps org' s (snd (create_session E t s))"
  unfolding create_session_def
  by (rule keeps_stmt)
    (auto intro!: write_intros simp: Let_def write_simps simp del: map_append distinct_append
      split: sum.splits if_splits prod.splits dest!: fresh_id_Inr)

lemma keeps_revoke_sessions:
  "(\<And>t. P t \<Longrightarrow> se_org t \<noteq> org') \<Longrightarrow> keeps org' s (snd (revoke_sessions_where P s))"
  unfolding revoke_sessions_where_def by (rule keeps_stmt) (auto intro!: write_intros simp: write_simps)

lemma keeps_revoke_session [op_keeps]: "org \<noteq> org' \<Longrightarrow> keeps org' s (snd (revoke_session org sid s))"
  unfolding revoke_session_def by (rule keeps_revoke_sessions) auto

lemma keeps_revoke_all_sessions [op_keeps]:
  "org \<noteq> org' \<Longrightarrow> keeps org' s (snd (revoke_all_sessions_for_user org uid s))"
  unfolding revoke_all_sessions_for_user_def by (rule keeps_revoke_sessions) auto

section \<open>Stores with owners\<close>

text \<open>
  A store whose operations have an owner, and where an operation keeps the invariant and leaves what
  the other owners see.
\<close>

locale owned_store =
  fixes step :: "'op \<Rightarrow> 's \<Rightarrow> 's"
    and owner :: "'op \<Rightarrow> string"
    and view :: "string \<Rightarrow> 's \<Rightarrow> 'v"
    and inv :: "'s \<Rightarrow> bool"
  assumes step_other: "owner oper \<noteq> org \<Longrightarrow> inv s \<Longrightarrow> inv (step oper s) \<and> view org (step oper s) = view org s"
begin

lemma step_inv: "inv s \<Longrightarrow> inv (step oper s)"
proof -
  assume "inv s"
  have "owner oper \<noteq> CHR ''x'' # owner oper" by (metis not_Cons_self2)
  from step_other [OF this \<open>inv s\<close>] show "inv (step oper s)" ..
qed

lemma run_inv: "inv s \<Longrightarrow> inv (fold step opers s)"
  by (induction opers arbitrary: s) (auto simp: step_inv)

lemma run_other:
  "inv s \<Longrightarrow> list_all (\<lambda>oper. owner oper \<noteq> org) opers \<Longrightarrow> view org (fold step opers s) = view org s"
  by (induction opers arbitrary: s) (auto simp: step_inv step_other)

text \<open>Other owners' operations may be dropped from an interleaving's prefix.\<close>

lemma run_other_then:
  assumes "inv s" "list_all (\<lambda>oper. owner oper \<noteq> org) opers"
    and "\<And>s s'. view org s = view org s' \<Longrightarrow> f s = f s'"
  shows "f (fold step opers s) = f s"
  using assms run_other by blast

end

section \<open>The storage operations\<close>

datatype storage_op =
    OpCreateKey string string | OpRevokeKey string string
  | OpInsertRun run | OpDeleteRun string string
  | OpTouchAgent string string | OpUpsertAgent agent | OpAgentPolicy string string string
  | OpPolicyApplied string string string
  | OpAudit string string string string string "string option"
  | OpInsertProposal proposal | OpDecideProposal string string string string
  | OpInsertUser string string string "string option" string
  | OpUpsertSet policy_set | OpSetLabels string string "(string \<times> string) list"
  | OpUpsertSso sso_config
  | OpCreateScim string string | OpRevokeScim string string
  | OpCreateInvite string string string int | OpCancelInvite string string
  | OpCreateSession session | OpRevokeSession string string | OpRevokeUserSessions string string

fun op_owner :: "storage_op \<Rightarrow> string" where
  "op_owner (OpCreateKey org n) = org"
| "op_owner (OpRevokeKey org k) = org"
| "op_owner (OpInsertRun r) = r_org r"
| "op_owner (OpDeleteRun org r) = org"
| "op_owner (OpTouchAgent org n) = org"
| "op_owner (OpUpsertAgent a) = a_org a"
| "op_owner (OpAgentPolicy org n y) = org"
| "op_owner (OpPolicyApplied org n h) = org"
| "op_owner (OpAudit org u a r i m) = org"
| "op_owner (OpInsertProposal p) = pr_org p"
| "op_owner (OpDecideProposal org p st u) = org"
| "op_owner (OpInsertUser org e r p v) = org"
| "op_owner (OpUpsertSet p) = set_org p"
| "op_owner (OpSetLabels org n kvs) = org"
| "op_owner (OpUpsertSso c) = cfg_org c"
| "op_owner (OpCreateScim org n) = org"
| "op_owner (OpRevokeScim org t) = org"
| "op_owner (OpCreateInvite org e r ttl) = org"
| "op_owner (OpCancelInvite org i) = org"
| "op_owner (OpCreateSession t) = se_org t"
| "op_owner (OpRevokeSession org t) = org"
| "op_owner (OpRevokeUserSessions org u) = org"

fun run_op :: "storage_env \<Rightarrow> storage_op \<Rightarrow> db \<Rightarrow> db" where
  "run_op E (OpCreateKey org n) s = snd (create_api_key E org n s)"
| "run_op E (OpRevokeKey org k) s = snd (revoke_api_key org k s)"
| "run_op E (OpInsertRun r) s = snd (insert_run r s)"
| "run_op E (OpDeleteRun org r) s = snd (delete_run org r s)"
| "run_op E (OpTouchAgent org n) s = snd (update_agent_last_seen org n s)"
| "run_op E (OpUpsertAgent a) s = snd (upsert_agent E a s)"
| "run_op E (OpAgentPolicy org n y) s = snd (update_agent_policy org n y s)"
| "run_op E (OpPolicyApplied org n h) s = snd (mark_policy_applied org n h s)"
| "run_op E (OpAudit org u a r i m) s = snd (insert_audit_event E org u a r i m s)"
| "run_op E (OpInsertProposal p) s = snd (insert_proposal E p s)"
| "run_op E (OpDecideProposal org p st u) s = snd (update_proposal_status org p st u s)"
| "run_op E (OpInsertUser org e r p v) s = snd (insert_user org e r p v s)"
| "run_op E (OpUpsertSet p) s = snd (upsert_policy_set E p s)"
| "run_op E (OpSetLabels org n kvs) s = snd (set_agent_labels org n kvs s)"
| "run_op E (OpUpsertSso c) s = snd (upsert_sso_config E c s)"
| "run_op E (OpCreateScim org n) s = snd (create_scim_token E org n s)"
| "run_op E (OpRevokeScim org t) s = snd (revoke_scim_token org t s)"
| "run_op E (OpCreateInvite org e r ttl) s = snd (create_invite org e r ttl s)"
| "run_op E (OpCancelInvite org i) s = snd (cancel_invite org i s)"
| "run_op E (OpCreateSession t) s = snd (create_session E t s)"
| "run_op E (OpRevokeSession org t) s = snd (revoke_session org t s)"
| "run_op E (OpRevokeUserSessions org u) s = snd (revoke_all_sessions_for_user org u s)"

lemma run_op_keeps: "op_owner oper \<noteq> org' \<Longrightarrow> keeps org' s (run_op E oper s)"
  by (cases oper) (auto intro: op_keeps)

interpretation tenants: owned_store "run_op E" op_owner org_view db_ok for E
  using run_op_keeps unfolding keeps_def by unfold_locales blast

section \<open>Reads\<close>

datatype storage_read =
    RdRuns string int int | RdRun string | RdSimRuns string int int | RdRunsWindow int int
  | RdAgents | RdAgent string | RdAgentPolicy string | RdAgentById string | RdBaseline string
  | RdAudit int int | RdAuditWindow int int | RdProposals string
  | RdUser string | RdUserByEmail string | RdSet string | RdSetByName string | RdLabels string
  | RdSelector string | RdScim | RdInvites | RdSso | RdSessions

datatype read_result =
    RRuns "run list res" | RRun "run option res" | RAgents "agent list res" | RAgent "agent option res"
  | RText "string res" | RBaseline "agent_baseline option res" | RAudits "audit_event list res"
  | RProposals "proposal list res" | RUser "user option res" | RSet "policy_set option res"
  | RLabels "(string \<times> string) list res" | RScim "scim_token list res" | RInvites "invite list res"
  | RSso "sso_config option res" | RSessions "session list res"

text \<open>What organization \<open>org\<close> reads when no statement fails.\<close>

fun read_op :: "storage_env \<Rightarrow> string \<Rightarrow> storage_read \<Rightarrow> db \<Rightarrow> read_result" where
  "read_op E org (RdRuns n l k) s = RRuns (fst (list_runs org n l k s))"
| "read_op E org (RdRun i) s = RRun (fst (get_run org i s))"
| "read_op E org (RdSimRuns n t l) s = RRuns (fst (list_runs_for_simulate org n t l s))"
| "read_op E org (RdRunsWindow a b) s = RRuns (fst (list_runs_in_window org a b s))"
| "read_op E org RdAgents s = RAgents (fst (list_agents org s))"
| "read_op E org (RdAgent n) s = RAgent (fst (get_agent org n s))"
| "read_op E org (RdAgentPolicy n) s = RText (fst (get_agent_policy org n s))"
| "read_op E org (RdAgentById i) s = RAgent (fst (get_agent_by_id org i s))"
| "read_op E org (RdBaseline i) s = RBaseline (fst (get_agent_baseline org i s))"
| "read_op E org (RdAudit l k) s = RAudits (fst (list_audit_events org l k s))"
| "read_op E org (RdAuditWindow a b) s = RAudits (fst (list_audit_events_in_window org a b s))"
| "read_op E org (RdProposals st) s = RProposals (fst (list_proposals org st s))"
| "read_op E org (RdUser i) s = RUser (fst (get_user_by_id org i s))"
| "read_op E org (RdUserByEmail e) s = RUser (fst (get_user_by_email org e s))"
| "read_op E org (RdSet i) s = RSet (fst (get_policy_set_by_id org i s))"
| "read_op E org (RdSetByName n) s = RSet (fst (get_policy_set_by_name org n s))"
| "read_op E org (RdLabels n) s = RLabels (fst (get_agent_labels org n s))"
| "read_op E org (RdSelector sel) s = RAgents (fst (resolve_selector org sel s))"
| "read_op E org RdScim s = RScim (fst (list_scim_tokens org s))"
| "read_op E org RdInvites s = RInvites (fst (list_invites org s))"
| "read_op E org RdSso s = RSso (fst (get_sso_config E org s))"
| "read_op E org RdSessions s = RSessions (fst (list_sessions_for_org org s))"

lemma filter_same_and:
  "filter Q xs = filter Q ys \<Longrightarrow> filter (\<lambda>x. Q x \<and> P x) xs = filter (\<lambda>x. Q x \<and> P x) ys"
  "filter Q xs = filter Q ys \<Longrightarrow> filter (\<lambda>x. P x \<and> Q x) xs = filter (\<lambda>x. P x \<and> Q x) ys"
proof -
  assume eq: "filter Q xs = filter Q ys"
  have "filter P (filter Q xs) = filter P (filter Q ys)" by (simp only: eq)
  then show "filter (\<lambda>x. Q x \<and> P x) xs = filter (\<lambda>x. Q x \<and> P x) ys"
    and "filter (\<lambda>x. P x \<and> Q x) xs = filter (\<lambda>x. P x \<and> Q x) ys"
    by (simp_all add: conj_commute)
qed

lemma find_same_and:
  "filter Q xs = filter Q ys \<Longrightarrow> List.find (\<lambda>x. Q x \<and> P x) xs = List.find (\<lambda>x. Q x \<and> P x) ys"
  "filter Q xs = filter Q ys \<Longrightarrow> List.find (\<lambda>x. P x \<and> Q x) xs = List.find (\<lambda>x. P x \<and> Q x) ys"
  unfolding find_filter_hd by (drule filter_same_and [where P = P], simp only:)+

lemma find_same: "filter Q xs = filter Q ys \<Longrightarrow> List.find Q xs = List.find Q ys"
  by (simp add: find_filter_hd)

lemma list_ex_filter: "list_ex P xs \<longleftrightarrow> filter P xs \<noteq> []"
  by (induction xs) auto

lemma list_ex_same_and:
  "filter Q xs = filter Q ys \<Longrightarrow> list_ex (\<lambda>x. P x \<and> Q x) xs = list_ex (\<lambda>x. P x \<and> Q x) ys"
  unfolding list_ex_filter by (drule filter_same_and(2) [where P = P], simp only:)

lemma filter_same_sub:
  assumes "filter Q xs = filter Q ys" "\<And>x. P x \<Longrightarrow> Q x"
  shows "filter P xs = filter P ys"
proof -
  have "P = (\<lambda>x. Q x \<and> P x)" using assms(2) by blast
  then show ?thesis using filter_same_and(1) [OF assms(1), of P] by simp
qed

lemma view_agent_ids: "org_view org s = org_view org s' \<Longrightarrow> agent_ids org s = agent_ids org s'"
  unfolding agent_ids_def by (simp add: org_view_def del: set_filter)

text \<open>The parts of an equal view.\<close>

lemma view_parts:
  assumes "org_view org s = org_view org s'"
  shows "filter (\<lambda>u. u_org u = org) (users s) = filter (\<lambda>u. u_org u = org) (users s')"
    and "filter (\<lambda>r. r_org r = org) (runs s) = filter (\<lambda>r. r_org r = org) (runs s')"
    and "filter (\<lambda>a. a_org a = org) (agents s) = filter (\<lambda>a. a_org a = org) (agents s')"
    and "filter (\<lambda>e. ev_org e = org) (audits s) = filter (\<lambda>e. ev_org e = org) (audits s')"
    and "filter (\<lambda>p. pr_org p = org) (proposals s) = filter (\<lambda>p. pr_org p = org) (proposals s')"
    and "filter (\<lambda>p. set_org p = org) (policy_sets s) = filter (\<lambda>p. set_org p = org) (policy_sets s')"
    and "filter (\<lambda>c. sso_org c = org) (sso_configs s) = filter (\<lambda>c. sso_org c = org) (sso_configs s')"
    and "filter (\<lambda>t. sc_org t = org) (scim_tokens s) = filter (\<lambda>t. sc_org t = org) (scim_tokens s')"
    and "filter (\<lambda>i. inv_org i = org) (invites s) = filter (\<lambda>i. inv_org i = org) (invites s')"
    and "filter (\<lambda>t. se_org t = org) (sessions s) = filter (\<lambda>t. se_org t = org) (sessions s')"
    and "agent_ids org s = agent_ids org s'"
    and "filter (\<lambda>l. lab_agent l \<in> agent_ids org s) (labels s) = filter (\<lambda>l. lab_agent l \<in> agent_ids org s) (labels s')"
    and "filter (\<lambda>b. b_agent b \<in> agent_ids org s) (baselines s) = filter (\<lambda>b. b_agent b \<in> agent_ids org s) (baselines s')"
  using assms view_agent_ids [OF assms] by (simp_all add: org_view_def)

lemma label_hits_view:
  assumes "filter (\<lambda>l. lab_agent l \<in> A) ls = filter (\<lambda>l. lab_agent l \<in> A) ls'" "aid \<in> A"
  shows "label_hits kvs aid ls = label_hits kvs aid ls'"
  unfolding label_hits_def by (rule filter_same_sub [OF assms(1)]) (use assms(2) in auto)

lemma no_faults: "db_faults s = [] \<Longrightarrow> s\<lparr>db_faults := []\<rparr> = s"
  by (cases s) simp

lemma select_pure: "db_faults s = [] \<Longrightarrow> fst (select f s) = Inr (f s)"
  by (simp add: select_def stmt_def Let_def no_faults)

lemma select_run: "db_faults s = [] \<Longrightarrow> select f s = (Inr (f s), s)"
  by (simp add: select_def stmt_def Let_def no_faults)

lemma stmt_run: "db_faults s = [] \<Longrightarrow>
    stmt body s = (case body s of Inl e \<Rightarrow> (Inl e, s) | Inr (x, s2) \<Rightarrow> (Inr x, s2))"
  by (simp add: stmt_def Let_def no_faults)

lemma fst_with_ctx: "fst (with_ctx pre r) = (case fst r of Inl e \<Rightarrow> Inl (ErrWrap pre e []) | Inr x \<Rightarrow> Inr x)"
  by (auto simp: with_ctx_def split: prod.splits sum.splits)

lemma fst_page_stmt:
  assumes "db_faults s = []"
  shows "fst (stmt (\<lambda>s. map_sum id (\<lambda>rows. (rows, s)) (page l k (f s))) s) = page l k (f s)"
  using assms by (cases "page l k (f s)") (simp_all add: stmt_run)

lemma selector_view:
  assumes "org_view org s = org_view org s'"
  shows "filter (\<lambda>a. a_org a = org \<and> selector_matches kvs s a) (agents s) =
         filter (\<lambda>a. a_org a = org \<and> selector_matches kvs s' a) (agents s')"
proof -
  note v = view_parts [OF assms]
  have "filter (\<lambda>a. a_org a = org \<and> selector_matches kvs s a) (agents s) =
        filter (\<lambda>a. a_org a = org \<and> selector_matches kvs s' a) (agents s)"
  proof (rule filter_cong [OF refl])
    fix a assume "a \<in> set (agents s)"
    then have "a_org a = org \<Longrightarrow> a_id a \<in> agent_ids org s" by (auto simp: agent_ids_def)
    then show "(a_org a = org \<and> selector_matches kvs s a) = (a_org a = org \<and> selector_matches kvs s' a)"
      using label_hits_view [OF v(12), of "a_id a" kvs] by (auto simp: selector_matches_def)
  qed
  also have "\<dots> = filter (\<lambda>a. a_org a = org \<and> selector_matches kvs s' a) (agents s')"
    by (rule filter_same_and(1) [OF v(3)])
  finally show ?thesis .
qed

lemma owned_rows_view:
  assumes "org_view org s = org_view org s'"
    and "\<And>P. filter (\<lambda>x. f x \<in> agent_ids org s) rows = filter (\<lambda>x. f x \<in> agent_ids org s) rows'"
  shows "filter (\<lambda>x. list_ex (\<lambda>a. a_id a = f x \<and> (a_org a = org \<and> Q a)) (agents s)) rows =
         filter (\<lambda>x. list_ex (\<lambda>a. a_id a = f x \<and> (a_org a = org \<and> Q a)) (agents s')) rows'"
proof -
  note v = view_parts [OF assms(1)]
  have same: "list_ex (\<lambda>a. a_id a = i \<and> (a_org a = org \<and> Q a)) (agents s) =
      list_ex (\<lambda>a. a_id a = i \<and> (a_org a = org \<and> Q a)) (agents s')" for i
    using list_ex_same_and [OF v(3), of "\<lambda>a. a_id a = i \<and> Q a"] by (simp add: conj_ac)
  show ?thesis
    unfolding same [symmetric]
    by (rule filter_same_sub [OF assms(2)]) (force simp: list_ex_iff agent_ids_def)
qed

lemma select_same: "db_faults s = [] \<Longrightarrow> db_faults s' = [] \<Longrightarrow> f s = f s' \<Longrightarrow> fst (select f s) = fst (select f s')"
  by (simp add: select_pure)

text \<open>What an organization reads is a function of its view and the clock.\<close>

lemma read_op_view:
  assumes v: "org_view org s = org_view org s'" and n: "db_now s = db_now s'"
    and f: "db_faults s = []" "db_faults s' = []"
  shows "read_op E org rd s = read_op E org rd s'"
proof (cases rd)
  note parts = view_parts [OF v]
  note run = fst_with_ctx select_pure [OF f(1)] select_pure [OF f(2)] fst_page_stmt [OF f(1)] fst_page_stmt [OF f(2)]
  {
    case (RdRuns nm l k)
    with filter_same_and(1) [OF parts(2), of "\<lambda>r. nm = [] \<or> r_agent_name r = nm"] show ?thesis
      by (simp add: list_runs_def run)
  next
    case (RdRun i)
    with find_same_and(1) [OF parts(2), of "\<lambda>r. r_id r = i"] show ?thesis by (simp add: get_run_def run)
  next
    case (RdSimRuns nm t l)
    with filter_same_and(1) [OF parts(2), of "\<lambda>r. r_agent_name r = nm \<and> r_started_at r \<ge> micros t"] show ?thesis
      by (simp add: list_runs_for_simulate_def run)
  next
    case (RdRunsWindow a b)
    with filter_same_and(1) [OF parts(2), of "\<lambda>r. r_started_at r \<ge> micros a \<and> r_started_at r < micros b"] show ?thesis
      by (simp add: list_runs_in_window_def run)
  next
    case RdAgents
    with parts(3) show ?thesis by (simp add: list_agents_def run)
  next
    case (RdAgent nm)
    with find_same_and(1) [OF parts(3), of "\<lambda>a. a_name a = nm"] show ?thesis
      by (simp add: get_agent_def run is_agent_def [abs_def])
  next
    case (RdAgentPolicy nm)
    with find_same_and(1) [OF parts(3), of "\<lambda>a. a_name a = nm"] show ?thesis
      by (simp add: get_agent_policy_def run is_agent_def [abs_def])
  next
    case (RdAgentById i)
    with find_same_and(2) [OF parts(3), of "\<lambda>a. a_id a = i"] show ?thesis by (simp add: get_agent_by_id_def run)
  next
    case (RdBaseline i)
    have "filter (\<lambda>b. list_ex (\<lambda>a. a_id a = b_agent b \<and> a_org a = org \<and> True) (agents s)) (baselines s) =
          filter (\<lambda>b. list_ex (\<lambda>a. a_id a = b_agent b \<and> a_org a = org \<and> True) (agents s')) (baselines s')"
      using owned_rows_view [OF v, of b_agent "baselines s" "baselines s'" "\<lambda>_. True"] parts(13) by simp
    then have "filter (\<lambda>b. b_agent b = i) (filter (\<lambda>b. list_ex (\<lambda>a. a_id a = b_agent b \<and> a_org a = org) (agents s)) (baselines s)) =
          filter (\<lambda>b. b_agent b = i) (filter (\<lambda>b. list_ex (\<lambda>a. a_id a = b_agent b \<and> a_org a = org) (agents s')) (baselines s'))"
      by simp
    with RdBaseline show ?thesis by (simp add: get_agent_baseline_def run conj_commute)
  next
    case (RdAudit l k)
    with parts(4) show ?thesis by (simp add: list_audit_events_def run)
  next
    case (RdAuditWindow a b)
    with filter_same_and(1) [OF parts(4), of "\<lambda>e. ev_created_at e \<ge> micros a \<and> ev_created_at e < micros b"] show ?thesis
      by (simp add: list_audit_events_in_window_def run)
  next
    case (RdProposals st)
    with filter_same_and(1) [OF parts(5), of "\<lambda>p. st = [] \<or> pr_status p = st"] show ?thesis
      by (simp add: list_proposals_def run)
  next
    case (RdUser i)
    with find_same_and(2) [OF parts(1), of "\<lambda>u. u_id u = i"] show ?thesis by (simp add: get_user_by_id_def run)
  next
    case (RdUserByEmail e)
    with find_same_and(2) [OF parts(1), of "\<lambda>u. u_email u = e"] show ?thesis by (simp add: get_user_by_email_def run)
  next
    case (RdSet i)
    with find_same_and(1) [OF parts(6), of "\<lambda>p. set_id p = i"] show ?thesis by (simp add: get_policy_set_by_id_def run)
  next
    case (RdSetByName nm)
    with find_same_and(1) [OF parts(6), of "\<lambda>p. set_name p = nm"] show ?thesis
      by (simp add: get_policy_set_by_name_def run is_set_def [abs_def])
  next
    case (RdLabels nm)
    with owned_rows_view [OF v, of lab_agent "labels s" "labels s'" "\<lambda>a. a_name a = nm"] parts(12) show ?thesis
      by (simp add: get_agent_labels_def run is_agent_def)
  next
    case (RdSelector sel)
    have "get_agent org nm s = (Inr (map_option agent_of (List.find (is_agent org nm) (agents s))), s)" for nm
      by (simp add: get_agent_def select_run [OF f(1)])
    moreover have "get_agent org nm s' = (Inr (map_option agent_of (List.find (is_agent org nm) (agents s))), s')" for nm
      using find_same_and(1) [OF parts(3), of "\<lambda>a. a_name a = nm"]
      by (simp add: get_agent_def select_run [OF f(2)] is_agent_def [abs_def])
    ultimately show ?thesis
      using selector_view [OF v] RdSelector
      by (simp add: resolve_selector_def run split: option.splits prod.splits)
  next
    case RdScim
    with parts(8) show ?thesis by (simp add: list_scim_tokens_def run)
  next
    case RdInvites
    with filter_same_and(1) [OF parts(9), of invite_pending] show ?thesis by (simp add: list_invites_def run)
  next
    case RdSso
    with find_same [OF parts(7)] show ?thesis
      by (simp add: get_sso_config_def select_run [OF f(1)] select_run [OF f(2)] split: option.splits sum.splits)
  next
    case RdSessions
    with filter_same_and(1) [OF parts(10), of "\<lambda>t. se_revoked_at t = None \<and> se_expires_at t > db_now s"] n show ?thesis
      by (simp add: list_sessions_for_org_def run)
  }
qed

section \<open>Properties\<close>

lemma org_view_clock [simp]: "org_view org (s\<lparr>db_faults := f, db_now := n\<rparr>) = org_view org s"
  by (simp add: org_view_def agent_ids_def)

definition demo_org :: "string \<Rightarrow> organization" where
  "demo_org i = \<lparr>org_id = i, org_name = i, org_slug = i, org_plan = ''free'', org_created_at = 0\<rparr>"

definition empty_db :: db where
  "empty_db = \<lparr>orgs = [], users = [], api_keys = [], runs = [], agents = [], baselines = [], audits = [],
     proposals = [], policy_sets = [], labels = [], sso_configs = [], scim_tokens = [], invites = [],
     sessions = [], db_now = 0, db_ids = [''i1'', ''i2'', ''i3''], db_random = [''r1'', ''r2''], db_faults = []\<rparr>"

definition demo_db :: db where
  "demo_db = empty_db\<lparr>orgs := [demo_org ''a'', demo_org ''b'']\<rparr>"

definition demo_env :: storage_env where
  "demo_env = \<lparr>jsonb = Some, st_hmac = (\<lambda>k m. k @ m), st_sha256 = id, parse_ip = (\<lambda>_. None), short_key = (\<lambda>_. None),
     env_pepper = [], env_secrets_key = ''secret'', env_jwt_secret = []\<rparr>"

lemma demo_db_ok: "db_ok demo_db"
  by (simp add: demo_db_def empty_db_def demo_org_def db_ok_defs)

text \<open>
  C7. Tenant isolation: after any interleaving of storage operations of other organizations,
  failing ones included, everything an organization can read is what it could read before.
\<close>

theorem tenant_isolation:
  assumes "db_ok s" and "list_all (\<lambda>oper. op_owner oper \<noteq> org) opers"
  shows "read_op E org rd ((fold (run_op E) opers s)\<lparr>db_faults := [], db_now := n\<rparr>) =
         read_op E org rd (s\<lparr>db_faults := [], db_now := n\<rparr>)"
  by (rule read_op_view) (simp_all add: tenants.run_other [OF assms])

lemma tenant_isolation_witness:
  "read_op demo_env ''b'' RdSessions ((fold (run_op demo_env) [OpCreateScim ''a'' ''n'', OpDeleteRun ''a'' ''r'']
       demo_db)\<lparr>db_faults := [], db_now := 5\<rparr>) =
   read_op demo_env ''b'' RdSessions (demo_db\<lparr>db_faults := [], db_now := 5\<rparr>)"
  by (rule tenant_isolation [OF demo_db_ok]) simp

text \<open>
  No sequence of operations, successful or failing, breaks a key, UNIQUE or CHECK constraint of
  the schema: the code's upserts and conflict handling never get past the tables' constraints.
\<close>

lemma constraints_preserved:
  assumes "db_ok s"
  shows "db_ok (fold (run_op E) opers s)"
  using assms by (rule tenants.run_inv)

lemma constraints_preserved_witness:
  "db_ok (fold (run_op demo_env) [OpCreateKey ''a'' ''k'', OpCreateScim ''b'' ''t'', OpCreateKey ''a'' ''k''] demo_db)"
  by (rule constraints_preserved [OF demo_db_ok])

end
