(* ===== verification/Storage_Props.thy ===== *)
theory Storage_Props
  imports Tenancy
begin

text \<open>
  What the storage operations promise their callers: the life of an API key, versioning of policy
  sets, labels and selectors, idempotent run upload, and the sealed SSO secret.
\<close>

section \<open>API keys\<close>

definition key_unused :: "storage_env \<Rightarrow> string \<Rightarrow> db \<Rightarrow> bool" where
  "key_unused E plaintext s \<longleftrightarrow> list_all (\<lambda>k. k_hash k \<notin> set (key_hashes E plaintext)) (api_keys s)"

definition new_key_text :: "db \<Rightarrow> string" where
  "new_key_text s = ''rk_'' @ hex_encode (hd (db_random s))"

lemma create_api_key_run:
  assumes "db_faults s = []" "db_random s \<noteq> []" "db_ids s \<noteq> []"
    and "org_exists org s" "list_all (\<lambda>k. k_id k \<noteq> hd (db_ids s)) (api_keys s)"
    and "key_unused E (new_key_text s) s"
  obtains key row s1 where "create_api_key E org nm s = (Inr (key, new_key_text s), s1)"
    "ak_id key = hd (db_ids s)" "k_id row = hd (db_ids s)" "k_org row = org" "k_revoked_at row = None"
    "k_hash row \<in> set (key_hashes E (new_key_text s))" "api_keys s1 = api_keys s @ [row]" "db_faults s1 = []"
proof -
  obtain b bs where b: "db_random s = b # bs" using assms(2) by (cases "db_random s") auto
  obtain i "is" where i: "db_ids s = i # is" using assms(3) by (cases "db_ids s") auto
  let ?pt = "''rk_'' @ hex_encode b"
  define hash where "hash = (if api_key_pepper E \<noteq> [] then hash_api_key_hmac E ?pt (api_key_pepper E)
      else hash_api_key_plain E ?pt)"
  have hash: "hash \<in> set (key_hashes E ?pt)" by (simp add: hash_def key_hashes_def)
  have pt: "new_key_text s = ?pt" by (simp add: new_key_text_def b)
  have fresh: "\<not> list_ex (\<lambda>k. k_id k = i \<or> k_hash k = hash) (api_keys s)"
    using assms(5,6) hash by (auto simp: key_unused_def pt list_ex_iff list_all_iff i)
  have org: "org_exists org (s\<lparr>db_random := bs, db_ids := is\<rparr>)" using assms(4) by (simp add: org_exists_def)
  show thesis
  proof (rule that)
    show "create_api_key E org nm s =
      (Inr (\<lparr>ak_id = i, ak_org = org, ak_prefix = take 10 ?pt, ak_name = nm, ak_created_at = db_now s,
            ak_revoked_at = None\<rparr>, new_key_text s),
       s\<lparr>db_random := bs, db_ids := is, api_keys := api_keys s @
         [\<lparr>k_id = i, k_org = org, k_hash = hash, k_prefix = take 10 ?pt, k_name = nm,
           k_algo = (if api_key_pepper E \<noteq> [] then ''hmac_sha256'' else ''sha256''),
           k_created_at = db_now s, k_revoked_at = None\<rparr>]\<rparr>)"
      using fresh org assms(1)
      by (cases "api_key_pepper E = []")
        (simp_all add: create_api_key_def rand_bytes_def b i Let_def stmt_run fresh_id_def with_ctx_def pt
          hash_def)
  qed (use hash in \<open>simp_all add: i pt assms(1)\<close>)
qed

lemma validate_api_key_run:
  "db_faults s = [] \<Longrightarrow> fst (validate_api_key E pt s) =
     (case List.find (\<lambda>k. k_hash k \<in> set (key_hashes E pt) \<and> k_revoked_at k = None) (api_keys s) of
        None \<Rightarrow> Inl (ErrText ''invalid or revoked API key'') | Some k \<Rightarrow> Inr (k_org k))"
  by (simp add: validate_api_key_def select_run split: option.splits)

lemma find_append: "List.find P (xs @ ys) = (case List.find P xs of None \<Rightarrow> List.find P ys | Some x \<Rightarrow> Some x)"
  by (induction xs) auto

lemma revoke_api_key_run:
  "db_faults s = [] \<Longrightarrow> revoke_api_key org kid s = (Inr (), s\<lparr>api_keys :=
     update_where (\<lambda>k. k_id k = kid \<and> k_org k = org) (\<lambda>k. k\<lparr>k_revoked_at := Some (db_now s)\<rparr>) (api_keys s)\<rparr>)"
  by (simp add: revoke_api_key_def stmt_run)

text \<open>
  The life of an API key: the plaintext returned by \<open>CreateAPIKey\<close> (nowhere stored) validates to
  the organization it was made for; revoking it under that organization makes it invalid, and
  revoking it under another one does not.
\<close>

lemma api_key_lifecycle:
  assumes "db_faults s = []" "db_random s \<noteq> []" "db_ids s \<noteq> []" "org_exists org s"
    and "list_all (\<lambda>k. k_id k \<noteq> hd (db_ids s)) (api_keys s)" "key_unused E (new_key_text s) s"
    and "other \<noteq> org"
  shows "\<exists>key s1. create_api_key E org nm s = (Inr (key, new_key_text s), s1) \<and>
     fst (validate_api_key E (new_key_text s) s1) = Inr org \<and>
     fst (validate_api_key E (new_key_text s) (snd (revoke_api_key other (ak_id key) s1))) = Inr org \<and>
     fst (validate_api_key E (new_key_text s) (snd (revoke_api_key org (ak_id key) s1))) =
       Inl (ErrText ''invalid or revoked API key'')"
proof -
  let ?pt = "new_key_text s"
  obtain key row s1 where c: "create_api_key E org nm s = (Inr (key, ?pt), s1)"
    "ak_id key = hd (db_ids s)" "k_id row = hd (db_ids s)" "k_org row = org" "k_revoked_at row = None"
    "k_hash row \<in> set (key_hashes E ?pt)" "api_keys s1 = api_keys s @ [row]" "db_faults s1 = []"
    by (rule create_api_key_run [OF assms(1-6)])
  have old: "List.find (\<lambda>k. k_hash k \<in> set (key_hashes E ?pt) \<and> k_revoked_at k = None) ks = None"
    if "map k_hash ks = map k_hash (api_keys s)" for ks
  proof -
    have "k_hash ` set ks = k_hash ` set (api_keys s)" using that by (metis list.set_map)
    moreover have "h \<notin> set (key_hashes E ?pt)" if "h \<in> k_hash ` set (api_keys s)" for h
      using that assms(6) by (auto simp: key_unused_def list_all_iff)
    ultimately have "k_hash k \<notin> set (key_hashes E ?pt)" if "k \<in> set ks" for k
      using that by (metis image_eqI)
    then show ?thesis by (auto simp: find_None_iff_all)
  qed
  have kept: "List.find (\<lambda>k. k_hash k \<in> set (key_hashes E ?pt) \<and> k_revoked_at k = None)
      (update_where P f (api_keys s)) = None" if "\<And>k. k_hash (f k) = k_hash k" for P f
    using that by (intro old map_update_where)
  have split: "update_where P f (api_keys s @ [row]) = update_where P f (api_keys s) @ [if P row then f row else row]" for P f
    by (simp add: update_where_def)
  from c(2-8) assms(7) old [of "api_keys s"] kept show ?thesis
    by (intro exI [of _ key] exI [of _ s1])
      (simp add: c(1) validate_api_key_run revoke_api_key_run find_append split)
qed

lemma api_key_lifecycle_witness:
  "\<exists>key s1. create_api_key demo_env ''a'' ''ci'' demo_db = (Inr (key, new_key_text demo_db), s1) \<and>
     fst (validate_api_key demo_env (new_key_text demo_db) s1) = Inr ''a'' \<and>
     fst (validate_api_key demo_env (new_key_text demo_db) (snd (revoke_api_key ''b'' (ak_id key) s1))) = Inr ''a'' \<and>
     fst (validate_api_key demo_env (new_key_text demo_db) (snd (revoke_api_key ''a'' (ak_id key) s1))) =
       Inl (ErrText ''invalid or revoked API key'')"
  by (rule api_key_lifecycle)
    (simp_all add: demo_db_def empty_db_def org_exists_def demo_org_def key_unused_def)

section \<open>Policy sets\<close>

definition publish :: "storage_env \<Rightarrow> string \<Rightarrow> string \<Rightarrow> string \<times> string \<times> string \<Rightarrow> db \<Rightarrow> policy_set res \<times> db" where
  "publish E org nm body s = (case body of (sel, yaml, hash) \<Rightarrow>
     upsert_policy_set E \<lparr>set_id = [], set_org = org, set_name = nm, set_selector = sel, set_yaml = yaml,
       set_hash = hash, set_version = 0, set_created_at = 0, set_updated_at = 0\<rparr> s)"

lemma find_update_where_const:
  assumes "List.find P rows = Some old" "P new"
  shows "List.find P (update_where P (\<lambda>_. new) rows) = Some new"
  using assms by (induction rows) (auto simp: update_where_def split: if_splits)

text \<open>
  \<open>UpsertPolicySet\<close> addressed by organization and name: the first publication of a name creates
  version 1; each later one keeps the id and adds one to the version; and what \<open>GetPolicySetByName\<close>
  returns afterwards is what was published last, under the version that was returned.
\<close>

lemma policy_set_versioning:
  assumes "db_faults s = []" and "publish E org nm (sel, yaml, hash) s = (Inr p, s1)"
  shows "set_version p = (case List.find (is_set org nm) (policy_sets s) of
            None \<Rightarrow> 1 | Some old \<Rightarrow> set_version old + 1) \<and>
     (case List.find (is_set org nm) (policy_sets s) of None \<Rightarrow> True | Some old \<Rightarrow> set_id p = set_id old) \<and>
     (\<exists>q. get_policy_set_by_name org nm s1 = (Inr (Some q), s1) \<and> set_id q = set_id p \<and>
        set_version q = set_version p \<and> set_yaml q = yaml \<and> set_hash q = hash \<and>
        jsonb E sel = Some (set_selector q))"
proof -
  define a where "a = \<lparr>set_id = [], set_org = org, set_name = nm, set_selector = sel, set_yaml = yaml,
       set_hash = hash, set_version = 0, set_created_at = 0, set_updated_at = 0\<rparr>"
  have a: "set_org a = org" "set_name a = nm" "set_yaml a = yaml" "set_hash a = hash" "set_selector a = sel"
    by (simp_all add: a_def)
  from assms have u: "upsert_body E a s = Inr (p, s1)"
    by (auto simp: publish_def a_def upsert_policy_set_def stmt_run split: sum.splits prod.splits)
  then obtain j where j: "jsonb E sel = Some j" by (auto simp: upsert_body_def a split: option.splits)
  have f1: "db_faults s1 = []"
    using u assms(1) by (auto simp: upsert_body_def fresh_id_def Let_def split: option.splits if_splits sum.splits list.splits)
  show ?thesis
  proof (cases "List.find (is_set org nm) (policy_sets s)")
    case (Some old)
    then have old: "is_set org nm old" by (auto dest: find_SomeD)
    define new where "new = old\<lparr>set_selector := j, set_yaml := yaml, set_hash := hash,
      set_version := set_version old + 1, set_updated_at := db_now s\<rparr>"
    have "is_set org nm new" using old by (simp add: is_set_def new_def)
    from find_update_where_const [OF Some this]
    have g: "List.find (is_set org nm) (update_where (is_set org nm) (\<lambda>_. new) (policy_sets s)) = Some new" .
    from u Some j have "s1 = s\<lparr>policy_sets := update_where (is_set org nm) (\<lambda>_. new) (policy_sets s)\<rparr>"
      "set_version p = set_version old + 1" "set_id p = set_id old"
      by (auto simp: upsert_body_def a Let_def new_def split: if_splits)
    with Some g f1 j show ?thesis
      by (simp add: get_policy_set_by_name_def select_run with_ctx_def new_def)
  next
    case None
    from u None j obtain i "is" where "db_ids s = i # is" "set_version p = 1" "set_id p = i"
      and s1: "s1 = s\<lparr>db_ids := is, policy_sets := policy_sets s @
        [a\<lparr>set_id := i, set_version := 1, set_created_at := db_now s, set_updated_at := db_now s, set_selector := j\<rparr>]\<rparr>"
      by (auto simp: upsert_body_def a Let_def fresh_id_def split: if_splits sum.splits list.splits)
    with None f1 j show ?thesis
      by (simp add: get_policy_set_by_name_def select_run with_ctx_def find_append is_set_def a)
  qed
qed

lemma policy_set_versioning_witness:
  "\<exists>p s1. publish demo_env ''a'' ''base'' (''{}'', ''y'', ''h'') demo_db = (Inr p, s1) \<and> set_version p = 1"
proof -
  obtain p s1 where e: "publish demo_env ''a'' ''base'' (''{}'', ''y'', ''h'') demo_db = (Inr p, s1)"
    by (simp add: publish_def upsert_policy_set_def stmt_def upsert_body_def demo_env_def demo_db_def
        empty_db_def fresh_id_def Let_def org_exists_def demo_org_def)
  have "db_faults demo_db = []" "policy_sets demo_db = []" by (simp_all add: demo_db_def empty_db_def)
  with policy_set_versioning [OF _ e] e show ?thesis by auto
qed

section \<open>Runs\<close>

text \<open>
  Uploading a run twice indexes it once: once \<open>InsertRun\<close> has succeeded, inserting any run with
  the same organization and id, at any later time, is \<open>ErrRunAlreadyExists\<close> and changes nothing, and
  the run read back is the first one, with its times cut to microseconds.
\<close>

lemma insert_run_idempotent:
  assumes "db_faults s = []" "db_ok s" and "insert_run r s = (Inr (), s1)"
    and "r_org r' = r_org r" "r_id r' = r_id r" "int4_opt (r_duration_ms r')" "int4_opt (r_exit_code r')"
    and "int4 (r_actions_total r')" "int4 (r_actions_allowed r')" "int4 (r_actions_denied r')"
  shows "insert_run r' s1 = (Inl err_run_already_exists, s1) \<and>
     get_run (r_org r) (r_id r) s1 =
       (Inr (Some (r\<lparr>r_started_at := micros (r_started_at r), r_expires_at := micros (r_expires_at r)\<rparr>)), s1)"
proof -
  let ?row = "r\<lparr>r_started_at := micros (r_started_at r), r_expires_at := micros (r_expires_at r)\<rparr>"
  from assms(1,3) have s1: "s1 = s\<lparr>runs := runs s @ [?row]\<rparr>"
    and new: "\<not> list_ex (\<lambda>q. r_org q = r_org r \<and> r_id q = r_id r) (runs s)"
    by (auto simp: insert_run_def stmt_run split: if_splits)
  have f: "db_faults s1 = []" using assms(1) by (simp add: s1)
  have "List.find (\<lambda>q. r_org q = r_org r \<and> r_id q = r_id r) (runs s) = None"
    using new by (auto simp: find_None_iff_all list_ex_iff)
  then have "get_run (r_org r) (r_id r) s1 = (Inr (Some ?row), s1)"
    using f by (simp add: get_run_def select_run with_ctx_def s1 find_append)
  moreover have "insert_run r' s1 = (Inl err_run_already_exists, s1)"
    using assms(4-10) f
    by (simp add: insert_run_def stmt_run s1 unique_violation_def pg_error_def)
  ultimately show ?thesis by simp
qed

definition demo_run :: "string \<Rightarrow> string \<Rightarrow> int \<Rightarrow> run" where
  "demo_run org i t = \<lparr>r_id = i, r_org = org, r_agent_name = ''bot'', r_agent_version = [], r_policy_hash = [],
     r_environment = ''default'', r_started_at = 0, r_duration_ms = None, r_exit_code = Some 0,
     r_actions_total = 3, r_actions_allowed = 2, r_actions_denied = 1, r_storage_key = org @ ''/'' @ i,
     r_expires_at = t, r_integrity_chain = True, r_chain_verified = False, r_truncated = False\<rparr>"

lemma insert_run_idempotent_witness:
  "\<exists>s1. insert_run (demo_run ''a'' ''r1'' 5000) demo_db = (Inr (), s1) \<and>
     fst (insert_run (demo_run ''a'' ''r1'' 9000) s1) = Inl err_run_already_exists"
proof -
  obtain s1 where e: "insert_run (demo_run ''a'' ''r1'' 5000) demo_db = (Inr (), s1)"
    by (simp add: insert_run_def stmt_def demo_run_def demo_db_def empty_db_def int4_opt_def int4_def
        org_exists_def demo_org_def)
  have "insert_run (demo_run ''a'' ''r1'' 9000) s1 = (Inl err_run_already_exists, s1) \<and>
     get_run (r_org (demo_run ''a'' ''r1'' 5000)) (r_id (demo_run ''a'' ''r1'' 5000)) s1 =
       (Inr (Some ((demo_run ''a'' ''r1'' 5000)\<lparr>r_started_at := micros (r_started_at (demo_run ''a'' ''r1'' 5000)),
          r_expires_at := micros (r_expires_at (demo_run ''a'' ''r1'' 5000))\<rparr>)), s1)"
    by (rule insert_run_idempotent [OF _ demo_db_ok e])
      (simp_all add: demo_run_def int4_opt_def int4_def demo_db_def empty_db_def)
  with e show ?thesis by auto
qed

section \<open>Sealed secrets\<close>

text \<open>
  The SSO client secret: what \<open>encryptSecret\<close> seals, \<open>decryptSecret\<close> opens to the same plaintext
  under the same key, and a blob whose bytes after the tag were changed opens only if the tag of the
  new bytes happens to be the same. A key that is neither hex of at least 16 bytes nor empty is
  hashed.
\<close>

lemma secret_roundtrip:
  assumes "\<And>k m. length (st_hmac E k m) = 32" and "encrypt_secret E plain = Inr enc"
  shows "decrypt_secret E enc = Inr plain \<and> length enc = 16 + length plain \<and>
     (\<forall>plain'. decrypt_secret E (take 16 enc @ plain') =
        (if take 16 enc = secret_tag E (case secrets_key E of Inr k \<Rightarrow> k | Inl _ \<Rightarrow> []) plain'
         then Inr plain' else Inl (ErrText (''hmac mismatch '' @ em_dash @ '' wrong RELIC_SECRETS_KEY?''))))"
proof -
  from assms(2) obtain k where k: "secrets_key E = Inr k" and enc: "enc = secret_tag E k plain @ plain"
    by (auto simp: encrypt_secret_def split: sum.splits)
  have len: "length (secret_tag E k p) = 16" for p by (simp add: secret_tag_def assms(1))
  show ?thesis by (simp add: decrypt_secret_def k enc len)
qed

lemma secret_roundtrip_witness:
  "decrypt_secret (demo_env\<lparr>st_hmac := \<lambda>k m. replicate 32 (CHR ''t''), st_sha256 := id\<rparr>)
     (replicate 16 (CHR ''t'') @ ''pw'') = Inr ''pw''"
proof -
  let ?E = "demo_env\<lparr>st_hmac := \<lambda>k m. replicate 32 (CHR ''t''), st_sha256 := id\<rparr>"
  have e: "encrypt_secret ?E ''pw'' = Inr (replicate 16 (CHR ''t'') @ ''pw'')"
    by (simp add: encrypt_secret_def secrets_key_def demo_env_def secret_tag_def hex_val_def Let_def)
  have l: "\<And>k m. length (st_hmac ?E k m) = 32" by simp
  from secret_roundtrip [OF l e] show ?thesis by blast
qed

text \<open>Saving a configuration with an empty client secret keeps the sealed one.\<close>

lemma upsert_keeps_secret:
  assumes "db_faults s = []" "cfg_client_secret c = []"
    and "List.find (\<lambda>r. sso_org r = cfg_org c) (sso_configs s) = Some r"
  shows "\<exists>r'. List.find (\<lambda>r. sso_org r = cfg_org c) (sso_configs (snd (upsert_sso_config E c s))) = Some r' \<and>
     sso_secret_enc r' = sso_secret_enc r"
proof -
  have ex: "list_ex (\<lambda>r. sso_org r = cfg_org c) (sso_configs s)"
    using find_SomeD [OF assms(3)] by (auto simp: list_ex_iff)
  have find: "List.find P (update_where P f rows) = map_option f (List.find P rows)"
    if "\<And>r. P r \<Longrightarrow> P (f r)" for P and f :: "sso_row \<Rightarrow> sso_row" and rows
    using that by (induction rows) (auto simp: update_where_def)
  show ?thesis
    using ex assms by (simp add: upsert_sso_config_def write_sso_def stmt_run Let_def find)
qed

section \<open>Labels and selectors\<close>

text \<open>The label query against its meaning: every pair of the selector is a label of the agent.\<close>

definition has_labels :: "(string \<times> string) list \<Rightarrow> db \<Rightarrow> agent_row \<Rightarrow> bool" where
  "has_labels kvs s a \<longleftrightarrow> list_all (\<lambda>(k, v). list_ex (\<lambda>l. lab_agent l = a_id a \<and> lab_key l = k \<and> lab_value l = v) (labels s)) kvs"

lemma selector_matches_iff:
  assumes "distinct (map (\<lambda>l. (lab_agent l, lab_key l)) (labels s))" "distinct (map fst kvs)" "kvs \<noteq> []"
  shows "selector_matches kvs s a \<longleftrightarrow> has_labels kvs s a"
proof -
  let ?hits = "label_hits kvs (a_id a) (labels s)"
  have sub: "lab_key ` set ?hits \<subseteq> fst ` set kvs"
    by (auto simp: label_hits_def list_ex_iff image_iff) force
  have card: "length (remdups (map lab_key ?hits)) = card (lab_key ` set ?hits)"
    by (metis length_remdups_card_conv list.set_map)
  have n: "length kvs = card (fst ` set kvs)"
    using assms(2) by (metis distinct_card length_map list.set_map)
  have all: "lab_key ` set ?hits = fst ` set kvs \<longleftrightarrow> has_labels kvs s a"
  proof
    assume eq: "lab_key ` set ?hits = fst ` set kvs"
    have "list_ex (\<lambda>l. lab_agent l = a_id a \<and> lab_key l = k \<and> lab_value l = v) (labels s)" if kv: "(k, v) \<in> set kvs" for k v
    proof -
      from kv eq obtain l where l: "l \<in> set ?hits" "lab_key l = k" by (metis fst_conv image_iff)
      then obtain k' v' where "(k', v') \<in> set kvs" "lab_key l = k'" "lab_value l = v'" "l \<in> set (labels s)" "lab_agent l = a_id a"
        by (auto simp: label_hits_def list_ex_iff)
      moreover from this kv l(2) have "v' = v" using assms(2) by (metis eq_key_imp_eq_value)
      ultimately show ?thesis using l(2) by (auto simp: list_ex_iff)
    qed
    then show "has_labels kvs s a" by (auto simp: has_labels_def list_all_iff)
  next
    assume h: "has_labels kvs s a"
    have "k \<in> lab_key ` set ?hits" if kv: "(k, v) \<in> set kvs" for k v
    proof -
      from h kv obtain l where "l \<in> set (labels s)" "lab_agent l = a_id a" "lab_key l = k" "lab_value l = v"
        by (auto simp: has_labels_def list_all_iff list_ex_iff)
      with kv have "l \<in> set ?hits" by (auto simp: label_hits_def list_ex_iff)
      with \<open>lab_key l = k\<close> show ?thesis by auto
    qed
    with sub show "lab_key ` set ?hits = fst ` set kvs" by auto
  qed
  have "selector_matches kvs s a \<longleftrightarrow> card (lab_key ` set ?hits) = card (fst ` set kvs) \<and> ?hits \<noteq> []"
    by (simp add: selector_matches_def card n)
  also have "\<dots> \<longleftrightarrow> lab_key ` set ?hits = fst ` set kvs"
    using sub assms(3) by (metis List.finite_set card_subset_eq finite_imageI image_is_empty set_empty)
  finally show ?thesis using all by simp
qed

lemma by_agent_name_weak: "strict_weak_on S by_agent_name"
  unfolding strict_weak_on_def by_agent_name_def by (metis string_le_total string_le_trans)

text \<open>
  C39. The match arm of a selector resolves, in name order, to exactly the organization's agents that
  carry every one of its pairs: counting the distinct keys hit by the OR of the pairs amounts to
  their conjunction because a label key occurs once per agent and a key once in the selector.
\<close>

theorem resolve_selector_exact:
  assumes "db_faults s = []" "db_ok s" "unmarshal_struct sel = Some ms"
    and "field_string ''agent_name'' ms = Some []" "field_string_map ''match'' ms = Some kvs" "kvs \<noteq> []"
  shows "\<exists>as. resolve_selector org sel s = (Inr (map agent_of as), s) \<and>
     mset as = mset (filter (\<lambda>a. a_org a = org \<and> has_labels kvs s a) (agents s)) \<and>
     sorted_wrt (\<lambda>a b. \<not> by_agent_name b a) as"
proof (intro exI conjI)
  let ?as = "order_by by_agent_name (filter (\<lambda>a. a_org a = org \<and> has_labels kvs s a) (agents s))"
  have "selector_matches kvs s a = has_labels kvs s a" for a
    using assms(2,6) distinct_field_string_map [OF assms(5)]
    by (intro selector_matches_iff) (auto simp: db_ok_defs)
  with assms show "resolve_selector org sel s = (Inr (map agent_of ?as), s)"
    by (simp add: resolve_selector_def select_run with_ctx_def)
  show "mset ?as = mset (filter (\<lambda>a. a_org a = org \<and> has_labels kvs s a) (agents s))" by simp
  show "sorted_wrt (\<lambda>a b. \<not> by_agent_name b a) ?as" by (rule order_by_sorted [OF by_agent_name_weak])
qed

lemma resolve_selector_exact_witness:
  "\<exists>as. resolve_selector ''a'' (jq ''{`match`:{`env`:`prod`}}'') demo_db = (Inr (map agent_of as), demo_db) \<and> as = []"
proof -
  have ms: "unmarshal_struct (jq ''{`match`:{`env`:`prod`}}'') = Some [(''match'', JObj [(''env'', JStr ''prod'')])]"
    by (simp add: json_eval)
  have f: "field_string ''agent_name'' [(''match'', JObj [(''env'', JStr ''prod'')])] = Some []"
    "field_string_map ''match'' [(''match'', JObj [(''env'', JStr ''prod'')])] = Some [(''env'', ''prod'')]"
    by (simp_all add: json_eval)
  have d: "db_faults demo_db = []" "agents demo_db = []" by (simp_all add: demo_db_def empty_db_def)
  from resolve_selector_exact [OF d(1) demo_db_ok ms f, of "''a''"] d(2) show ?thesis by auto
qed

end
