(* ===== verification/Server.thy ===== *)
theory Server
  imports Trace_Parse Flow_Cookie Storage_Props "HOL-Library.State_Monad"
begin

text \<open>
  What the handlers of \<open>internal/api\<close> share: the server's configuration and the world behind it (the
  database, the S3 bucket, the two PostgreSQL notification channels), request bodies, the organization
  check, the audit log and the JSON of the stored records. A handler is a state transformer on the
  world, written in the state monad.
\<close>

section \<open>The server and its world\<close>

record server =
  sv_env :: storage_env
  sv_policy :: policy_libs
  sv_trace :: trace_libs
  sv_times :: time_libs
  sv_auth :: auth_libs
  sv_rfc3339 :: "int \<Rightarrow> string"
  sv_millis :: "int \<Rightarrow> string"
  sv_presign :: "string \<Rightarrow> string res"
  sv_master :: string
  sv_require_sealed :: bool
  sv_has_live :: bool
  sv_has_feed :: bool
  sv_provider :: auth_provider
  sv_session_secret :: string
  sv_insecure_cookies :: bool
  sv_fragment_delivery :: bool

record world =
  w_db :: db
  w_blobs :: "string \<rightharpoonup> string"
  w_s3_faults :: "bool list"
  w_now :: int
  w_feed :: "string list"
  w_live :: "string list"
  w_rand :: "string list"
  w_uploads :: "string list"

type_synonym 'a act = "(world, 'a) state"

definition db_call :: "'a io \<Rightarrow> 'a res act" where
  "db_call oper = State (\<lambda>w. case oper (w_db w) of (x, d) \<Rightarrow> (x, w\<lparr>w_db := d\<rparr>))"

definition clock :: "int act" where
  "clock = State (\<lambda>w. (w_now w, w))"

text \<open>\<open>rand.Read\<close>; \<open>None\<close> is its error.\<close>

definition random_bytes :: "string option act" where
  "random_bytes = State (\<lambda>w. case w_rand w of [] \<Rightarrow> (None, w) | b # bs \<Rightarrow> (Some b, w\<lparr>w_rand := bs\<rparr>))"

text \<open>\<open>metrics.TraceUploads.WithLabelValues(outcome).Inc()\<close>.\<close>

definition count_upload :: "string \<Rightarrow> unit act" where
  "count_upload label = State (\<lambda>w. ((), w\<lparr>w_uploads := w_uploads w @ [label]\<rparr>))"

section \<open>The bucket\<close>

definition s3_call :: "((string \<rightharpoonup> string) \<Rightarrow> go_error + 'a \<times> (string \<rightharpoonup> string)) \<Rightarrow> 'a res act" where
  "s3_call body = State (\<lambda>w.
     let w1 = w\<lparr>w_s3_faults := tl (w_s3_faults w)\<rparr> in
     if w_s3_faults w \<noteq> [] \<and> hd (w_s3_faults w) then (Inl (ErrText ''s3: request failed''), w1)
     else case body (w_blobs w) of
       Inl e \<Rightarrow> (Inl e, w1)
     | Inr (x, b) \<Rightarrow> (Inr x, w1\<lparr>w_blobs := b\<rparr>))"

definition wrap_error :: "string \<Rightarrow> 'a res \<Rightarrow> 'a res" where
  "wrap_error pre r = map_sum (\<lambda>e. ErrWrap pre e []) id r"

definition s3_upload :: "string \<Rightarrow> string \<Rightarrow> unit res act" where
  "s3_upload key data = do {
     r \<leftarrow> s3_call (\<lambda>b. Inr ((), b(key \<mapsto> data)));
     State_Monad.return (wrap_error ''upload to S3: '' r) }"

definition s3_upload_bytes :: "string \<Rightarrow> string \<Rightarrow> unit res act" where
  "s3_upload_bytes key data = s3_upload key data"

definition s3_download :: "string \<Rightarrow> string res act" where
  "s3_download key = do {
     r \<leftarrow> s3_call (\<lambda>b. case b key of None \<Rightarrow> Inl (ErrText ''NoSuchKey'') | Some data \<Rightarrow> Inr (data, b));
     State_Monad.return (wrap_error ''download from S3: '' r) }"

definition s3_delete :: "string \<Rightarrow> unit res act" where
  "s3_delete key = s3_call (\<lambda>b. Inr ((), b(key := None)))"

section \<open>Requests\<close>

text \<open>
  A body: \<open>None\<close> is one that cannot be read (nil, or a failing connection). \<open>read_max\<close> is \<open>ReadAll\<close> of
  \<open>MaxBytesReader\<close>, \<open>read_limited\<close> of \<open>LimitReader\<close>, \<open>decode_max\<close> the decoder over \<open>MaxBytesReader\<close>.
\<close>

definition read_max :: "nat \<Rightarrow> request \<Rightarrow> string option" where
  "read_max n r = (case rq_body r of None \<Rightarrow> None | Some b \<Rightarrow> if length b > n then None else Some b)"

definition read_limited :: "nat \<Rightarrow> request \<Rightarrow> string option" where
  "read_limited n r = map_option (take n) (rq_body r)"

definition decode_max :: "nat \<Rightarrow> request \<Rightarrow> (string \<times> json) list option" where
  "decode_max n r = Option.bind (rq_body r) (\<lambda>b. decode_first (take n b))"

text \<open>The value \<open>strconv.Atoi\<close> returns beside its error: 0, or the bound a number in range exceeds.\<close>

definition atoi_value :: "string \<Rightarrow> int" where
  "atoi_value s = (case atoi s of
     Some i \<Rightarrow> i
   | None \<Rightarrow>
       let neg = (s \<noteq> [] \<and> hd s = CHR ''-''); signed = (s \<noteq> [] \<and> (hd s = CHR ''-'' \<or> hd s = CHR ''+''));
           digits = (if signed then tl s else s)
       in if digits \<noteq> [] \<and> list_all is_digit digits then (if neg then - (2 ^ 63) else 2 ^ 63 - 1) else 0)"

definition page_limit :: "int \<Rightarrow> request \<Rightarrow> int" where
  "page_limit mx r = (let l = atoi_value (query_get ''limit'' r) in if l \<le> 0 \<or> l > mx then 50 else l)"

definition page_offset :: "request \<Rightarrow> int" where
  "page_offset r = (let off = atoi_value (query_get ''offset'' r) in if off < 0 then 0 else off)"

definition require_org :: "request \<Rightarrow> (string \<Rightarrow> response act) \<Rightarrow> response act" where
  "require_org r k = (if org_id_from_context r = [] then State_Monad.return (write_json_error 403 ''org_id required'')
     else k (org_id_from_context r))"

definition require_matching_org :: "request \<Rightarrow> (string \<Rightarrow> response act) \<Rightarrow> response act" where
  "require_matching_org r k =
     (let pathOrg = url_param ''orgID'' r; ctxOrg = org_id_from_context r in
      if ctxOrg = [] then State_Monad.return (write_json_error 401 ''no org in context'')
      else if pathOrg \<noteq> [] \<and> pathOrg \<noteq> ctxOrg then State_Monad.return (write_json_error 403 ''cross-org access denied'')
      else k ctxOrg)"

definition respond :: "nat \<Rightarrow> json \<Rightarrow> response act" where
  "respond code body = State_Monad.return (reply code body)"

definition respond_error :: "nat \<Rightarrow> string \<Rightarrow> response act" where
  "respond_error code msg = State_Monad.return (write_json_error code msg)"

definition no_content :: "nat \<Rightarrow> response" where
  "no_content code = \<lparr>rs_status = code, rs_body = JNull, rs_headers = [], rs_cookies = []\<rparr>"

definition redirect :: "string \<Rightarrow> response" where
  "redirect url = \<lparr>rs_status = 302, rs_body = JNull, rs_headers = [(''Location'', url)], rs_cookies = []\<rparr>"

section \<open>The audit log\<close>

text \<open>\<open>json.Marshal\<close> of the metadata maps: keys sorted, flat values or a map of strings.\<close>

definition object_text :: "(string \<times> string) list \<Rightarrow> string" where
  "object_text kvs = ''{'' @ join_with '','' (map (\<lambda>(k, v). json_string k @ '':'' @ v)
     (slice_stable (\<lambda>a b. \<not> string_le (fst b) (fst a)) kvs)) @ ''}''"

fun meta_text :: "json \<Rightarrow> string" where
  "meta_text (JStr s) = json_string s"
| "meta_text (JNum n) = n"
| "meta_text (JBool b) = (if b then ''true'' else ''false'')"
| "meta_text (JObj kvs) = object_text (map (\<lambda>(k, v). (k, case v of JStr s \<Rightarrow> json_string s | _ \<Rightarrow> ''null'')) kvs)"
| "meta_text _ = ''null''"

definition audit_meta :: "(string \<times> json) list \<Rightarrow> string" where
  "audit_meta kvs = object_text (map (\<lambda>(k, v). (k, meta_text v)) kvs)"

definition audit_user :: "request \<Rightarrow> string" where
  "audit_user r = (if user_id_from_context r = [] then ''api-key'' else user_id_from_context r)"

definition audit_log :: "server \<Rightarrow> request \<Rightarrow> string \<Rightarrow> string \<Rightarrow> string \<Rightarrow> (string \<times> json) list option \<Rightarrow> unit act" where
  "audit_log S r action resource rid meta =
     (if org_id_from_context r = [] then State_Monad.return ()
      else do {
        _ \<leftarrow> db_call (insert_audit_event (sv_env S) (org_id_from_context r) (audit_user r) action resource rid
               (map_option audit_meta meta));
        State_Monad.return () })"

section \<open>The records in JSON\<close>

text \<open>A \<open>[]byte\<close> is written in padded standard base64.\<close>

definition b64_std :: "string \<Rightarrow> string" where
  "b64_std s = (let e = map (\<lambda>c. if c = CHR ''-'' then CHR ''+'' else if c = CHR ''_'' then CHR ''/'' else c) (b64url_encode s)
     in e @ replicate ((4 - length e mod 4) mod 4) (CHR ''=''))"

definition opt_member :: "string \<Rightarrow> ('a \<Rightarrow> json) \<Rightarrow> 'a option \<Rightarrow> (string \<times> json) list" where
  "opt_member k enc v = (case v of None \<Rightarrow> [] | Some x \<Rightarrow> [(k, enc x)])"

definition str_member :: "string \<Rightarrow> string \<Rightarrow> (string \<times> json) list" where
  "str_member k v = (if v = [] then [] else [(k, JStr v)])"

definition run_json :: "run \<Rightarrow> json" where
  "run_json r = JObj ([(''id'', JStr (r_id r)), (''org_id'', JStr (r_org r)), (''agent_name'', JStr (r_agent_name r)),
     (''agent_version'', JStr (r_agent_version r)), (''policy_hash'', JStr (r_policy_hash r)),
     (''environment'', JStr (r_environment r)), (''started_at'', JTime (r_started_at r))] @
     opt_member ''duration_ms'' JInt (r_duration_ms r) @ opt_member ''exit_code'' JInt (r_exit_code r) @
     [(''actions_total'', JInt (r_actions_total r)), (''actions_allowed'', JInt (r_actions_allowed r)),
      (''actions_denied'', JInt (r_actions_denied r)), (''expires_at'', JTime (r_expires_at r)),
      (''integrity_chain'', JBool (r_integrity_chain r)), (''chain_verified'', JBool (r_chain_verified r)),
      (''truncated'', JBool (r_truncated r))])"

definition agent_json :: "agent \<Rightarrow> json" where
  "agent_json a = JObj ([(''id'', JStr (a_id a)), (''org_id'', JStr (a_org a)), (''name'', JStr (a_name a)),
     (''version'', JStr (a_version a)), (''identity_manifest'', JStr (b64_std (a_manifest a))),
     (''capabilities_hash'', JStr (a_capabilities_hash a)), (''policy_hash'', JStr (a_policy_hash a)),
     (''registered_at'', JTime (a_registered_at a)), (''last_seen'', JTime (a_last_seen a))] @
     opt_member ''applied_policy_hash'' JStr (a_applied_hash a) @ opt_member ''applied_at'' JTime (a_applied_at a))"

text \<open>A \<open>float64\<close> average stands as the exact fraction it approximates.\<close>

definition rat_json :: "rat \<Rightarrow> json" where
  "rat_json q = (case quotient_of q of (n, d) \<Rightarrow> JArr [JInt n, JInt d])"

definition baseline_json :: "agent_baseline \<Rightarrow> json" where
  "baseline_json b = JObj [(''agent_id'', JStr (b_agent b)), (''computed_at'', JTime (b_computed_at b)),
     (''window_days'', JInt (b_window_days b)), (''avg_actions_per_run'', rat_json (b_avg_actions b)),
     (''avg_denials_per_run'', rat_json (b_avg_denials b)), (''tool_distribution'', JStr (b64_std (b_tools b)))]"

definition org_json :: "organization \<Rightarrow> json" where
  "org_json g = JObj [(''id'', JStr (org_id g)), (''name'', JStr (org_name g)), (''slug'', JStr (org_slug g)),
     (''plan'', JStr (org_plan g)), (''created_at'', JTime (org_created_at g))]"

definition key_json :: "api_key \<Rightarrow> json" where
  "key_json k = JObj ([(''id'', JStr (ak_id k)), (''org_id'', JStr (ak_org k)), (''key_prefix'', JStr (ak_prefix k)),
     (''name'', JStr (ak_name k)), (''created_at'', JTime (ak_created_at k))] @
     opt_member ''revoked_at'' JTime (ak_revoked_at k))"

definition proposal_json :: "proposal \<Rightarrow> json" where
  "proposal_json p = JObj ([(''id'', JStr (pr_id p)), (''org_id'', JStr (pr_org p)), (''agent_name'', JStr (pr_agent_name p)),
     (''status'', JStr (pr_status p)), (''trigger_type'', JStr (pr_trigger p)),
     (''evidence'', JStr (b64_std (pr_evidence p))), (''proposed_rule'', JStr (b64_std (pr_rule p))),
     (''created_at'', JTime (pr_created_at p))] @
     opt_member ''decided_at'' JTime (pr_decided_at p) @ opt_member ''decided_by'' JStr (pr_decided_by p))"

section \<open>Reasoning about actions\<close>

text \<open>
  \<open>leads I m\<close>: whatever the world, running \<open>m\<close> relates it to the world after by \<open>I\<close>; for a reflexive
  and transitive \<open>I\<close> the rules follow the structure of the action.
\<close>

definition leads :: "(world \<Rightarrow> world \<Rightarrow> bool) \<Rightarrow> 'a act \<Rightarrow> bool" where
  "leads I m \<longleftrightarrow> (\<forall>w. I w (snd (run_state m w)))"

locale world_relation =
  fixes I :: "world \<Rightarrow> world \<Rightarrow> bool"
  assumes I_refl: "I w w"
    and I_trans: "I a b \<Longrightarrow> I b c \<Longrightarrow> I a c"
    and I_aux: "w_db w' = w_db w \<Longrightarrow> w_blobs w' = w_blobs w \<Longrightarrow> I w w'"
begin

lemma leads_return: "leads I (State_Monad.return x)"
  by (simp add: leads_def I_refl)

lemma leads_bind: "leads I m \<Longrightarrow> (\<And>x. leads I (k x)) \<Longrightarrow> leads I (State_Monad.bind m k)"
  unfolding leads_def by (auto split: prod.splits) (metis I_trans snd_conv)

lemma leads_if: "(b \<Longrightarrow> leads I m) \<Longrightarrow> (\<not> b \<Longrightarrow> leads I n) \<Longrightarrow> leads I (if b then m else n)"
  by simp

lemma leads_option: "(v = None \<Longrightarrow> leads I m) \<Longrightarrow> (\<And>x. v = Some x \<Longrightarrow> leads I (k x)) \<Longrightarrow>
    leads I (case v of None \<Rightarrow> m | Some x \<Rightarrow> k x)"
  by (cases v) auto

lemma leads_sum: "(\<And>e. v = Inl e \<Longrightarrow> leads I (m e)) \<Longrightarrow> (\<And>x. v = Inr x \<Longrightarrow> leads I (k x)) \<Longrightarrow>
    leads I (case v of Inl e \<Rightarrow> m e | Inr x \<Rightarrow> k x)"
  by (cases v) auto

lemma leads_prod: "(\<And>a b. v = (a, b) \<Longrightarrow> leads I (k a b)) \<Longrightarrow> leads I (case v of (a, b) \<Rightarrow> k a b)"
  by (cases v) auto

lemma leads_clock: "leads I clock"
  by (simp add: leads_def clock_def I_refl)

lemma leads_random: "leads I random_bytes"
  by (auto simp: leads_def random_bytes_def I_refl intro!: I_aux split: list.splits)

lemma leads_count: "leads I (count_upload l)"
  by (auto simp: leads_def count_upload_def intro!: I_aux)

lemma leads_respond: "leads I (respond c b)" "leads I (respond_error c m)"
  by (simp_all add: respond_def respond_error_def leads_return)

lemma leads_require_org: "(\<And>g. g = org_id_from_context r \<Longrightarrow> g \<noteq> [] \<Longrightarrow> leads I (k g)) \<Longrightarrow> leads I (require_org r k)"
  by (simp add: require_org_def leads_return)

lemma leads_matching_org:
  "(\<And>g. g = org_id_from_context r \<Longrightarrow> g \<noteq> [] \<Longrightarrow> leads I (k g)) \<Longrightarrow> leads I (require_matching_org r k)"
  by (simp add: require_matching_org_def leads_return Let_def)

lemmas leads_rules = leads_return leads_bind leads_if leads_option leads_sum leads_prod leads_clock
  leads_random leads_count leads_respond leads_require_org leads_matching_org

end

text \<open>The rows of one existing organization stay as they are, and the constraints hold.\<close>

definition db_keeps :: "string \<Rightarrow> world \<Rightarrow> world \<Rightarrow> bool" where
  "db_keeps org w w' \<longleftrightarrow> (if org_exists org (w_db w) then keeps org (w_db w) (w_db w') else True)"

lemma view_org_exists: "org_view org s = org_view org s' \<Longrightarrow> org_exists org s = org_exists org s'"
  by (simp add: org_view_def org_exists_def list_ex_filter)

lemma db_keeps_trans: "db_keeps org a b \<Longrightarrow> db_keeps org b c \<Longrightarrow> db_keeps org a c"
  using view_org_exists [of org "w_db a" "w_db b"]
  by (auto simp: db_keeps_def keeps_def split: if_splits)

interpretation others: world_relation "db_keeps org" for org
  by unfold_locales (simp add: db_keeps_def, erule (1) db_keeps_trans, simp add: db_keeps_def)

lemma leads_db_call: "(\<And>s. keeps org s (snd (oper s))) \<Longrightarrow> leads (db_keeps org) (db_call oper)"
  by (auto simp: leads_def db_call_def db_keeps_def split: prod.splits) (metis snd_conv)

lemma leads_s3_call: "leads (db_keeps org) (s3_call body)"
  by (auto simp: leads_def s3_call_def db_keeps_def Let_def split: sum.splits prod.splits)

lemma leads_s3:
  "leads (db_keeps org) (s3_upload key data)" "leads (db_keeps org) (s3_upload_bytes key data)"
  "leads (db_keeps org) (s3_download key)" "leads (db_keeps org) (s3_delete key)"
  by (auto simp: s3_upload_def s3_upload_bytes_def s3_download_def s3_delete_def
      intro!: others.leads_rules leads_s3_call)

lemma leads_audit: "org_id_from_context r \<noteq> org \<Longrightarrow> leads (db_keeps org) (audit_log S r a res rid meta)"
  by (auto simp: audit_log_def intro!: others.leads_rules leads_db_call op_keeps)

end
