(* ===== verification/Handlers_Traces.thy ===== *)
theory Handlers_Traces
  imports Server
begin

text \<open>
  \<open>internal/api/traces.go\<close>, \<open>agents.go\<close> and \<open>orgs.go\<close>: trace upload, listing, download and deletion,
  agent registration and policies, organizations and API keys. Log lines and OpenTelemetry events are
  left out; the upload counter is kept.
\<close>

section \<open>Traces\<close>

definition max_trace_bytes :: nat where
  "max_trace_bytes = 100 * 1024 * 1024"

definition identifier_char :: "char \<Rightarrow> bool" where
  "identifier_char c \<longleftrightarrow> (let n = of_char c :: nat in
     (65 \<le> n \<and> n \<le> 90) \<or> (97 \<le> n \<and> n \<le> 122) \<or> (48 \<le> n \<and> n \<le> 57)) \<or>
     c = CHR ''_'' \<or> c = CHR ''.'' \<or> c = CHR ''-'' \<or> c = CHR '':''"

definition valid_identifier :: "string \<Rightarrow> bool" where
  "valid_identifier s \<longleftrightarrow> 1 \<le> length s \<and> length s \<le> 64 \<and> list_all identifier_char s"

definition sanitize_identifier :: "string \<Rightarrow> string \<Rightarrow> string" where
  "sanitize_identifier s fallback = (if valid_identifier s then s else fallback)"

definition trace_key :: "string \<Rightarrow> string \<Rightarrow> string \<Rightarrow> string" where
  "trace_key org agent_name rid = org @ ''/'' @ agent_name @ ''/'' @ rid @ ''.trtrace.gz''"

definition same_sentinel :: "go_error \<Rightarrow> go_error \<Rightarrow> bool" where
  "same_sentinel e target = errors_is e (error_text target)"

definition upload_refused :: "server \<Rightarrow> request \<Rightarrow> summary option \<Rightarrow> go_error \<Rightarrow> response act" where
  "upload_refused S r su e =
     (if same_sentinel e err_empty_trace then do {
        count_upload ''empty''; respond_error 400 ''trace contains no events'' }
      else if same_sentinel e err_missing_run_start then do {
        count_upload ''missing_run_start''; respond_error 400 ''trace missing run-start event'' }
      else if same_sentinel e err_too_large then do {
        count_upload ''too_large''; respond_error 413 ''trace event line exceeds maximum'' }
      else if same_sentinel e err_chain_broken then do {
        audit_log S r ''trace.upload'' ''run'' (case su of None \<Rightarrow> [] | Some s \<Rightarrow> su_run_id s)
          (Some [(''rejected'', JStr ''chain_broken'')]);
        count_upload ''chain_broken''; respond_error 422 ''trace HMAC chain failed verification'' }
      else if same_sentinel e err_chain_expected then do {
        count_upload ''chain_expected''; respond_error 422 ''this platform requires sealed traces (RELIC_TRACE_KEY)'' }
      else do { count_upload ''parse_failed''; respond_error 400 ''trace is not valid gzipped NDJSON'' })"

definition trace_agent :: "request \<Rightarrow> summary \<Rightarrow> string" where
  "trace_agent r su = (let a = sanitize_identifier (su_agent_name su) [] in
     if a = [] then sanitize_identifier (header_get ''X-Relic-Agent-Name'' r) ''unknown'' else a)"

definition trace_environment :: "request \<Rightarrow> summary \<Rightarrow> string" where
  "trace_environment r su = (let e = sanitize_identifier (su_environment su) [] in
     if e = [] then sanitize_identifier (header_get ''X-Relic-Environment'' r) ''default'' else e)"

definition run_of_summary :: "request \<Rightarrow> string \<Rightarrow> int \<Rightarrow> summary \<Rightarrow> run" where
  "run_of_summary r org expires su =
     \<lparr>r_id = su_run_id su, r_org = org, r_agent_name = trace_agent r su, r_agent_version = su_agent_version su,
      r_policy_hash = su_policy_hash su, r_environment = trace_environment r su, r_started_at = su_started_at su,
      r_duration_ms = su_duration_ms su, r_exit_code = su_exit_code su,
      r_actions_total = int (su_actions_total su), r_actions_allowed = int (su_actions_allowed su),
      r_actions_denied = int (su_actions_denied su),
      r_storage_key = trace_key org (trace_agent r su) (su_run_id su), r_expires_at = expires,
      r_integrity_chain = su_has_chain su, r_chain_verified = su_chain_verified su, r_truncated = su_truncated su\<rparr>"

definition upload_accepted :: "server \<Rightarrow> run \<Rightarrow> response act" where
  "upload_accepted S q = respond 201 (JObj [(''run_id'', JStr (r_id q)),
     (''expires_at'', JStr (sv_rfc3339 S (r_expires_at q))), (''actions_total'', JInt (r_actions_total q)),
     (''actions_allowed'', JInt (r_actions_allowed q)), (''actions_denied'', JInt (r_actions_denied q)),
     (''integrity_chain'', JBool (r_integrity_chain q)), (''chain_verified'', JBool (r_chain_verified q)),
     (''truncated'', JBool (r_truncated q))])"

definition index_failed :: "server \<Rightarrow> string \<Rightarrow> string \<Rightarrow> go_error \<Rightarrow> response act" where
  "index_failed S org rid e =
     (if same_sentinel e err_run_already_exists then do {
        g \<leftarrow> db_call (get_run org rid);
        case g of
          Inr (Some q) \<Rightarrow> respond 200 (JObj [(''run_id'', JStr (r_id q)),
            (''expires_at'', JStr (sv_rfc3339 S (r_expires_at q))), (''duplicate'', JBool True)])
        | _ \<Rightarrow> respond_error 500 ''index error'' }
      else respond_error 500 ''index error'')"

definition index_trace :: "server \<Rightarrow> request \<Rightarrow> string \<Rightarrow> string \<Rightarrow> summary \<Rightarrow> response act" where
  "index_trace S r body org su =
     (if sanitize_identifier (su_run_id su) [] = [] then respond_error 400 ''trace missing run id''
      else do {
        now \<leftarrow> clock;
        let q = run_of_summary r org (now + 30 * day_nanos) su;
        ins \<leftarrow> db_call (insert_run q);
        case ins of
          Inl e \<Rightarrow> index_failed S org (r_id q) e
        | Inr _ \<Rightarrow> do {
            up \<leftarrow> s3_upload_bytes (r_storage_key q) body;
            case up of
              Inl e \<Rightarrow> do { _ \<leftarrow> db_call (delete_run org (r_id q)); respond_error 500 ''storage error'' }
            | Inr _ \<Rightarrow> do {
                _ \<leftarrow> db_call (update_agent_last_seen org (r_agent_name q));
                audit_log S r ''trace.upload'' ''run'' (r_id q) (Some [(''agent_name'', JStr (r_agent_name q)),
                  (''actions_total'', JInt (r_actions_total q)), (''actions_denied'', JInt (r_actions_denied q)),
                  (''integrity_chain'', JBool (r_integrity_chain q)), (''chain_verified'', JBool (r_chain_verified q))]);
                count_upload ''accepted'';
                upload_accepted S q } } })"

definition handle_upload_trace :: "server \<Rightarrow> request \<Rightarrow> response act" where
  "handle_upload_trace S r = require_org r (\<lambda>org.
     case read_max max_trace_bytes r of
       None \<Rightarrow> respond_error 413 ''trace exceeds maximum size''
     | Some body \<Rightarrow> do {
         now \<leftarrow> clock;
         case parse_and_verify (sv_trace S) now body (sv_master S) (sv_require_sealed S) of
           (su, Some e) \<Rightarrow> upload_refused S r su e
         | (Some su, None) \<Rightarrow> index_trace S r body org su
         | (None, None) \<Rightarrow> respond_error 400 ''trace missing run id'' })"

definition handle_list_traces :: "server \<Rightarrow> request \<Rightarrow> response act" where
  "handle_list_traces S r = require_org r (\<lambda>org. do {
     res \<leftarrow> db_call (list_runs org (query_get ''agent'' r) (page_limit 100 r) (page_offset r));
     case res of
       Inl e \<Rightarrow> respond_error 500 ''database error''
     | Inr rs \<Rightarrow> respond 200 (JObj [(''runs'', JArr (map run_json rs)), (''count'', JInt (int (length rs)))]) })"

definition handle_get_trace :: "server \<Rightarrow> request \<Rightarrow> response act" where
  "handle_get_trace S r = require_org r (\<lambda>org. do {
     res \<leftarrow> db_call (get_run org (url_param ''runID'' r));
     case res of
       Inl e \<Rightarrow> respond_error 500 ''database error''
     | Inr None \<Rightarrow> respond_error 404 ''run not found''
     | Inr (Some q) \<Rightarrow> respond 200 (run_json q) })"

definition handle_get_trace_events :: "server \<Rightarrow> request \<Rightarrow> response act" where
  "handle_get_trace_events S r = require_org r (\<lambda>org. do {
     res \<leftarrow> db_call (get_run org (url_param ''runID'' r));
     case res of
       Inr (Some q) \<Rightarrow>
         if query_get ''inline'' r \<noteq> ''1'' then
           (case sv_presign S (r_storage_key q) of
              Inl e \<Rightarrow> respond_error 500 ''storage error''
            | Inr url \<Rightarrow> State_Monad.return (redirect url))
         else do {
           d \<leftarrow> s3_download (r_storage_key q);
           case d of
             Inl e \<Rightarrow> respond_error 500 ''storage error''
           | Inr bytes \<Rightarrow> State_Monad.return \<lparr>rs_status = 200, rs_body = JRaw bytes,
               rs_headers = [(''Content-Type'', ''application/gzip''),
                 (''Content-Disposition'', ''attachment; filename='' @ url_param ''runID'' r @ ''.trtrace.gz'')],
               rs_cookies = []\<rparr> }
     | _ \<Rightarrow> respond_error 404 ''run not found'' })"

definition handle_delete_trace :: "server \<Rightarrow> request \<Rightarrow> response act" where
  "handle_delete_trace S r = require_org r (\<lambda>org. do {
     res \<leftarrow> db_call (delete_run org (url_param ''runID'' r));
     case res of
       Inl e \<Rightarrow> respond_error 500 ''database error''
     | Inr key \<Rightarrow>
         if key = [] then respond_error 404 ''run not found''
         else do {
           _ \<leftarrow> s3_delete key;
           audit_log S r ''trace.delete'' ''run'' (url_param ''runID'' r) None;
           State_Monad.return (no_content 204) } })"

section \<open>Agents\<close>

definition handle_register_agent :: "server \<Rightarrow> request \<Rightarrow> response act" where
  "handle_register_agent S r = require_org r (\<lambda>org.
     case read_limited (1024 * 1024) r of
       None \<Rightarrow> respond_error 400 ''invalid body''
     | Some body \<Rightarrow>
         (case (unmarshal_struct body, raw_members body) of
            (Some ms, Some raws) \<Rightarrow>
              (case (field_string ''name'' ms, field_string ''version'' ms, field_string ''capabilities_hash'' ms,
                     field_string ''policy_hash'' ms) of
                 (Some nm, Some ver, Some caps, Some ph) \<Rightarrow>
                   if nm = [] then respond_error 400 ''name is required''
                   else do {
                     res \<leftarrow> db_call (upsert_agent (sv_env S) \<lparr>a_id = [], a_org = org, a_name = nm, a_version = ver,
                       a_manifest = field_raw ''identity_manifest'' raws, a_capabilities_hash = caps, a_policy_hash = ph,
                       a_registered_at = 0, a_last_seen = 0, a_applied_hash = None, a_applied_at = None\<rparr>);
                     case res of
                       Inl e \<Rightarrow> respond_error 500 ''database error''
                     | Inr _ \<Rightarrow> do {
                         audit_log S r ''agent.register'' ''agent'' nm (Some [(''version'', JStr ver),
                           (''capabilities_hash'', JStr caps), (''policy_hash'', JStr ph)]);
                         respond 201 (JObj [(''status'', JStr ''registered''), (''name'', JStr nm)]) } }
               | _ \<Rightarrow> respond_error 400 ''invalid JSON'')
          | _ \<Rightarrow> respond_error 400 ''invalid JSON''))"

definition handle_list_agents :: "server \<Rightarrow> request \<Rightarrow> response act" where
  "handle_list_agents S r = require_org r (\<lambda>org. do {
     res \<leftarrow> db_call (list_agents org);
     case res of
       Inl e \<Rightarrow> respond_error 500 ''database error''
     | Inr as \<Rightarrow> respond 200 (JObj [(''agents'', JArr (map agent_json as)), (''count'', JInt (int (length as)))]) })"

definition handle_get_agent :: "server \<Rightarrow> request \<Rightarrow> response act" where
  "handle_get_agent S r = require_org r (\<lambda>org. do {
     res \<leftarrow> db_call (get_agent org (url_param ''name'' r));
     case res of
       Inl e \<Rightarrow> respond_error 500 ''database error''
     | Inr None \<Rightarrow> respond_error 404 ''agent not found''
     | Inr (Some a) \<Rightarrow> respond 200 (agent_json a) })"

definition handle_get_agent_policy :: "server \<Rightarrow> request \<Rightarrow> response act" where
  "handle_get_agent_policy S r = require_org r (\<lambda>org. do {
     res \<leftarrow> db_call (get_agent org (url_param ''name'' r));
     case res of
       Inr (Some a) \<Rightarrow> do {
         p \<leftarrow> db_call (get_agent_policy org (url_param ''name'' r));
         case p of
           Inl e \<Rightarrow> respond_error 500 ''database error''
         | Inr yaml \<Rightarrow> respond 200 (JObj [(''policy'', JStr yaml)]) }
     | _ \<Rightarrow> respond_error 404 ''agent not found'' })"

definition handle_update_agent_policy :: "server \<Rightarrow> request \<Rightarrow> response act" where
  "handle_update_agent_policy S r = require_org r (\<lambda>org. do {
     res \<leftarrow> db_call (get_agent org (url_param ''name'' r));
     case res of
       Inr (Some a) \<Rightarrow>
         (case read_limited (256 * 1024) r of
            None \<Rightarrow> respond_error 400 ''invalid body''
          | Some body \<Rightarrow>
              (case Option.bind (unmarshal_struct body) (field_string ''policy'') of
                 None \<Rightarrow> respond_error 400 ''invalid JSON''
               | Some yaml \<Rightarrow> do {
                   u \<leftarrow> db_call (update_agent_policy org (url_param ''name'' r) yaml);
                   case u of
                     Inl e \<Rightarrow> respond_error 500 ''database error''
                   | Inr _ \<Rightarrow> do {
                       audit_log S r ''agent.policy_update'' ''agent'' (url_param ''name'' r)
                         (Some [(''policy_bytes'', JInt (int (length yaml)))]);
                       respond 200 (JObj [(''status'', JStr ''updated'')]) } }))
     | _ \<Rightarrow> respond_error 404 ''agent not found'' })"

definition handle_get_agent_baseline :: "server \<Rightarrow> request \<Rightarrow> response act" where
  "handle_get_agent_baseline S r = require_org r (\<lambda>org. do {
     res \<leftarrow> db_call (get_agent org (url_param ''name'' r));
     case res of
       Inr (Some a) \<Rightarrow> do {
         b \<leftarrow> db_call (get_agent_baseline org (a_id a));
         case b of
           Inl e \<Rightarrow> respond_error 500 ''database error''
         | Inr None \<Rightarrow> respond_error 404 ''no baseline found for this agent''
         | Inr (Some bl) \<Rightarrow> respond 200 (baseline_json bl) }
     | _ \<Rightarrow> respond_error 404 ''agent not found'' })"

section \<open>Organizations and API keys\<close>

text \<open>\<open>^[a-z0-9][a-z0-9-]{1,62}[a-z0-9]$\<close>.\<close>

definition slug_char :: "char \<Rightarrow> bool" where
  "slug_char c \<longleftrightarrow> (let n = of_char c :: nat in (97 \<le> n \<and> n \<le> 122) \<or> (48 \<le> n \<and> n \<le> 57))"

definition valid_slug :: "string \<Rightarrow> bool" where
  "valid_slug s \<longleftrightarrow> 3 \<le> length s \<and> length s \<le> 64 \<and> slug_char (hd s) \<and> slug_char (last s) \<and>
     list_all (\<lambda>c. slug_char c \<or> c = CHR ''-'') s"

definition handle_create_org :: "server \<Rightarrow> request \<Rightarrow> response act" where
  "handle_create_org S r =
     (if org_id_from_context r \<noteq> [] then
        respond_error 403 ''caller already has an org; use bilateral agreements for cross-org access''
      else case Option.bind (decode_max 4096 r) (\<lambda>ms.
             case (field_string ''name'' ms, field_string ''slug'' ms) of (Some n, Some sl) \<Rightarrow> Some (n, sl) | _ \<Rightarrow> None) of
        None \<Rightarrow> respond_error 400 ''invalid JSON''
      | Some (nm, sl) \<Rightarrow>
          if nm = [] then respond_error 400 ''name is required''
          else let slug = (if sl = [] then to_lower (replace_char (CHR '' '') ''-'' nm) else sl) in
            if \<not> valid_slug slug then respond_error 400 ''invalid slug format''
            else do {
              res \<leftarrow> db_call (create_org nm slug);
              case res of
                Inl e \<Rightarrow> respond_error 500 ''could not create organization''
              | Inr g \<Rightarrow> do {
                  _ \<leftarrow> db_call (insert_audit_event (sv_env S) (org_id g) (audit_user r) ''org.create'' ''organization'' (org_id g)
                    (Some (audit_meta [(''slug'', JStr slug), (''name'', JStr nm)])));
                  respond 201 (org_json g) } })"

definition handle_onboard :: "server \<Rightarrow> request \<Rightarrow> response act" where
  "handle_onboard S r = handle_create_org S r"

definition handle_get_org :: "server \<Rightarrow> request \<Rightarrow> response act" where
  "handle_get_org S r =
     (if org_id_from_context r \<noteq> url_param ''orgID'' r then respond_error 403 ''access denied''
      else do {
        res \<leftarrow> db_call (get_org (url_param ''orgID'' r));
        case res of
          Inl e \<Rightarrow> respond_error 500 ''database error''
        | Inr None \<Rightarrow> respond_error 404 ''organization not found''
        | Inr (Some g) \<Rightarrow> respond 200 (org_json g) })"

definition handle_create_api_key :: "server \<Rightarrow> request \<Rightarrow> response act" where
  "handle_create_api_key S r =
     (if org_id_from_context r \<noteq> url_param ''orgID'' r then respond_error 403 ''access denied''
      else case Option.bind (Option.bind (rq_body r) decode_first) (field_string ''name'') of
        None \<Rightarrow> respond_error 400 ''name is required''
      | Some nm \<Rightarrow>
          if nm = [] then respond_error 400 ''name is required''
          else do {
            res \<leftarrow> db_call (create_api_key (sv_env S) (url_param ''orgID'' r) nm);
            case res of
              Inl e \<Rightarrow> respond_error 500 ''could not create key''
            | Inr (k, plaintext) \<Rightarrow> do {
                audit_log S r ''apikey.create'' ''api_key'' (ak_id k) (Some [(''name'', JStr (ak_name k)), (''prefix'', JStr (ak_prefix k))]);
                respond 201 (JObj [(''key'', key_json k), (''secret_key'', JStr plaintext),
                  (''warning'', JStr ''Store this key securely. It will not be shown again.'')]) } })"

definition handle_revoke_api_key :: "server \<Rightarrow> request \<Rightarrow> response act" where
  "handle_revoke_api_key S r =
     (if org_id_from_context r \<noteq> url_param ''orgID'' r then respond_error 403 ''access denied''
      else do {
        res \<leftarrow> db_call (revoke_api_key (url_param ''orgID'' r) (url_param ''keyID'' r));
        case res of
          Inl e \<Rightarrow> respond_error 500 ''could not revoke key''
        | Inr _ \<Rightarrow> do {
            audit_log S r ''apikey.revoke'' ''api_key'' (url_param ''keyID'' r) None;
            State_Monad.return (no_content 204) } })"

definition handle_get_user :: "server \<Rightarrow> request \<Rightarrow> response act" where
  "handle_get_user S r = respond 200 (JObj [(''user_id'', JStr (user_id_from_context r)), (''org_id'', JStr (org_id_from_context r))])"

end
