(* ===== verification/Handlers_Policy.thy ===== *)
theory Handlers_Policy
  imports Handlers_Traces
begin

text \<open>
  \<open>internal/api/policy_sets.go\<close>, \<open>proposals.go\<close>, the listing of \<open>audit.go\<close> and \<open>live.go\<close>: publishing policy
  sets to the agents a selector matches, their applied state, labels, proposal decisions, the audit
  listing, live events and the two server-sent event streams.
\<close>

section \<open>Policy sets\<close>

definition max_policy_set_body_bytes :: nat where
  "max_policy_set_body_bytes = 64 * 1024"

definition compute_policy_hash :: "storage_env \<Rightarrow> string \<Rightarrow> string" where
  "compute_policy_hash E yaml = hex_encode (take 8 (st_sha256 E yaml))"

text \<open>\<open>Hub.Publish\<close> on the shared pool: the payload goes out on the channel unless the statement fails.\<close>

definition feed_publish :: "server \<Rightarrow> notification \<Rightarrow> unit res act" where
  "feed_publish S note = State (\<lambda>w.
     case pf_publish (sv_times S) (w_now w) None note of
       Inl e \<Rightarrow> (Inl e, w)
     | Inr payload \<Rightarrow>
         (case stmt (\<lambda>s. Inr ((), s)) (w_db w) of
            (Inl e, d) \<Rightarrow> (Inl (ErrWrap ''policyfeed: pg_notify: '' e []), w\<lparr>w_db := d\<rparr>)
          | (Inr _, d) \<Rightarrow> (Inr (), w\<lparr>w_db := d, w_feed := w_feed w @ [payload]\<rparr>)))"

text \<open>The fan-out; the result counts the failures.\<close>

fun publish_all :: "server \<Rightarrow> (agent \<Rightarrow> notification) \<Rightarrow> agent list \<Rightarrow> int act" where
  "publish_all S note [] = State_Monad.return 0"
| "publish_all S note (a # as) = do {
     r \<leftarrow> feed_publish S (note a);
     n \<leftarrow> publish_all S note as;
     State_Monad.return (if is_ok r then n else n + 1) }"

definition set_note :: "string \<Rightarrow> policy_set \<Rightarrow> int \<Rightarrow> agent \<Rightarrow> notification" where
  "set_note org p now a = \<lparr>nt_org = org, nt_agent = a_name a, nt_hash = set_hash p, nt_version = set_version p,
     nt_set = set_name p, nt_published_at = now\<rparr>"

definition write_policy_set :: "server \<Rightarrow> request \<Rightarrow> string \<Rightarrow> policy_set \<Rightarrow> agent list \<Rightarrow> response act" where
  "write_policy_set S r org p matched = do {
     res \<leftarrow> db_call (upsert_policy_set (sv_env S) p);
     case res of
       Inl e \<Rightarrow> respond_error 500 ''persist failed''
     | Inr stored \<Rightarrow> do {
         now \<leftarrow> clock;
         failures \<leftarrow> publish_all S (set_note org stored now) matched;
         audit_log S r ''policy_set.write'' ''policy_set'' (set_id stored) (Some [(''name'', JStr (set_name stored)),
           (''policy_hash'', JStr (set_hash stored)), (''version'', JInt (set_version stored)),
           (''matched_agents'', JInt (int (length matched))), (''publish_failures'', JInt failures)]);
         respond 200 (JObj [(''id'', JStr (set_id stored)), (''name'', JStr (set_name stored)),
           (''policy_hash'', JStr (set_hash stored)), (''version'', JInt (set_version stored)),
           (''matched_agents'', JArr (map agent_json matched)), (''created_at'', JTime (set_created_at stored)),
           (''updated_at'', JTime (set_updated_at stored))]) } }"

definition check_policy_set :: "server \<Rightarrow> request \<Rightarrow> string \<Rightarrow> string \<Rightarrow> string \<Rightarrow> string \<Rightarrow> response act" where
  "check_policy_set S r org nm selector yaml =
     (if nm = [] then respond_error 400 ''name is required''
      else if selector = [] then respond_error 400 ''selector is required''
      else if yaml = [] then respond_error 400 ''policy_yaml is required''
      else case policy_parse (sv_policy S) yaml of
        Inl e \<Rightarrow> respond_error 400 (''invalid policy YAML: '' @ error_text e)
      | Inr p \<Rightarrow>
          (case validate (sv_policy S) p False of
             e # es \<Rightarrow> respond_error 400 (ve_text e)
           | [] \<Rightarrow> do {
               res \<leftarrow> db_call (resolve_selector org selector);
               case res of
                 Inl e \<Rightarrow> respond_error 400 (error_text e)
               | Inr matched \<Rightarrow> write_policy_set S r org
                   \<lparr>set_id = [], set_org = org, set_name = nm, set_selector = selector, set_yaml = yaml,
                    set_hash = compute_policy_hash (sv_env S) yaml, set_version = 0, set_created_at = 0,
                    set_updated_at = 0\<rparr> matched }))"

definition handle_upsert_policy_set :: "server \<Rightarrow> request \<Rightarrow> response act" where
  "handle_upsert_policy_set S r = require_org r (\<lambda>org.
     if \<not> sv_has_feed S then respond_error 503 ''policy feed not configured''
     else case read_max max_policy_set_body_bytes r of
       None \<Rightarrow> respond_error 413 ''request exceeds maximum size''
     | Some body \<Rightarrow>
         (case (unmarshal_struct body, raw_members body) of
            (Some ms, Some raws) \<Rightarrow>
              (case (field_string ''name'' ms, field_string ''policy_yaml'' ms) of
                 (Some nm, Some yaml) \<Rightarrow> check_policy_set S r org nm (field_raw ''selector'' raws) yaml
               | _ \<Rightarrow> respond_error 400 ''invalid JSON'')
          | _ \<Rightarrow> respond_error 400 ''invalid JSON''))"

definition on_hash :: "string \<Rightarrow> agent \<Rightarrow> bool" where
  "on_hash h a \<longleftrightarrow> a_applied_hash a = Some h"

definition applied_state_json :: "string \<Rightarrow> agent list \<Rightarrow> json" where
  "applied_state_json h as = JObj [(''on_hash'', JInt (int (length (filter (on_hash h) as)))),
     (''stale'', JInt (int (length (filter (\<lambda>a. \<not> on_hash h a) as)))), (''total'', JInt (int (length as)))]"

definition applied_view :: "time_libs \<Rightarrow> string \<Rightarrow> agent \<Rightarrow> json" where
  "applied_view T h a = JObj ([(''name'', JStr (a_name a))] @ opt_member ''applied_policy_hash'' JStr (a_applied_hash a) @
     opt_member ''applied_at'' (\<lambda>t. JStr (show_time T t)) (a_applied_at a) @ [(''stale'', JBool (\<not> on_hash h a))])"

definition handle_get_policy_set :: "server \<Rightarrow> request \<Rightarrow> response act" where
  "handle_get_policy_set S r = require_org r (\<lambda>org. do {
     res \<leftarrow> db_call (get_policy_set_by_id org (url_param ''id'' r));
     case res of
       Inl e \<Rightarrow> respond_error 500 ''lookup failed''
     | Inr None \<Rightarrow> respond_error 404 ''policy_set not found''
     | Inr (Some p) \<Rightarrow> do {
         m \<leftarrow> db_call (resolve_selector org (set_selector p));
         case m of
           Inl e \<Rightarrow> respond_error 500 ''selector resolution failed''
         | Inr as \<Rightarrow> respond 200 (JObj [(''id'', JStr (set_id p)), (''name'', JStr (set_name p)),
             (''selector'', JRaw (set_selector p)), (''policy_yaml'', JStr (set_yaml p)),
             (''policy_hash'', JStr (set_hash p)), (''version'', JInt (set_version p)),
             (''created_at'', JTime (set_created_at p)), (''updated_at'', JTime (set_updated_at p)),
             (''matched_agents'', JArr (map (applied_view (sv_times S) (set_hash p)) as)),
             (''applied_state'', applied_state_json (set_hash p) as)]) } })"

definition view_entry :: "string \<Rightarrow> agent \<Rightarrow> json" where
  "view_entry h a = JObj ([(''name'', JStr (a_name a))] @ opt_member ''applied_policy_hash'' JStr (a_applied_hash a) @
     (if h \<noteq> [] \<and> \<not> on_hash h a then [(''stale'', JBool True)] else []))"

definition handle_resolve_selector :: "server \<Rightarrow> request \<Rightarrow> response act" where
  "handle_resolve_selector S r = require_org r (\<lambda>org.
     case read_max (8 * 1024) r of
       None \<Rightarrow> respond_error 413 ''request too large''
     | Some body \<Rightarrow>
         (case (Option.bind (unmarshal_struct body) (field_string ''policy_hash''), raw_members body) of
            (Some h, Some raws) \<Rightarrow>
              if field_raw ''selector'' raws = [] then respond_error 400 ''selector is required''
              else do {
                res \<leftarrow> db_call (resolve_selector org (field_raw ''selector'' raws));
                case res of
                  Inl e \<Rightarrow> respond_error 400 (error_text e)
                | Inr as \<Rightarrow> respond 200 (JObj ([(''matched_agents'', JArr (map (view_entry h) as)),
                    (''total'', JInt (int (length as)))] @
                    (if h \<noteq> [] then [(''applied_state'', applied_state_json h as)] else []))) }
          | _ \<Rightarrow> respond_error 400 ''invalid JSON''))"

section \<open>Labels and applied state\<close>

definition labels_json :: "(string \<times> json) list \<Rightarrow> (string \<times> string) list \<Rightarrow> json" where
  "labels_json ms kvs = (case List.find (\<lambda>(k, v). equal_fold k ''labels'') (rev ms) of
     Some (k, JObj x) \<Rightarrow> JObj (map (\<lambda>(k, v). (k, JStr v)) kvs) | _ \<Rightarrow> JNull)"

definition handle_set_agent_labels :: "server \<Rightarrow> request \<Rightarrow> response act" where
  "handle_set_agent_labels S r = require_org r (\<lambda>org.
     case read_max (8 * 1024) r of
       None \<Rightarrow> respond_error 413 ''request too large''
     | Some body \<Rightarrow>
         (case unmarshal_struct body of
            None \<Rightarrow> respond_error 400 ''invalid JSON''
          | Some ms \<Rightarrow>
              (case field_string_map ''labels'' ms of
                 None \<Rightarrow> respond_error 400 ''invalid JSON''
               | Some kvs \<Rightarrow> do {
                   res \<leftarrow> db_call (set_agent_labels org (url_param ''name'' r) kvs);
                   case res of
                     Inl e \<Rightarrow>
                       if error_text e = ''set agent labels: agent '' @ go_quote (url_param ''name'' r) @ '' not found''
                       then respond_error 404 ''agent not found''
                       else respond_error 500 ''persist failed''
                   | Inr _ \<Rightarrow> do {
                       audit_log S r ''agent.labels'' ''agent'' (url_param ''name'' r) (Some [(''labels'', labels_json ms kvs)]);
                       respond 200 (JObj [(''labels'', labels_json ms kvs)]) } })))"

definition handle_policy_applied :: "server \<Rightarrow> request \<Rightarrow> response act" where
  "handle_policy_applied S r = require_org r (\<lambda>org.
     case read_max 1024 r of
       None \<Rightarrow> respond_error 413 ''request too large''
     | Some body \<Rightarrow>
         (case Option.bind (unmarshal_struct body) (field_string ''hash'') of
            None \<Rightarrow> respond_error 400 ''invalid JSON''
          | Some h \<Rightarrow>
              if h = [] then respond_error 400 ''hash is required''
              else do {
                res \<leftarrow> db_call (mark_policy_applied org (url_param ''name'' r) h);
                case res of
                  Inl e \<Rightarrow> respond_error 404 (error_text e)
                | Inr _ \<Rightarrow> State_Monad.return (no_content 204) }))"

section \<open>Proposals\<close>

definition handle_list_proposals :: "server \<Rightarrow> request \<Rightarrow> response act" where
  "handle_list_proposals S r = require_org r (\<lambda>org. do {
     res \<leftarrow> db_call (list_proposals org (query_get ''status'' r));
     case res of
       Inl e \<Rightarrow> respond_error 500 ''database error''
     | Inr ps \<Rightarrow> respond 200 (JObj [(''proposals'', JArr (map proposal_json ps)), (''count'', JInt (int (length ps)))]) })"

definition handle_get_proposal :: "server \<Rightarrow> request \<Rightarrow> response act" where
  "handle_get_proposal S r = require_org r (\<lambda>org. do {
     res \<leftarrow> db_call (list_proposals org []);
     case res of
       Inl e \<Rightarrow> respond_error 500 ''database error''
     | Inr ps \<Rightarrow>
         (case List.find (\<lambda>p. pr_id p = url_param ''proposalID'' r) ps of
            None \<Rightarrow> respond_error 404 ''proposal not found''
          | Some p \<Rightarrow> respond 200 (proposal_json p)) })"

definition decide_proposal :: "server \<Rightarrow> request \<Rightarrow> string \<Rightarrow> string \<Rightarrow> response act" where
  "decide_proposal S r status action = require_org r (\<lambda>org. do {
     res \<leftarrow> db_call (update_proposal_status org (url_param ''proposalID'' r) status (user_id_from_context r));
     case res of
       Inl e \<Rightarrow> respond_error 500 ''database error''
     | Inr updated \<Rightarrow>
         if \<not> updated then respond_error 404 ''proposal not found''
         else do {
           audit_log S r action ''proposal'' (url_param ''proposalID'' r) (Some [(''status'', JStr status)]);
           if status = ''dismissed'' then State_Monad.return (no_content 204)
           else respond 200 (JObj [(''status'', JStr status)]) } })"

definition handle_approve_proposal :: "server \<Rightarrow> request \<Rightarrow> response act" where
  "handle_approve_proposal S r = decide_proposal S r ''approved'' ''proposal.approve''"

definition handle_reject_proposal :: "server \<Rightarrow> request \<Rightarrow> response act" where
  "handle_reject_proposal S r = decide_proposal S r ''rejected'' ''proposal.reject''"

definition handle_dismiss_proposal :: "server \<Rightarrow> request \<Rightarrow> response act" where
  "handle_dismiss_proposal S r = decide_proposal S r ''dismissed'' ''proposal.dismiss''"

section \<open>The audit listing\<close>

definition wire_event :: "server \<Rightarrow> audit_event \<Rightarrow> json" where
  "wire_event S e = JObj [(''id'', JStr (ev_id e)), (''org_id'', JStr (ev_org e)), (''user_id'', JStr (ev_user e)),
     (''action'', JStr (ev_action e)), (''resource'', JStr (ev_resource e)), (''resource_id'', JStr (ev_resource_id e)),
     (''metadata'', case json_parse (ev_metadata e) of
        Some (JObj kvs) \<Rightarrow> JObj kvs | Some JNull \<Rightarrow> JNull | _ \<Rightarrow> JObj []),
     (''created_at'', JStr (sv_millis S (ev_created_at e)))]"

definition handle_list_audit_events :: "server \<Rightarrow> request \<Rightarrow> response act" where
  "handle_list_audit_events S r = require_org r (\<lambda>org. do {
     res \<leftarrow> db_call (list_audit_events org (page_limit 200 r) (page_offset r));
     case res of
       Inl e \<Rightarrow> respond_error 500 ''database error''
     | Inr es \<Rightarrow> respond 200 (JObj [(''events'', JArr (map (wire_event S) es)), (''count'', JInt (int (length es)))]) })"

section \<open>Live events\<close>

definition max_intent_body_bytes :: nat where
  "max_intent_body_bytes = 32 * 1024"

definition trim_newlines :: "string \<Rightarrow> string" where
  "trim_newlines s = rev (dropWhile (\<lambda>c. c = CHR 0x0A) (rev s))"

definition live_publish :: "live_event \<Rightarrow> unit res act" where
  "live_publish ev = State (\<lambda>w.
     case lf_publish None ev of
       Inl e \<Rightarrow> (Inl e, w)
     | Inr payload \<Rightarrow>
         (case stmt (\<lambda>s. Inr ((), s)) (w_db w) of
            (Inl e, d) \<Rightarrow> (Inl (ErrWrap ''livefeed: pg_notify: '' e []), w\<lparr>w_db := d\<rparr>)
          | (Inr _, d) \<Rightarrow> (Inr (), w\<lparr>w_db := d, w_live := w_live w @ [payload]\<rparr>)))"

definition intent_agent :: "string \<Rightarrow> string \<Rightarrow> string \<Rightarrow> string act" where
  "intent_agent org agent_name rid =
     (if agent_name = [] \<and> rid \<noteq> [] then do {
        res \<leftarrow> db_call (get_run org rid);
        State_Monad.return (case res of Inr (Some q) \<Rightarrow> r_agent_name q | _ \<Rightarrow> agent_name) }
      else State_Monad.return agent_name)"

definition publish_intent :: "string \<Rightarrow> live_event \<Rightarrow> response act" where
  "publish_intent org ev0 = do {
     agent_name \<leftarrow> intent_agent org (le_agent ev0) (le_run ev0);
     res \<leftarrow> live_publish (ev0\<lparr>le_agent := agent_name\<rparr>);
     case res of
       Inl e \<Rightarrow> respond_error 500 ''publish failed''
     | Inr _ \<Rightarrow>
         if agent_name \<noteq> [] then do {
           _ \<leftarrow> db_call (update_agent_last_seen org agent_name);
           State_Monad.return (no_content 202) }
         else State_Monad.return (no_content 202) }"

definition handle_post_intent :: "server \<Rightarrow> request \<Rightarrow> response act" where
  "handle_post_intent S r = require_org r (\<lambda>org.
     if \<not> sv_has_live S then respond_error 503 ''live feed not configured''
     else case read_max max_intent_body_bytes r of
       None \<Rightarrow> respond_error 413 ''event exceeds maximum size''
     | Some raw \<Rightarrow>
         let body = trim_newlines raw in
         if body = [] then respond_error 400 ''empty event''
         else case unmarshal_struct body of
           None \<Rightarrow> respond_error 400 ''invalid JSON''
         | Some ms \<Rightarrow>
             (case (field_string ''t'' ms, field_string ''run'' ms, field_string ''agent'' ms, field_string ''target'' ms,
                    field_string ''auth'' ms) of
                (Some t, Some rid, Some ag, Some tg, Some au) \<Rightarrow>
                  if t \<noteq> ''intent'' \<and> t \<noteq> ''action''
                  then respond_error 400 (''unsupported event type '' @ go_quote t @ '' (expected intent or action)'')
                  else publish_intent org \<lparr>le_org = org, le_type = t, le_agent = ag, le_run = rid, le_verdict = au,
                         le_payload = body\<rparr>
              | _ \<Rightarrow> respond_error 400 ''invalid JSON''))"

section \<open>Server-sent events\<close>

text \<open>
  Opening a stream: the error answer, or the subscription and the first bytes. The loop then turns
  what it waits for into bytes, until the client leaves, the hub closes or an event cannot be written.
\<close>

datatype 'e sse_input = SseEvent 'e | SsePing | SseClosed | SseGone

definition newline :: string where
  "newline = [CHR 0x0A]"

definition sse_open :: string where
  "sse_open = ''retry: 2000'' @ newline @ newline"

definition sse_ping :: string where
  "sse_ping = '': ping'' @ newline @ newline"

definition policy_frame :: "time_libs \<Rightarrow> notification \<Rightarrow> string" where
  "policy_frame T note = ''event: policy_update'' @ newline @ ''data: '' @ pf_marshal T note @ newline @ newline"

fun policy_stream :: "time_libs \<Rightarrow> notification sse_input list \<Rightarrow> string" where
  "policy_stream T [] = []"
| "policy_stream T (SseEvent note # is) = policy_frame T note @ policy_stream T is"
| "policy_stream T (SsePing # is) = sse_ping @ policy_stream T is"
| "policy_stream T (SseClosed # is) = []"
| "policy_stream T (SseGone # is) = []"

definition handle_agent_policy_updates :: "server \<Rightarrow> bool \<Rightarrow> request \<Rightarrow> policy_hub \<Rightarrow> (response + nat \<times> string) \<times> policy_hub" where
  "handle_agent_policy_updates S flusher r h =
     (if org_id_from_context r = [] then (Inl (write_json_error 403 ''org_id required''), h)
      else if \<not> sv_has_feed S then (Inl (write_json_error 503 ''policy feed not configured''), h)
      else if \<not> flusher then (Inl (write_json_error 500 ''streaming not supported''), h)
      else case hub_subscribe (org_id_from_context r) (url_param ''name'' r) h of (i, h1) \<Rightarrow> (Inr (i, sse_open), h1))"

definition write_sse_event :: "live_event \<Rightarrow> string option" where
  "write_sse_event ev = (case lf_marshal ev of
     Inl e \<Rightarrow> None
   | Inr body \<Rightarrow> Some (''event: '' @ le_type ev @ newline @ ''data: '' @ body @ newline @ newline))"

fun live_stream :: "live_event sse_input list \<Rightarrow> string" where
  "live_stream [] = []"
| "live_stream (SseEvent ev # is) = (case write_sse_event ev of None \<Rightarrow> [] | Some s \<Rightarrow> s @ live_stream is)"
| "live_stream (SsePing # is) = sse_ping @ live_stream is"
| "live_stream (SseClosed # is) = []"
| "live_stream (SseGone # is) = []"

definition handle_org_live :: "server \<Rightarrow> bool \<Rightarrow> request \<Rightarrow> live_hub \<Rightarrow> (response + nat \<times> string) \<times> live_hub" where
  "handle_org_live S flusher r h =
     (if org_id_from_context r = [] then (Inl (write_json_error 403 ''org_id required''), h)
      else if url_param ''orgID'' r \<noteq> org_id_from_context r then (Inl (write_json_error 403 ''org mismatch''), h)
      else if \<not> sv_has_live S then (Inl (write_json_error 503 ''live feed not configured''), h)
      else if \<not> flusher then (Inl (write_json_error 500 ''streaming not supported''), h)
      else case lf_subscribe (org_id_from_context r)
             \<lparr>lf_agent = trim_space (query_get ''agent_name'' r), lf_tool = trim_space (query_get ''tool'' r),
              lf_verdict = trim_space (query_get ''verdict'' r)\<rparr> h of
        (i, h1) \<Rightarrow> (Inr (i, sse_open), h1))"

end
