(* ===== verification/Handlers_Identity.thy ===== *)
theory Handlers_Identity
  imports Handlers_Policy
begin

text \<open>
  \<open>internal/api/identity_handlers.go\<close>, \<open>auth_handlers.go\<close> and \<open>oidc_handlers.go\<close>: SSO configuration, SCIM
  tokens, invites and sessions of one organization; the password login; the OIDC login, callback and
  logout.
\<close>

section \<open>SSO configuration\<close>

definition sso_dto :: "sso_config \<Rightarrow> bool \<Rightarrow> json" where
  "sso_dto c has = JObj ([(''provider'', JStr (cfg_provider c))] @ str_member ''discovery_url'' (cfg_discovery c) @
     str_member ''client_id'' (cfg_client_id c) @ [(''has_secret'', JBool has)] @
     str_member ''redirect_url'' (cfg_redirect c) @
     (if cfg_scopes c = [] then [] else [(''scopes'', JArr (map JStr (cfg_scopes c)))]) @
     str_member ''default_role'' (cfg_default_role c))"

definition empty_sso :: sso_config where
  "empty_sso = \<lparr>cfg_org = [], cfg_provider = [], cfg_discovery = [], cfg_client_id = [], cfg_client_secret = [],
     cfg_redirect = [], cfg_scopes = [], cfg_default_role = [], cfg_created_at = 0, cfg_updated_at = 0,
     cfg_has_secret = False\<rparr>"

definition handle_get_sso :: "server \<Rightarrow> request \<Rightarrow> response act" where
  "handle_get_sso S r = require_matching_org r (\<lambda>org. do {
     res \<leftarrow> db_call (get_sso_config (sv_env S) org);
     case res of
       Inl e \<Rightarrow> respond_error 500 ''internal error''
     | Inr None \<Rightarrow> respond 200 (sso_dto empty_sso False)
     | Inr (Some c) \<Rightarrow> respond 200 (sso_dto c (cfg_has_secret c)) })"

text \<open>\<open>in\<close>, the decoded body, on the configuration it becomes.\<close>

definition sso_input :: "string \<Rightarrow> (string \<times> json) list \<Rightarrow> sso_config option" where
  "sso_input org ms =
     (case (field_string ''provider'' ms, field_string ''discovery_url'' ms, field_string ''client_id'' ms,
            field_string ''client_secret'' ms, field_string ''redirect_url'' ms, field_strings ''scopes'' ms,
            field_string ''default_role'' ms) of
        (Some pr, Some di, Some ci, Some cs, Some re, Some sc, Some ro) \<Rightarrow>
          Some (empty_sso\<lparr>cfg_org := org, cfg_provider := pr, cfg_discovery := di, cfg_client_id := ci,
            cfg_client_secret := cs, cfg_redirect := re, cfg_scopes := sc, cfg_default_role := ro\<rparr>)
      | _ \<Rightarrow> None)"

text \<open>\<open>UpsertSSOConfig\<close> fills the default role into the struct the answer is made of.\<close>

definition handle_put_sso :: "server \<Rightarrow> request \<Rightarrow> response act" where
  "handle_put_sso S r = require_matching_org r (\<lambda>org.
     case Option.bind (decode_max 8192 r) (sso_input org) of
       None \<Rightarrow> respond_error 400 ''invalid JSON''
     | Some c \<Rightarrow>
         if cfg_provider c = [] then respond_error 400 ''provider is required''
         else do {
           res \<leftarrow> db_call (upsert_sso_config (sv_env S) c);
           case res of
             Inl e \<Rightarrow> respond_error 500 ''internal error''
           | Inr _ \<Rightarrow> do {
               audit_log S r ''identity.sso.update'' ''sso_config'' org None;
               respond 200 (sso_dto (c\<lparr>cfg_default_role := (if cfg_default_role c = [] then ''member'' else cfg_default_role c)\<rparr>)
                 (cfg_client_secret c \<noteq> [] \<or> cfg_has_secret c)) } })"

section \<open>SCIM tokens\<close>

definition scim_dto :: "scim_token \<Rightarrow> (string \<times> json) list" where
  "scim_dto t = [(''id'', JStr (tok_id t)), (''name'', JStr (tok_name t)), (''prefix'', JStr (tok_prefix t)),
     (''created_at'', JTime (tok_created_at t))] @ opt_member ''revoked_at'' JTime (tok_revoked_at t)"

definition handle_list_scim_tokens :: "server \<Rightarrow> request \<Rightarrow> response act" where
  "handle_list_scim_tokens S r = require_matching_org r (\<lambda>org. do {
     res \<leftarrow> db_call (list_scim_tokens org);
     case res of
       Inl e \<Rightarrow> respond_error 500 ''internal error''
     | Inr ts \<Rightarrow> respond 200 (JArr (map (\<lambda>t. JObj (scim_dto t)) ts)) })"

definition handle_create_scim_token :: "server \<Rightarrow> request \<Rightarrow> response act" where
  "handle_create_scim_token S r = require_matching_org r (\<lambda>org.
     case Option.bind (decode_max 2048 r) (field_string ''name'') of
       None \<Rightarrow> respond_error 400 ''invalid JSON''
     | Some nm \<Rightarrow>
         if trim_space nm = [] then respond_error 400 ''name is required''
         else do {
           res \<leftarrow> db_call (create_scim_token (sv_env S) org nm);
           case res of
             Inl e \<Rightarrow> respond_error 500 ''internal error''
           | Inr (plain, t) \<Rightarrow> do {
               audit_log S r ''identity.scim_token.create'' ''scim_token'' (tok_id t) None;
               respond 201 (JObj (scim_dto (t\<lparr>tok_revoked_at := None\<rparr>) @ [(''token'', JStr plain)])) } })"

definition handle_revoke_scim_token :: "server \<Rightarrow> request \<Rightarrow> response act" where
  "handle_revoke_scim_token S r = require_matching_org r (\<lambda>org. do {
     res \<leftarrow> db_call (revoke_scim_token org (url_param ''tokenID'' r));
     case res of
       Inl e \<Rightarrow> respond_error 500 ''internal error''
     | Inr _ \<Rightarrow> do {
         audit_log S r ''identity.scim_token.revoke'' ''scim_token'' (url_param ''tokenID'' r) None;
         State_Monad.return (no_content 204) } })"

section \<open>Invites\<close>

definition invite_dto :: "invite \<Rightarrow> string \<Rightarrow> json" where
  "invite_dto v tok = JObj ([(''id'', JStr (inv_id v)), (''email'', JStr (inv_email v)), (''role'', JStr (inv_role v))] @
     str_member ''accept_token'' tok @
     [(''expires_at'', JTime (inv_expires_at v)), (''created_at'', JTime (inv_created_at v))])"

definition handle_list_invites :: "server \<Rightarrow> request \<Rightarrow> response act" where
  "handle_list_invites S r = require_matching_org r (\<lambda>org. do {
     res \<leftarrow> db_call (list_invites org);
     case res of
       Inl e \<Rightarrow> respond_error 500 ''internal error''
     | Inr vs \<Rightarrow> respond 200 (JArr (map (\<lambda>v. invite_dto v []) vs)) })"

definition handle_create_invite :: "server \<Rightarrow> request \<Rightarrow> response act" where
  "handle_create_invite S r = require_matching_org r (\<lambda>org.
     case Option.bind (decode_max 2048 r) (\<lambda>ms.
            case (field_string ''email'' ms, field_string ''role'' ms) of (Some e, Some ro) \<Rightarrow> Some (e, ro) | _ \<Rightarrow> None) of
       None \<Rightarrow> respond_error 400 ''invalid JSON''
     | Some (raw, ro) \<Rightarrow>
         let email = to_lower (trim_space raw) in
         if email = [] then respond_error 400 ''email is required''
         else do {
           res \<leftarrow> db_call (create_invite org email (if ro = [] then ''member'' else ro) 0);
           case res of
             Inl e \<Rightarrow> respond_error 500 ''internal error''
           | Inr v \<Rightarrow> do {
               audit_log S r ''identity.invite.create'' ''invite'' (inv_id v) None;
               respond 201 (invite_dto v (inv_token v)) } })"

definition handle_cancel_invite :: "server \<Rightarrow> request \<Rightarrow> response act" where
  "handle_cancel_invite S r = require_matching_org r (\<lambda>org. do {
     res \<leftarrow> db_call (cancel_invite org (url_param ''inviteID'' r));
     case res of
       Inl e \<Rightarrow> respond_error 500 ''internal error''
     | Inr _ \<Rightarrow> do {
         audit_log S r ''identity.invite.cancel'' ''invite'' (url_param ''inviteID'' r) None;
         State_Monad.return (no_content 204) } })"

section \<open>Sessions\<close>

definition session_dto :: "session \<Rightarrow> json" where
  "session_dto t = JObj ([(''id'', JStr (se_id t)), (''user_id'', JStr (se_user t))] @
     str_member ''user_agent'' (se_user_agent t) @ str_member ''ip'' (se_ip t) @
     [(''created_at'', JTime (se_created_at t)), (''last_seen_at'', JTime (se_last_seen_at t)),
      (''expires_at'', JTime (se_expires_at t))])"

definition handle_list_sessions :: "server \<Rightarrow> request \<Rightarrow> response act" where
  "handle_list_sessions S r = require_matching_org r (\<lambda>org. do {
     res \<leftarrow> db_call (list_sessions_for_org org);
     case res of
       Inl e \<Rightarrow> respond_error 500 ''internal error''
     | Inr ts \<Rightarrow> respond 200 (JArr (map session_dto ts)) })"

definition handle_revoke_session :: "server \<Rightarrow> request \<Rightarrow> response act" where
  "handle_revoke_session S r = require_matching_org r (\<lambda>org.
     if url_param ''sessionID'' r \<noteq> [] then do {
       res \<leftarrow> db_call (revoke_session org (url_param ''sessionID'' r));
       case res of
         Inl e \<Rightarrow> respond_error 500 ''internal error''
       | Inr _ \<Rightarrow> do {
           audit_log S r ''identity.session.revoke'' ''session'' (url_param ''sessionID'' r) None;
           State_Monad.return (no_content 204) } }
     else if query_get ''user'' r = [] then respond_error 400 ''session id or ?user= required''
     else do {
       res \<leftarrow> db_call (revoke_all_sessions_for_user org (query_get ''user'' r));
       case res of
         Inl e \<Rightarrow> respond_error 500 ''internal error''
       | Inr _ \<Rightarrow> do {
           audit_log S r ''identity.session.revoke_all'' ''user'' (query_get ''user'' r) None;
           State_Monad.return (no_content 204) } })"

section \<open>Password login\<close>

definition user_dto :: "user \<Rightarrow> json" where
  "user_dto u = JObj [(''id'', JStr (us_id u)), (''org_id'', JStr (us_org u)), (''email'', JStr (us_email u)),
     (''role'', JStr (us_role u))]"

definition user_claims :: "user \<Rightarrow> claims" where
  "user_claims u = \<lparr>cl_user = us_id u, cl_org = us_org u, cl_email = us_email u\<rparr>"

definition login_user :: "server \<Rightarrow> user \<Rightarrow> response act" where
  "login_user S u = do {
     now \<leftarrow> clock;
     case provider_issue (sv_auth S) (sv_provider S) now (user_claims u) of
       Inl e \<Rightarrow>
         if same_sentinel e err_issue_unsupported then respond_error 503 ''token issuance not configured''
         else respond_error 500 ''internal error''
     | Inr token \<Rightarrow> respond 200 (JObj [(''token'', JStr token), (''user'', user_dto u)]) }"

definition handle_auth_login :: "server \<Rightarrow> request \<Rightarrow> response act" where
  "handle_auth_login S r =
     (if rq_body r = None then respond_error 400 ''missing request body''
      else case Option.bind (decode_max 4096 r) (\<lambda>ms.
             case (field_string ''email'' ms, field_string ''password'' ms) of (Some e, Some p) \<Rightarrow> Some (e, p) | _ \<Rightarrow> None) of
        None \<Rightarrow> respond_error 400 ''invalid JSON''
      | Some (raw, password) \<Rightarrow>
          let email = to_lower (trim_space raw) in
          if email = [] \<or> password = [] then respond_error 400 ''email and password are required''
          else do {
            res \<leftarrow> db_call (lookup_user_for_login email ''local'');
            case res of
              Inl e \<Rightarrow> respond_error 500 ''internal error''
            | Inr None \<Rightarrow> respond_error 401 ''invalid credentials''
            | Inr (Some u) \<Rightarrow>
                (case verify_password (sv_auth S) (us_password_hash u) password of
                   Some e \<Rightarrow> respond_error 401 ''invalid credentials''
                 | None \<Rightarrow> login_user S u) })"

section \<open>OIDC\<close>

definition oidc_provider_of :: "server \<Rightarrow> oidc_provider option" where
  "oidc_provider_of S = (case sv_provider S of OidcAuth p \<Rightarrow> Some p | _ \<Rightarrow> None)"

definition flow_cookie :: "server \<Rightarrow> string \<Rightarrow> cookie" where
  "flow_cookie S v = \<lparr>ck_name = ''relic_oidc_flow'', ck_value = v, ck_http_only = True,
     ck_secure = \<not> sv_insecure_cookies S, ck_same_site = ''Lax'', ck_max_age = 600\<rparr>"

definition clear_flow_cookie :: cookie where
  "clear_flow_cookie = \<lparr>ck_name = ''relic_oidc_flow'', ck_value = [], ck_http_only = False, ck_secure = False,
     ck_same_site = [], ck_max_age = -1\<rparr>"

definition session_cookie :: "server \<Rightarrow> string \<Rightarrow> int \<Rightarrow> cookie" where
  "session_cookie S v age = \<lparr>ck_name = ''relic_session'', ck_value = v, ck_http_only = True,
     ck_secure = \<not> sv_insecure_cookies S, ck_same_site = ''Lax'', ck_max_age = age\<rparr>"

definition begin_flow :: "server \<Rightarrow> oidc_provider \<Rightarrow> request \<Rightarrow> string \<Rightarrow> string \<Rightarrow> string \<times> string \<Rightarrow> response" where
  "begin_flow S p r st nonce pkce =
     (let wanted = query_get ''return_to'' r;
          flow = \<lparr>fl_state = st, fl_nonce = nonce, fl_verifier = fst pkce,
                  fl_return_to = (if is_safe_return_to wanted then wanted else ''/'')\<rparr>
      in case encode_flow_cookie (sv_auth S) (sv_session_secret S) flow of
           Inl e \<Rightarrow> write_json_error 500 ''cookie''
         | Inr v \<Rightarrow> add_cookie (flow_cookie S v) (redirect (auth_code_url p st nonce (snd pkce))))"

definition handle_oidc_login :: "server \<Rightarrow> request \<Rightarrow> response act" where
  "handle_oidc_login S r =
     (case oidc_provider_of S of
        None \<Rightarrow> respond_error 503 ''OIDC not configured''
      | Some p \<Rightarrow> do {
          r1 \<leftarrow> random_bytes;
          case generate_state r1 of
            None \<Rightarrow> respond_error 500 ''rand''
          | Some st \<Rightarrow> do {
              r2 \<leftarrow> random_bytes;
              case generate_nonce r2 of
                None \<Rightarrow> respond_error 500 ''rand''
              | Some nonce \<Rightarrow> do {
                  r3 \<leftarrow> random_bytes;
                  case generate_pkce_pair (sv_auth S) r3 of
                    None \<Rightarrow> respond_error 500 ''rand''
                  | Some pkce \<Rightarrow> State_Monad.return (begin_flow S p r st nonce pkce) } } })"

text \<open>The user of the verified claims: the account of this provider, or a new one in the default organization.\<close>

definition match_user :: "oidc_provider \<Rightarrow> oidc_claims \<Rightarrow> (response + user) act" where
  "match_user p c = do {
     res \<leftarrow> db_call (lookup_user_for_login (to_lower (oi_email c)) (provider_tag p));
     case res of
       Inl e \<Rightarrow> State_Monad.return (Inl (write_json_error 500 ''internal error''))
     | Inr (Some u) \<Rightarrow> State_Monad.return (Inr u)
     | Inr None \<Rightarrow>
         if op_default_org p = [] then
           State_Monad.return (Inl (write_json_error 403 ''no Relic account for this user and no default org configured''))
         else do {
           cr \<leftarrow> db_call (create_user_with_password (op_default_org p) (to_lower (oi_email c)) (op_default_role p) []
                   (provider_tag p));
           State_Monad.return (case cr of Inl e \<Rightarrow> Inl (write_json_error 500 ''internal error'') | Inr u \<Rightarrow> Inr u) } }"

definition return_target :: "server \<Rightarrow> flow_state \<Rightarrow> string \<Rightarrow> string" where
  "return_target S flow token =
     (let target = (if fl_return_to flow = [] then ''/'' else fl_return_to flow) in
      if sv_fragment_delivery S then
        target @ (if CHR ''#'' \<in> set target then ''&access_token='' else ''#access_token='') @ token
      else target)"

definition finish_login :: "server \<Rightarrow> oidc_provider \<Rightarrow> flow_state \<Rightarrow> user \<Rightarrow> response act" where
  "finish_login S p flow u = do {
     now \<leftarrow> clock;
     State_Monad.return (case oidc_issue (sv_auth S) p now (user_claims u) of
       Inl e \<Rightarrow> write_json_error 500 ''issue token''
     | Inr token \<Rightarrow> add_cookie clear_flow_cookie (add_cookie (session_cookie S token (24 * 60 * 60))
         (redirect (return_target S flow token)))) }"

text \<open>The checks before the exchange: the flow of a signed cookie whose state is the query's, and the code.\<close>

definition callback_flow :: "server \<Rightarrow> request \<Rightarrow> response + string \<times> flow_state" where
  "callback_flow S r =
     (if query_get ''error'' r \<noteq> [] then Inl (write_json_error 400 (''idp returned error: '' @ query_get ''error'' r))
      else if query_get ''code'' r = [] \<or> query_get ''state'' r = [] then Inl (write_json_error 400 ''missing code or state'')
      else case cookie_get ''relic_oidc_flow'' r of
        None \<Rightarrow> Inl (write_json_error 400 ''missing flow cookie'')
      | Some v \<Rightarrow>
          (case decode_flow_cookie (sv_auth S) (sv_session_secret S) v of
             Inl e \<Rightarrow> Inl (write_json_error 400 ''invalid flow cookie'')
           | Inr flow \<Rightarrow>
               if fl_state flow \<noteq> query_get ''state'' r then Inl (write_json_error 400 ''state mismatch'')
               else Inr (query_get ''code'' r, flow)))"

definition handle_oidc_callback :: "server \<Rightarrow> request \<Rightarrow> response act" where
  "handle_oidc_callback S r =
     (case oidc_provider_of S of
        None \<Rightarrow> respond_error 503 ''OIDC not configured''
      | Some p \<Rightarrow>
          (case callback_flow S r of
             Inl resp \<Rightarrow> State_Monad.return resp
           | Inr (code, flow) \<Rightarrow>
               (case exchange_and_verify p code (fl_verifier flow) (fl_nonce flow) of
                  Inl e \<Rightarrow> respond_error 401 ''oidc exchange failed''
                | Inr c \<Rightarrow>
                    if oi_email c = [] then respond_error 401 ''id_token missing email; configure scope email in IdP''
                    else do {
                      m \<leftarrow> match_user p c;
                      case m of
                        Inl resp \<Rightarrow> State_Monad.return resp
                      | Inr u \<Rightarrow> finish_login S p flow u })))"

definition handle_oidc_logout :: "server \<Rightarrow> request \<Rightarrow> response act" where
  "handle_oidc_logout S r = State_Monad.return (add_cookie (session_cookie S [] (-1))
     (reply 200 (JObj [(''status'', JStr ''ok'')])))"

end
