(* ===== verification/Router.thy ===== *)
theory Router
  imports Handlers_Identity
begin

text \<open>
  \<open>internal/api/server.go\<close>: the routes behind the auth middleware and what stands in front of them, and
  the property every route shares: a request changes nothing of an organization it is not
  authenticated for.
\<close>

section \<open>Environment\<close>

definition env_truthy :: "string \<Rightarrow> bool" where
  "env_truthy v \<longleftrightarrow> to_lower (trim_space v) \<in> {''1'', ''true'', ''yes'', ''on''}"

definition load_trace_master_secret :: "string \<Rightarrow> string" where
  "load_trace_master_secret v =
     (let raw = trim_space v in
      if raw = [] then []
      else case hex_decode raw of None \<Rightarrow> [] | Some key \<Rightarrow> if length key < 16 then [] else key)"

definition default_origins :: "string list" where
  "default_origins = [''https://app.therelic.dev'', ''http://localhost:5173'', ''http://localhost:5174'']"

definition allowed_origins :: "string \<Rightarrow> string list" where
  "allowed_origins v =
     (let raw = trim_space v; out = filter (\<lambda>t. t \<noteq> []) (map trim_space (split_on (CHR '','') raw)) in
      if raw = [] then default_origins else if out = [] then default_origins else out)"

section \<open>Readiness\<close>

definition check_result :: "string option \<Rightarrow> json" where
  "check_result e = (case e of None \<Rightarrow> JObj [(''status'', JStr ''ok'')]
     | Some m \<Rightarrow> JObj ([(''status'', JStr ''fail'')] @ str_member ''error'' m))"

text \<open>The arguments are the errors of the two pings.\<close>

definition handle_readyz :: "string option \<Rightarrow> string option \<Rightarrow> response" where
  "handle_readyz db_err s3_err =
     (let allOK = (db_err = None \<and> s3_err = None) in
      reply (if allOK then 200 else 503) (JObj [(''status'', JStr (if allOK then ''ok'' else ''degraded'')),
        (''checks'', JObj [(''db'', check_result db_err), (''s3'', check_result s3_err)])]))"

section \<open>Protected routes\<close>

datatype route =
    Onboard | UploadTrace | ListTraces | GetTrace | GetTraceEvents | DeleteTrace
  | RegisterAgent | ListAgents | GetAgent | GetAgentBaseline | GetAgentPolicy | UpdateAgentPolicy
  | CreateOrg | GetOrg | CreateAPIKey | RevokeAPIKey
  | GetSSO | PutSSO | ListSCIMTokens | CreateSCIMToken | RevokeSCIMToken
  | ListInvites | CreateInvite | CancelInvite | ListSessions | RevokeSession
  | GetUser | ListAuditEvents
  | ListProposals | GetProposal | ApproveProposal | RejectProposal | DismissProposal
  | PostIntent | UpsertPolicySet | GetPolicySet | ResolveSelector | SetAgentLabels | PolicyApplied

fun route_handler :: "server \<Rightarrow> route \<Rightarrow> request \<Rightarrow> response act" where
  "route_handler S Onboard r = handle_onboard S r"
| "route_handler S UploadTrace r = handle_upload_trace S r"
| "route_handler S ListTraces r = handle_list_traces S r"
| "route_handler S GetTrace r = handle_get_trace S r"
| "route_handler S GetTraceEvents r = handle_get_trace_events S r"
| "route_handler S DeleteTrace r = handle_delete_trace S r"
| "route_handler S RegisterAgent r = handle_register_agent S r"
| "route_handler S ListAgents r = handle_list_agents S r"
| "route_handler S GetAgent r = handle_get_agent S r"
| "route_handler S GetAgentBaseline r = handle_get_agent_baseline S r"
| "route_handler S GetAgentPolicy r = handle_get_agent_policy S r"
| "route_handler S UpdateAgentPolicy r = handle_update_agent_policy S r"
| "route_handler S CreateOrg r = handle_create_org S r"
| "route_handler S GetOrg r = handle_get_org S r"
| "route_handler S CreateAPIKey r = handle_create_api_key S r"
| "route_handler S RevokeAPIKey r = handle_revoke_api_key S r"
| "route_handler S GetSSO r = handle_get_sso S r"
| "route_handler S PutSSO r = handle_put_sso S r"
| "route_handler S ListSCIMTokens r = handle_list_scim_tokens S r"
| "route_handler S CreateSCIMToken r = handle_create_scim_token S r"
| "route_handler S RevokeSCIMToken r = handle_revoke_scim_token S r"
| "route_handler S ListInvites r = handle_list_invites S r"
| "route_handler S CreateInvite r = handle_create_invite S r"
| "route_handler S CancelInvite r = handle_cancel_invite S r"
| "route_handler S ListSessions r = handle_list_sessions S r"
| "route_handler S RevokeSession r = handle_revoke_session S r"
| "route_handler S GetUser r = handle_get_user S r"
| "route_handler S ListAuditEvents r = handle_list_audit_events S r"
| "route_handler S ListProposals r = handle_list_proposals S r"
| "route_handler S GetProposal r = handle_get_proposal S r"
| "route_handler S ApproveProposal r = handle_approve_proposal S r"
| "route_handler S RejectProposal r = handle_reject_proposal S r"
| "route_handler S DismissProposal r = handle_dismiss_proposal S r"
| "route_handler S PostIntent r = handle_post_intent S r"
| "route_handler S UpsertPolicySet r = handle_upsert_policy_set S r"
| "route_handler S GetPolicySet r = handle_get_policy_set S r"
| "route_handler S ResolveSelector r = handle_resolve_selector S r"
| "route_handler S SetAgentLabels r = handle_set_agent_labels S r"
| "route_handler S PolicyApplied r = handle_policy_applied S r"

definition api_validate :: "server \<Rightarrow> string \<Rightarrow> world \<Rightarrow> string res \<times> world" where
  "api_validate S token = run_state (db_call (validate_api_key (sv_env S) token))"

definition api_verify :: "server \<Rightarrow> string \<Rightarrow> world \<Rightarrow> claims res" where
  "api_verify S token w = provider_verify (sv_auth S) (sv_provider S) (w_now w) token"

definition protected_route :: "server \<Rightarrow> route \<Rightarrow> request \<Rightarrow> world \<Rightarrow> response \<times> world" where
  "protected_route S rt = auth_middleware (api_validate S) (api_verify S) (\<lambda>r. run_state (route_handler S rt r))"

section \<open>A handler leaves other organizations alone\<close>

lemma reads_keep:
  "keeps org s (snd (list_runs g n l k s))" "keeps org s (snd (get_run g i s))"
  "keeps org s (snd (list_agents g s))" "keeps org s (snd (get_agent g n s))"
  "keeps org s (snd (get_agent_policy g n s))" "keeps org s (snd (get_agent_baseline g i s))"
  "keeps org s (snd (get_org i s))" "keeps org s (snd (list_proposals g st s))"
  "keeps org s (snd (list_audit_events g l k s))" "keeps org s (snd (get_policy_set_by_id g i s))"
  "keeps org s (snd (list_scim_tokens g s))" "keeps org s (snd (list_invites g s))"
  "keeps org s (snd (list_sessions_for_org g s))" "keeps org s (snd (lookup_user_for_login e v s))"
  by (auto simp: list_runs_def get_run_def list_agents_def get_agent_def get_agent_policy_def
      get_agent_baseline_def get_org_def list_proposals_def list_audit_events_def get_policy_set_by_id_def
      list_scim_tokens_def list_invites_def list_sessions_for_org_def lookup_user_for_login_def page_def
      intro!: keeps_stmt split: if_splits)

lemma keeps_select_pair: "select f s = (a, b) \<Longrightarrow> keeps org s b"
  by (metis keeps_select snd_conv)

lemma keeps_resolve_selector: "keeps org s (snd (resolve_selector g sel s))"
  by (auto simp: resolve_selector_def get_agent_def intro: keeps_select_pair split: option.splits sum.splits prod.splits)

lemma keeps_get_sso_config: "keeps org s (snd (get_sso_config E g s))"
  by (auto simp: get_sso_config_def intro: keeps_select_pair split: option.splits sum.splits prod.splits)

lemma keeps_validate_api_key: "keeps org s (snd (validate_api_key E t s))"
  by (auto simp: validate_api_key_def intro: keeps_select_pair split: option.splits sum.splits prod.splits)

lemma leads_notify:
  "leads (db_keeps org) (feed_publish S note)" "leads (db_keeps org) (live_publish ev)"
  by (auto simp: leads_def feed_publish_def live_publish_def db_keeps_def split: sum.splits prod.splits)
    (metis (no_types, lifting) Inr_inject Pair_inject keeps_refl keeps_stmt snd_conv)+

lemma leads_publish_all: "leads (db_keeps org) (publish_all S note as)"
  by (induction as) (auto intro!: others.leads_rules leads_notify)

lemmas handler_rules = others.leads_rules leads_db_call leads_s3 leads_audit leads_notify leads_publish_all
  op_keeps reads_keep keeps_resolve_selector keeps_get_sso_config

lemma traces_keep:
  assumes "org_id_from_context r \<noteq> org"
  shows "leads (db_keeps org) (handle_upload_trace S r)" "leads (db_keeps org) (handle_list_traces S r)"
    "leads (db_keeps org) (handle_get_trace S r)" "leads (db_keeps org) (handle_get_trace_events S r)"
    "leads (db_keeps org) (handle_delete_trace S r)"
  using assms
  by (auto simp: handle_upload_trace_def handle_list_traces_def handle_get_trace_def handle_get_trace_events_def
      handle_delete_trace_def index_trace_def index_failed_def upload_refused_def upload_accepted_def
      run_of_summary_def Let_def intro!: handler_rules)

lemma agents_keep:
  assumes "org_id_from_context r \<noteq> org"
  shows "leads (db_keeps org) (handle_register_agent S r)" "leads (db_keeps org) (handle_list_agents S r)"
    "leads (db_keeps org) (handle_get_agent S r)" "leads (db_keeps org) (handle_get_agent_baseline S r)"
    "leads (db_keeps org) (handle_get_agent_policy S r)" "leads (db_keeps org) (handle_update_agent_policy S r)"
  using assms
  by (auto simp: handle_register_agent_def handle_list_agents_def handle_get_agent_def handle_get_agent_baseline_def
      handle_get_agent_policy_def handle_update_agent_policy_def intro!: handler_rules)

lemma keys_keep:
  assumes "org_id_from_context r \<noteq> org"
  shows "leads (db_keeps org) (handle_get_org S r)" "leads (db_keeps org) (handle_create_api_key S r)"
    "leads (db_keeps org) (handle_revoke_api_key S r)" "leads (db_keeps org) (handle_get_user S r)"
  using assms
  by (auto simp: handle_get_org_def handle_create_api_key_def handle_revoke_api_key_def handle_get_user_def
      intro!: handler_rules)

lemma policies_keep:
  assumes "org_id_from_context r \<noteq> org"
  shows "leads (db_keeps org) (handle_upsert_policy_set S r)" "leads (db_keeps org) (handle_get_policy_set S r)"
    "leads (db_keeps org) (handle_resolve_selector S r)" "leads (db_keeps org) (handle_set_agent_labels S r)"
    "leads (db_keeps org) (handle_policy_applied S r)" "leads (db_keeps org) (handle_post_intent S r)"
    "leads (db_keeps org) (handle_list_audit_events S r)"
  using assms
  by (auto simp: handle_upsert_policy_set_def check_policy_set_def write_policy_set_def handle_get_policy_set_def
      handle_resolve_selector_def handle_set_agent_labels_def handle_policy_applied_def handle_post_intent_def
      publish_intent_def intent_agent_def handle_list_audit_events_def Let_def
      intro!: handler_rules split: list.splits)

lemma proposals_keep:
  assumes "org_id_from_context r \<noteq> org"
  shows "leads (db_keeps org) (handle_list_proposals S r)" "leads (db_keeps org) (handle_get_proposal S r)"
    "leads (db_keeps org) (decide_proposal S r st act)"
  using assms
  by (auto simp: handle_list_proposals_def handle_get_proposal_def decide_proposal_def intro!: handler_rules)

lemma sso_input_org: "Option.bind m (sso_input org) = Some c \<Longrightarrow> cfg_org c = org"
  by (cases m) (auto simp: sso_input_def split: option.splits)

lemma identity_keep:
  assumes "org_id_from_context r \<noteq> org"
  shows "leads (db_keeps org) (handle_get_sso S r)" "leads (db_keeps org) (handle_put_sso S r)"
    "leads (db_keeps org) (handle_list_scim_tokens S r)" "leads (db_keeps org) (handle_create_scim_token S r)"
    "leads (db_keeps org) (handle_revoke_scim_token S r)" "leads (db_keeps org) (handle_list_invites S r)"
    "leads (db_keeps org) (handle_create_invite S r)" "leads (db_keeps org) (handle_cancel_invite S r)"
    "leads (db_keeps org) (handle_list_sessions S r)" "leads (db_keeps org) (handle_revoke_session S r)"
  using assms
  by (auto simp: handle_get_sso_def handle_put_sso_def handle_list_scim_tokens_def handle_create_scim_token_def
      handle_revoke_scim_token_def handle_list_invites_def handle_create_invite_def handle_cancel_invite_def
      handle_list_sessions_def handle_revoke_session_def Let_def dest: sso_input_org intro!: handler_rules)

text \<open>A new organization gets an id none has, and its first audit row is its own.\<close>

lemma create_org_keeps:
  assumes "org_exists org s"
  shows "keeps org s (snd (create_org nm slug s))"
    and "fst (create_org nm slug s) = Inr g \<Longrightarrow> org_id g \<noteq> org"
proof -
  obtain g0 where "g0 \<in> set (orgs s)" "org_id g0 = org"
    using assms by (auto simp: org_exists_def list_ex_iff)
  then show "keeps org s (snd (create_org nm slug s))"
    "fst (create_org nm slug s) = Inr g \<Longrightarrow> org_id g \<noteq> org"
    by (auto simp: create_org_def stmt_def with_ctx_def Let_def fresh_id_def keeps_def db_ok_defs org_view_def
        agent_ids_def list_ex_iff split: list.splits if_splits)
qed

lemma leads_create_org:
  assumes "\<And>e. leads (db_keeps org) (k (Inl e))" "\<And>g. org_id g \<noteq> org \<Longrightarrow> leads (db_keeps org) (k (Inr g))"
  shows "leads (db_keeps org) (State_Monad.bind (db_call (create_org nm slug)) k)"
proof (unfold leads_def, rule allI)
  fix w :: world
  obtain x d where c: "create_org nm slug (w_db w) = (x, d)" by fastforce
  have run: "run_state (State_Monad.bind (db_call (create_org nm slug)) k) w = run_state (k x) (w\<lparr>w_db := d\<rparr>)"
    by (simp add: db_call_def c)
  show "db_keeps org w (snd (run_state (State_Monad.bind (db_call (create_org nm slug)) k) w))"
  proof (cases "org_exists org (w_db w)")
    case True
    from create_org_keeps(1) [OF True, of nm slug] c have "db_keeps org w (w\<lparr>w_db := d\<rparr>)"
      by (simp add: db_keeps_def)
    moreover have "leads (db_keeps org) (k x)"
      using assms create_org_keeps(2) [OF True, of nm slug] c by (cases x) auto
    ultimately show ?thesis unfolding run leads_def using db_keeps_trans by blast
  qed (simp add: db_keeps_def)
qed

lemma orgs_keep: "leads (db_keeps org) (handle_create_org S r)" "leads (db_keeps org) (handle_onboard S r)"
proof -
  show "leads (db_keeps org) (handle_create_org S r)"
    unfolding handle_create_org_def Let_def
    by (intro others.leads_if others.leads_option others.leads_respond others.leads_prod leads_create_org;
      auto intro!: handler_rules)
  then show "leads (db_keeps org) (handle_onboard S r)" by (simp add: handle_onboard_def)
qed

lemma route_keeps:
  assumes "org_id_from_context r \<noteq> org"
  shows "leads (db_keeps org) (route_handler S rt r)"
  by (cases rt) (simp_all add: traces_keep agents_keep keys_keep policies_keep proposals_keep identity_keep orgs_keep
      handle_approve_proposal_def handle_reject_proposal_def handle_dismiss_proposal_def assms)

lemma api_validate_keeps: "db_keeps org w (snd (api_validate S token w))"
  using keeps_validate_api_key [of org "w_db w" "sv_env S" token]
  by (auto simp: api_validate_def db_call_def db_keeps_def split: prod.splits)

lemma refused_keeps:
  assumes "\<forall>nxt. auth_middleware (api_validate S) (api_verify S) nxt r w = (write_json_error 401 msg, w')"
  shows "db_keeps org w w'"
proof -
  have "auth_middleware (api_validate S) (api_verify S) (\<lambda>r w. (reply 200 JNull, w)) r w =
      (write_json_error 401 msg, w')"
    using assms by blast
  then have "w' = w \<or> (\<exists>token. w' = snd (api_validate S token w))"
    by (auto simp: auth_middleware_def Let_def write_json_error_def reply_def
        split: if_splits list.splits sum.splits prod.splits) (metis snd_conv)+
  then show ?thesis using api_validate_keeps others.I_refl by auto
qed

text \<open>
  A request to any protected route leaves every organization it is not authenticated for as it
  was: if neither an API key nor a token puts the existing organization into the request's context,
  all of that organization's rows are unchanged afterwards and the database's constraints still
  hold, whatever the route, the body, the parameters and the failures on the way.
\<close>

lemma api_tenant_isolation:
  assumes "db_ok (w_db w)" and "org_exists org (w_db w)" and "rq_ctx_org r = []"
    and "\<And>r' w'. authenticated (api_validate S) (api_verify S) r w r' w' \<Longrightarrow> rq_ctx_org r' \<noteq> org"
  shows "org_view org (w_db (snd (protected_route S rt r w))) = org_view org (w_db w) \<and>
    db_ok (w_db (snd (protected_route S rt r w)))"
proof -
  have "db_keeps org w (snd (protected_route S rt r w))"
  proof (cases "\<exists>r' w'. authenticated (api_validate S) (api_verify S) r w r' w'")
    case True
    then obtain r' w' where au: "authenticated (api_validate S) (api_verify S) r w r' w'" by blast
    have "protected_route S rt r w = run_state (route_handler S rt r') w'"
      unfolding protected_route_def by (rule authenticated_passes [OF au])
    moreover have "db_keeps org w w'"
      using au api_validate_keeps [of org w S] others.I_refl by cases (metis snd_conv)+
    moreover have "leads (db_keeps org) (route_handler S rt r')"
      using route_keeps assms(4) [OF au] by (simp add: org_id_from_context_def)
    ultimately show ?thesis unfolding leads_def using db_keeps_trans by metis
  next
    case False
    then obtain msg w' where m: "\<forall>nxt. auth_middleware (api_validate S) (api_verify S) nxt r w = (write_json_error 401 msg, w')"
      using unauthenticated_refused by metis
    have "protected_route S rt r w = (write_json_error 401 msg, w')"
      unfolding protected_route_def using m by blast
    with refused_keeps [OF m] show ?thesis by simp
  qed
  with assms(1,2) show ?thesis by (simp add: db_keeps_def keeps_def)
qed

definition demo_traces :: trace_libs where
  "demo_traces = \<lparr>gunzip = (\<lambda>d. Inr (d, None)), hmac_sha256 = (\<lambda>k m. m), parse_rfc3339 = (\<lambda>_. Some 7)\<rparr>"

definition demo_server :: server where
  "demo_server = \<lparr>sv_env = demo_env, sv_policy = demo_libs, sv_trace = demo_traces, sv_times = demo_times,
     sv_auth = demo_auth, sv_rfc3339 = show_int, sv_millis = show_int, sv_presign = Inr, sv_master = [],
     sv_require_sealed = False, sv_has_live = True, sv_has_feed = True, sv_provider = demo_local,
     sv_session_secret = ''k'', sv_insecure_cookies = False, sv_fragment_delivery = False\<rparr>"

definition demo_world :: world where
  "demo_world = \<lparr>w_db = demo_db, w_blobs = Map.empty, w_s3_faults = [], w_now = 0, w_feed = [], w_live = [],
     w_rand = [], w_uploads = []\<rparr>"

text \<open>A request with a session token of organization \<open>b\<close> that tries to create a key for \<open>a\<close>.\<close>

definition demo_token :: string where
  "demo_token = toy_field ''u'' @ toy_field ''e'' @ toy_field ''b'' @ toy_field []"

definition demo_request :: request where
  "demo_request = bare_request\<lparr>rq_headers := [(''Authorization'', ''Bearer '' @ demo_token)],
     rq_params := [(''orgID'', ''a'')], rq_body := Some (jq ''{`name`:`k`}'')\<rparr>"

lemma demo_request_org:
  assumes "authenticated (api_validate demo_server) (api_verify demo_server) demo_request w r' w'"
  shows "rq_ctx_org r' = ''b''"
proof -
  let ?echo = "\<lambda>r (w :: world). (reply 200 (JStr (rq_ctx_org r)), w)"
  have h: "header_get ''Authorization'' demo_request = ''Bearer '' @ demo_token"
    by (simp add: header_get_def demo_request_def equal_fold_def)
  have s: "split_n2 (CHR '' '') (''Bearer '' @ demo_token) = [''Bearer'', demo_token]"
    by simp
  have p: "\<not> has_prefix demo_token ''rk_''"
    by (simp add: demo_token_def toy_field_def quote_json_char_def)
  have v: "api_verify demo_server demo_token w = Inr \<lparr>cl_user = ''u'', cl_org = ''b'', cl_email = ''e''\<rparr>"
    by (simp add: api_verify_def demo_server_def demo_local_def local_verify_def demo_auth_def demo_token_def
        toy_claims_fields claims_of_def claim_string_def metadata_org_def go_map_def)
  have "auth_middleware (api_validate demo_server) (api_verify demo_server) ?echo demo_request w =
      (reply 200 (JStr ''b''), w)"
    using h s p v by (simp add: auth_middleware_def Let_def equal_fold_def)
  with authenticated_passes [OF assms, of ?echo] show ?thesis by (simp add: reply_def)
qed

lemma api_tenant_isolation_witness:
  "org_view ''a'' (w_db (snd (protected_route demo_server CreateAPIKey demo_request demo_world))) = org_view ''a'' demo_db"
  using api_tenant_isolation [of demo_world "''a''" demo_request demo_server CreateAPIKey] demo_request_org demo_db_ok
  by (simp add: demo_world_def demo_db_def empty_db_def demo_org_def org_exists_def demo_request_def bare_request_def)

end
