(* ===== verification/Simulate_Runner.thy ===== *)
theory Simulate_Runner
  imports Router
begin

text \<open>
  \<open>internal/simulate/runner.go\<close> and \<open>internal/api/simulate.go\<close>: the in-memory jobs that run a candidate
  policy over an agent's recorded actions, and the two handlers in front of them. A job's goroutine is
  a function of the order in which its downloads complete.
\<close>

section \<open>Jobs\<close>

datatype job_status = StatusPending | StatusRunning | StatusDone | StatusError

primrec status_text :: "job_status \<Rightarrow> string" where
  "status_text StatusPending = ''pending''"
| "status_text StatusRunning = ''running''"
| "status_text StatusDone = ''done''"
| "status_text StatusError = ''error''"

record sim_request =
  sq_org :: string
  sq_agent :: string
  sq_yaml :: string
  sq_window :: int

text \<open>The samples are a slice: \<open>None\<close> is nil, which JSON writes as \<open>null\<close>.\<close>

record sim_result =
  sr_newly_denied :: nat
  sr_newly_allowed :: nat
  sr_unchanged :: nat
  sr_total :: nat
  sr_runs_scanned :: nat
  sr_samples :: "sample_flip list option"

record job =
  jb_id :: string
  jb_org :: string
  jb_status :: job_status
  jb_error :: string
  jb_result :: "sim_result option"
  jb_submitted :: int
  jb_finished :: "int option"

record runner =
  rn_jobs :: "string \<rightharpoonup> job"
  rn_max_runs :: int
  rn_fanout :: nat

text \<open>The order of a job's life; \<open>done\<close> and \<open>error\<close> are both its end.\<close>

primrec status_rank :: "job_status \<Rightarrow> nat" where
  "status_rank StatusPending = 0"
| "status_rank StatusRunning = 1"
| "status_rank StatusDone = 2"
| "status_rank StatusError = 2"

instantiation job_status :: order
begin

definition less_eq_job_status :: "job_status \<Rightarrow> job_status \<Rightarrow> bool" where
  "less_eq_job_status a b \<longleftrightarrow> a = b \<or> status_rank a < status_rank b"

definition less_job_status :: "job_status \<Rightarrow> job_status \<Rightarrow> bool" where
  "less_job_status a b \<longleftrightarrow> status_rank a < status_rank b"

instance
  by standard (auto simp: less_eq_job_status_def less_job_status_def)

end

definition new_runner :: runner where
  "new_runner = \<lparr>rn_jobs = Map.empty, rn_max_runs = 200, rn_fanout = 4\<rparr>"

definition err_invalid_request :: go_error where
  "err_invalid_request = Sentinel ''simulate: invalid request''"

definition err_job_not_found :: go_error where
  "err_job_not_found = Sentinel ''simulate: job not found''"

definition invalid_request :: "string \<Rightarrow> go_error" where
  "invalid_request why = ErrWrap [] err_invalid_request ('': '' @ why)"

text \<open>The checks before a job exists; \<open>Inr\<close> is the candidate policy.\<close>

definition check_request :: "policy_libs \<Rightarrow> sim_request \<Rightarrow> policy res" where
  "check_request L q =
     (if sq_org q = [] then Inl (invalid_request ''org missing'')
      else if sq_agent q = [] then Inl (invalid_request ''selector is required'')
      else if sq_yaml q = [] then Inl (invalid_request ''policy_yaml is required'')
      else if sq_window q \<notin> {1, 7, 30} then Inl (invalid_request ''window_days must be 1, 7, or 30'')
      else case policy_parse L (sq_yaml q) of
        Inl e \<Rightarrow> Inl (invalid_request (error_text e))
      | Inr candidate \<Rightarrow>
          (case validate L candidate False of
             [] \<Rightarrow> Inr candidate
           | e # es \<Rightarrow> Inl (invalid_request (ve_text e))))"

text \<open>\<open>i\<close> is the ULID drawn, \<open>now\<close> the clock; the answer is the job to run in the background.\<close>

definition submit_job :: "policy_libs \<Rightarrow> string \<Rightarrow> int \<Rightarrow> sim_request \<Rightarrow> runner \<Rightarrow> (string \<times> policy) res \<times> runner" where
  "submit_job L i now q rn =
     (case check_request L q of
        Inl e \<Rightarrow> (Inl e, rn)
      | Inr candidate \<Rightarrow>
          (Inr (i, candidate), rn\<lparr>rn_jobs := (rn_jobs rn)(i \<mapsto>
             \<lparr>jb_id = i, jb_org = sq_org q, jb_status = StatusPending, jb_error = [], jb_result = None,
              jb_submitted = now, jb_finished = None\<rparr>)\<rparr>))"

definition get_job :: "string \<Rightarrow> string \<Rightarrow> runner \<Rightarrow> job res" where
  "get_job org i rn = (case rn_jobs rn i of
     None \<Rightarrow> Inl err_job_not_found
   | Some j \<Rightarrow> if jb_org j \<noteq> org then Inl err_job_not_found else Inr j)"

definition update_job :: "string \<Rightarrow> (job \<Rightarrow> job) \<Rightarrow> runner \<Rightarrow> runner" where
  "update_job i f rn = rn\<lparr>rn_jobs := (rn_jobs rn)(i := map_option f (rn_jobs rn i))\<rparr>"

definition set_status :: "string \<Rightarrow> job_status \<Rightarrow> string \<Rightarrow> runner \<Rightarrow> runner" where
  "set_status i s msg = update_job i (\<lambda>j. j\<lparr>jb_status := s, jb_error := msg\<rparr>)"

definition finish_done :: "string \<Rightarrow> sim_result \<Rightarrow> int \<Rightarrow> runner \<Rightarrow> runner" where
  "finish_done i r now = update_job i (\<lambda>j. j\<lparr>jb_status := StatusDone, jb_result := Some r, jb_finished := Some now\<rparr>)"

definition finish_error :: "string \<Rightarrow> go_error \<Rightarrow> int \<Rightarrow> runner \<Rightarrow> runner" where
  "finish_error i e now = update_job i (\<lambda>j. j\<lparr>jb_status := StatusError, jb_error := error_text e, jb_finished := Some now\<rparr>)"

section \<open>The run\<close>

text \<open>
  One download and decode. An error of the decoding counts only when no event was decoded.
\<close>

definition fetch_run :: "server \<Rightarrow> run \<Rightarrow> action_event list res act" where
  "fetch_run S q = do {
     d \<leftarrow> s3_download (r_storage_key q);
     State_Monad.return (case d of
       Inl e \<Rightarrow> Inl (ErrWrap (''download '' @ r_id q @ '': '') e [])
     | Inr body \<Rightarrow>
         (case extract_action_events (sv_trace S) body of
            ([], Some e) \<Rightarrow> Inl (ErrWrap (''extract '' @ r_id q @ '': '') e [])
          | (evs, _) \<Rightarrow> Inr evs)) }"

text \<open>The receive loop over the results in the order they arrive: the events, and the first error.\<close>

fun collect :: "server \<Rightarrow> run list \<Rightarrow> action_event list \<Rightarrow> go_error option \<Rightarrow> (action_event list \<times> go_error option) act" where
  "collect S [] out err = State_Monad.return (out, err)"
| "collect S (q # qs) out err = do {
     r \<leftarrow> fetch_run S q;
     case r of
       Inl e \<Rightarrow> collect S qs out (if err = None then Some e else err)
     | Inr evs \<Rightarrow> collect S qs (out @ evs) err }"

definition fetch_events :: "server \<Rightarrow> run list \<Rightarrow> action_event list res act" where
  "fetch_events S qs = do {
     c \<leftarrow> collect S qs [] None;
     State_Monad.return (case c of
       ([], Some e) \<Rightarrow> Inl e
     | (out, _) \<Rightarrow> Inr out) }"

text \<open>
  The samples' order: denies first, then by target; copying no samples gives a nil slice. Ten samples are within the twenty elements that
  \<open>sort.SliceStable\<close> sorts by insertion.
\<close>

definition sample_less :: "sample_flip \<Rightarrow> sample_flip \<Rightarrow> bool" where
  "sample_less a b =
     (if sf_new_auth a = sf_new_auth b then \<not> string_le (sf_target b) (sf_target a)
      else sf_new_auth a = ''deny'' \<or> sf_new_auth a = ''audit_deny'' \<or> sf_new_auth a = ''would_deny'')"

definition sort_samples :: "sample_flip list \<Rightarrow> sample_flip list option" where
  "sort_samples ss = (if ss = [] then None else Some (slice_stable sample_less ss))"

definition empty_result :: sim_result where
  "empty_result = \<lparr>sr_newly_denied = 0, sr_newly_allowed = 0, sr_unchanged = 0, sr_total = 0, sr_runs_scanned = 0,
     sr_samples = Some []\<rparr>"

definition result_of :: "nat \<Rightarrow> diff \<Rightarrow> sim_result" where
  "result_of n d = \<lparr>sr_newly_denied = newly_denied d, sr_newly_allowed = newly_allowed d,
     sr_unchanged = df_unchanged d, sr_total = total_evaluated d, sr_runs_scanned = n,
     sr_samples = sort_samples (df_samples d)\<rparr>"

text \<open>
  Between \<open>setStatus\<close> and \<open>finish...\<close>: \<open>arrival\<close> puts the runs in the order their downloads complete. A
  database or bucket call that the job's timeout cuts off is one that fails.
\<close>

definition simulate_runs :: "server \<Rightarrow> (run list \<Rightarrow> run list) \<Rightarrow> runner \<Rightarrow> policy \<Rightarrow> sim_request \<Rightarrow> sim_result res act" where
  "simulate_runs S arrival rn candidate q = do {
     now \<leftarrow> clock;
     res \<leftarrow> db_call (list_runs_for_simulate (sq_org q) (sq_agent q) (now - sq_window q * day_nanos) (rn_max_runs rn));
     case res of
       Inl e \<Rightarrow> State_Monad.return (Inl (ErrWrap ''list runs: '' e []))
     | Inr qs \<Rightarrow>
         if qs = [] then State_Monad.return (Inr empty_result)
         else do {
           evs \<leftarrow> fetch_events S (arrival qs);
           State_Monad.return (case evs of
             Inl e \<Rightarrow> Inl e
           | Inr out \<Rightarrow> Inr (result_of (length qs) (simulate (sv_policy S) candidate out))) } }"

definition run_job :: "server \<Rightarrow> (run list \<Rightarrow> run list) \<Rightarrow> string \<Rightarrow> policy \<Rightarrow> sim_request \<Rightarrow> runner \<Rightarrow> runner act" where
  "run_job S arrival i candidate q rn = do {
     let rn1 = set_status i StatusRunning [] rn;
     res \<leftarrow> simulate_runs S arrival rn1 candidate q;
     now \<leftarrow> clock;
     State_Monad.return (case res of
       Inl e \<Rightarrow> finish_error i e now rn1
     | Inr r \<Rightarrow> finish_done i r now rn1) }"

section \<open>Handlers\<close>

definition max_simulate_body_bytes :: nat where
  "max_simulate_body_bytes = 64 * 1024"

text \<open>The nested struct \<open>agentSelector\<close>: every object stored over the previous one, \<open>null\<close> leaving it.\<close>

definition dec_selector :: "string \<Rightarrow> json \<Rightarrow> string option" where
  "dec_selector acc v = (case v of
     JNull \<Rightarrow> Some acc | JObj ms \<Rightarrow> decode_field dec_string ''agent_name'' acc ms | _ \<Rightarrow> None)"

definition simulate_request :: "string \<Rightarrow> string \<Rightarrow> sim_request option" where
  "simulate_request org body = Option.bind (unmarshal_struct body) (\<lambda>ms.
     case (field_string ''policy_yaml'' ms, decode_field dec_selector ''agent_selector'' [] ms, field_int ''window_days'' ms) of
       (Some y, Some a, Some d) \<Rightarrow> Some \<lparr>sq_org = org, sq_agent = a, sq_yaml = y, sq_window = d\<rparr>
     | _ \<Rightarrow> None)"

text \<open>The answer, the runner, and the job the handler started.\<close>

definition handle_simulate_policy :: "server \<Rightarrow> bool \<Rightarrow> string \<Rightarrow> request \<Rightarrow> runner \<Rightarrow>
    (response \<times> runner \<times> (string \<times> policy) option) act" where
  "handle_simulate_policy S configured i r rn =
     (let org = org_id_from_context r;
          refuse = (\<lambda>code msg. State_Monad.return (write_json_error code msg, rn, None)) in
      if org = [] then refuse 403 ''org_id required''
      else if \<not> configured then refuse 503 ''simulator not configured''
      else case read_max max_simulate_body_bytes r of
        None \<Rightarrow> refuse 413 ''request exceeds maximum size''
      | Some body \<Rightarrow>
          (case simulate_request org body of
             None \<Rightarrow> refuse 400 ''invalid JSON''
           | Some q \<Rightarrow>
               if sq_agent q = [] then refuse 400 ''agent_selector.agent_name is required''
               else do {
                 now \<leftarrow> clock;
                 case submit_job (sv_policy S) i now q rn of
                   (Inl e, rn1) \<Rightarrow> State_Monad.return
                     (if same_sentinel e err_invalid_request then write_json_error 400 (error_text e)
                      else write_json_error 500 ''simulate submit failed'', rn1, None)
                 | (Inr (jid, candidate), rn1) \<Rightarrow> do {
                     audit_log S r ''policy.simulate'' ''agent'' (sq_agent q)
                       (Some [(''job_id'', JStr jid), (''window_days'', JInt (sq_window q))]);
                     State_Monad.return (reply 202 (JObj [(''job_id'', JStr jid)]), rn1, Some (jid, candidate)) } }))"

definition flip_json :: "sample_flip \<Rightarrow> json" where
  "flip_json f = JObj [(''run_id'', JStr (sf_run_id f)), (''target'', JStr (sf_target f)), (''method'', JStr (sf_method f)),
     (''old_auth'', JStr (sf_old_auth f)), (''new_auth'', JStr (sf_new_auth f))]"

definition sim_result_json :: "sim_result \<Rightarrow> json" where
  "sim_result_json r = JObj [(''newly_denied'', JInt (int (sr_newly_denied r))),
     (''newly_allowed'', JInt (int (sr_newly_allowed r))), (''unchanged'', JInt (int (sr_unchanged r))),
     (''total_evaluated'', JInt (int (sr_total r))), (''runs_scanned'', JInt (int (sr_runs_scanned r))),
     (''samples'', case sr_samples r of None \<Rightarrow> JNull | Some ss \<Rightarrow> JArr (map flip_json ss))]"

definition handle_get_simulate_job :: "bool \<Rightarrow> request \<Rightarrow> runner \<Rightarrow> response" where
  "handle_get_simulate_job configured r rn =
     (let org = org_id_from_context r in
      if org = [] then write_json_error 403 ''org_id required''
      else if \<not> configured then write_json_error 503 ''simulator not configured''
      else case get_job org (url_param ''jobID'' r) rn of
        Inl e \<Rightarrow> if same_sentinel e err_job_not_found then write_json_error 404 ''job not found''
                 else write_json_error 500 ''internal error''
      | Inr j \<Rightarrow> reply 200 (JObj ([(''job_id'', JStr (jb_id j)), (''status'', JStr (status_text (jb_status j))),
            (''submitted_at'', JTime (jb_submitted j))] @ opt_member ''finished_at'' JTime (jb_finished j) @
            str_member ''error'' (jb_error j) @ opt_member ''result'' sim_result_json (jb_result j))))"

section \<open>Looking jobs up\<close>

lemma get_job_update: "get_job org i (update_job i f rn) =
    (case rn_jobs rn i of None \<Rightarrow> Inl err_job_not_found
     | Some j \<Rightarrow> if jb_org (f j) \<noteq> org then Inl err_job_not_found else Inr (f j))"
  by (simp add: get_job_def update_job_def split: option.splits)

section \<open>The order of arrival\<close>

definition fetched :: "server \<Rightarrow> (string \<rightharpoonup> string) \<Rightarrow> run \<Rightarrow> action_event list res" where
  "fetched S blobs q = (case blobs (r_storage_key q) of
     None \<Rightarrow> Inl (ErrWrap (''download '' @ r_id q @ '': '') (ErrWrap ''download from S3: '' (ErrText ''NoSuchKey'') []) [])
   | Some body \<Rightarrow>
       (case extract_action_events (sv_trace S) body of
          ([], Some e) \<Rightarrow> Inl (ErrWrap (''extract '' @ r_id q @ '': '') e [])
        | (evs, _) \<Rightarrow> Inr evs))"

lemma fetch_run_ok: "w_s3_faults w = [] \<Longrightarrow> run_state (fetch_run S q) w = (fetched S (w_blobs w) q, w)"
  by (cases w) (auto simp: fetch_run_def s3_download_def s3_call_def wrap_error_def fetched_def Let_def split: option.splits)

definition events_in :: "server \<Rightarrow> (string \<rightharpoonup> string) \<Rightarrow> run list \<Rightarrow> action_event list" where
  "events_in S blobs qs = concat (map (\<lambda>q. case fetched S blobs q of Inl e \<Rightarrow> [] | Inr evs \<Rightarrow> evs) qs)"

definition some_failed :: "server \<Rightarrow> (string \<rightharpoonup> string) \<Rightarrow> run list \<Rightarrow> bool" where
  "some_failed S blobs qs \<longleftrightarrow> (\<exists>q \<in> set qs. \<exists>e. fetched S blobs q = Inl e)"

lemma collect_ok:
  assumes "w_s3_faults w = []"
  shows "\<exists>err'. run_state (collect S qs out err) w = ((out @ events_in S (w_blobs w) qs, err'), w) \<and>
    (err' = None \<longleftrightarrow> err = None \<and> \<not> some_failed S (w_blobs w) qs)"
proof (induction qs arbitrary: out err)
  case (Cons q qs)
  show ?case
  proof (cases "fetched S (w_blobs w) q")
    case (Inl e)
    with Cons.IH [of out "if err = None then Some e else err"] show ?thesis
      by (auto simp: fetch_run_ok [OF assms] events_in_def some_failed_def split: if_splits)
  next
    case (Inr evs)
    with Cons.IH [of "out @ evs" err] show ?thesis
      by (auto simp: fetch_run_ok [OF assms] events_in_def some_failed_def)
  qed
qed (simp add: events_in_def some_failed_def)

lemma events_in_mset:
  assumes "mset qs = mset qs'"
  shows "mset (events_in S blobs qs) = mset (events_in S blobs qs')"
proof -
  have "mset (events_in S blobs rs) = (\<Sum>q \<in># mset rs. mset (case fetched S blobs q of Inl e \<Rightarrow> [] | Inr evs \<Rightarrow> evs))" for rs
    by (induction rs) (auto simp: events_in_def)
  with assms show ?thesis by metis
qed

lemma some_failed_mset: "mset qs = mset qs' \<Longrightarrow> some_failed S blobs qs = some_failed S blobs qs'"
  by (metis set_mset_mset some_failed_def)

definition counts_of :: "sim_result \<Rightarrow> nat list" where
  "counts_of r = [sr_newly_denied r, sr_newly_allowed r, sr_unchanged r, sr_total r, sr_runs_scanned r]"

lemma count_where_mset: "mset xs = mset ys \<Longrightarrow> count_where P xs = count_where P ys"
  by (metis count_where_def mset_filter size_mset)

lemma simulate_counts_mset:
  assumes "mset evs = mset evs'"
  shows "counts_of (result_of n (simulate L p evs)) = counts_of (result_of n (simulate L p evs'))"
proof -
  have len: "length evs = length evs'" using assms by (rule mset_eq_length)
  have u: "df_unchanged (simulate L p xs) = length xs - (count_where (flips_to_deny L p) xs + count_where (flips_to_allow L p) xs)" for xs
    using simulate_loop_counts(4) [of L p empty_diff 0 0 xs] by (simp add: simulate_def)
  show ?thesis
    using len count_where_mset [OF assms]
    by (simp add: counts_of_def result_of_def u) (simp add: simulate_def simulate_loop_counts)
qed

text \<open>The race between the downloads does not show in the numbers, whatever permutation it makes of the runs.\<close>

lemma simulate_runs_mset:
  assumes "w_s3_faults w = []" and "\<And>qs. mset (a qs) = mset qs" and "\<And>qs. mset (b qs) = mset qs"
  shows "map_sum (\<lambda>_. ()) counts_of (fst (run_state (simulate_runs S a rn candidate q) w)) =
    map_sum (\<lambda>_. ()) counts_of (fst (run_state (simulate_runs S b rn candidate q) w))"
proof -
  let ?ask = "list_runs_for_simulate (sq_org q) (sq_agent q) (w_now w - sq_window q * day_nanos) (rn_max_runs rn)"
  obtain res d where ask: "?ask (w_db w) = (res, d)" by fastforce
  let ?w1 = "w\<lparr>w_db := d\<rparr>"
  have nf: "w_s3_faults ?w1 = []" using assms(1) by simp
  show ?thesis
  proof (cases res)
    case (Inl e)
    then show ?thesis using ask by (simp add: simulate_runs_def clock_def db_call_def)
  next
    case (Inr qs)
    have mab: "mset (a qs) = mset (b qs)" using assms(2,3) by simp
    let ?out = "\<lambda>f. events_in S (w_blobs w) (f qs)"
    have run: "fst (run_state (simulate_runs S f rn candidate q) w) =
        (if qs = [] then Inr empty_result
         else if ?out f = [] \<and> some_failed S (w_blobs w) (f qs) then Inl (the (snd (fst (run_state (collect S (f qs) [] None) ?w1))))
         else Inr (result_of (length qs) (simulate (sv_policy S) candidate (?out f))))" for f
      using collect_ok [OF nf, of S "f qs" "[]" None] ask Inr
      by (auto simp: simulate_runs_def clock_def db_call_def fetch_events_def split: list.splits option.splits)
    have "?out a = [] \<longleftrightarrow> ?out b = []" using events_in_mset [OF mab, of S "w_blobs w"] by (metis mset_zero_iff)
    moreover have "some_failed S (w_blobs w) (a qs) = some_failed S (w_blobs w) (b qs)" by (rule some_failed_mset [OF mab])
    moreover note simulate_counts_mset [OF events_in_mset [OF mab]]
    ultimately show ?thesis by (simp add: run)
  qed
qed

section \<open>Examples\<close>

definition sim_libs :: policy_libs where
  "sim_libs = demo_libs\<lparr>yaml_policy := (\<lambda>_. Inr (demo_policy ''enforce''))\<rparr>"

definition demo_sim :: sim_request where
  "demo_sim = \<lparr>sq_org = ''a'', sq_agent = ''bot'', sq_yaml = ''y'', sq_window = 7\<rparr>"

lemma demo_submitted: "\<exists>rn1. submit_job sim_libs ''j1'' 5 demo_sim new_runner = (Inr (''j1'', demo_policy ''enforce''), rn1)"
proof -
  have "validate sim_libs (demo_policy ''enforce'') False = []"
    by (simp add: sim_libs_def validate_empty well_formed_def demo_policy_def demo_rule_def rule_ok_def)
  then show ?thesis
    by (simp add: submit_job_def check_request_def demo_sim_def policy_parse_def) (simp add: sim_libs_def)
qed

end
