(* ===== verification/Simulate_Workers.thy ===== *)
theory Simulate_Workers
  imports Simulate_Runner
begin

text \<open>
  The goroutines of \<open>internal/simulate/runner.go\<close>: the worker pool of \<open>fetchEvents\<close> with its semaphore, its
  results channel and the goroutine that closes it, and the jobs that run beside each other while
  requests submit more. The orders of completion that \<open>Simulate_Runner\<close> takes as a parameter are the
  ones this pool produces.
\<close>

section \<open>The pool of one job\<close>

text \<open>
  One goroutine per run: it waits for a slot of the semaphore, downloads and decodes, sends its result,
  and on return gives the slot back and then counts itself done.
\<close>

datatype phase = Queued | Fetching | Reported | Released | Exited

primrec holds_slot :: "phase \<Rightarrow> bool" where
  "holds_slot Queued = False"
| "holds_slot Fetching = True"
| "holds_slot Reported = True"
| "holds_slot Released = False"
| "holds_slot Exited = False"

text \<open>The channel and what the receiving loop has taken off it are indices of runs.\<close>

record pool =
  po_workers :: "phase list"
  po_channel :: "nat list"
  po_closed :: bool
  po_received :: "nat list"
  po_returned :: bool

definition new_pool :: "nat \<Rightarrow> pool" where
  "new_pool n = \<lparr>po_workers = replicate n Queued, po_channel = [], po_closed = False, po_received = [], po_returned = False\<rparr>"

definition slots_taken :: "pool \<Rightarrow> nat" where
  "slots_taken f = count_where holds_slot (po_workers f)"

definition in_phase :: "pool \<Rightarrow> nat \<Rightarrow> phase \<Rightarrow> bool" where
  "in_phase f i ph \<longleftrightarrow> i < length (po_workers f) \<and> po_workers f ! i = ph"

definition enter :: "nat \<Rightarrow> phase \<Rightarrow> pool \<Rightarrow> pool" where
  "enter i ph f = f\<lparr>po_workers := (po_workers f)[i := ph]\<rparr>"

text \<open>
  A send needs room in the channel, made for one result per run; closing waits for every goroutine;
  the receiving loop ends when the channel is closed and empty.
\<close>

inductive pool_step :: "nat \<Rightarrow> pool \<Rightarrow> pool \<Rightarrow> bool" for slots where
  acquires: "in_phase f i Queued \<Longrightarrow> slots_taken f < slots \<Longrightarrow> pool_step slots f (enter i Fetching f)"
| sends: "in_phase f i Fetching \<Longrightarrow> length (po_channel f) < length (po_workers f) \<Longrightarrow>
    pool_step slots f ((enter i Reported f)\<lparr>po_channel := po_channel f @ [i]\<rparr>)"
| releases: "in_phase f i Reported \<Longrightarrow> pool_step slots f (enter i Released f)"
| counts_done: "in_phase f i Released \<Longrightarrow> pool_step slots f (enter i Exited f)"
| closes: "list_all (\<lambda>ph. ph = Exited) (po_workers f) \<Longrightarrow> \<not> po_closed f \<Longrightarrow> pool_step slots f (f\<lparr>po_closed := True\<rparr>)"
| receives: "po_channel f = i # rest \<Longrightarrow> \<not> po_returned f \<Longrightarrow>
    pool_step slots f (f\<lparr>po_channel := rest, po_received := po_received f @ [i]\<rparr>)"
| returns: "po_channel f = [] \<Longrightarrow> po_closed f \<Longrightarrow> \<not> po_returned f \<Longrightarrow> pool_step slots f (f\<lparr>po_returned := True\<rparr>)"

text \<open>A worker that has sent is in one of these.\<close>

primrec has_sent :: "phase \<Rightarrow> bool" where
  "has_sent Queued = False"
| "has_sent Fetching = False"
| "has_sent Reported = True"
| "has_sent Released = True"
| "has_sent Exited = True"

definition pool_ok :: "nat \<Rightarrow> nat \<Rightarrow> pool \<Rightarrow> bool" where
  "pool_ok slots n f \<longleftrightarrow> length (po_workers f) = n \<and> slots_taken f \<le> slots \<and>
     distinct (po_received f @ po_channel f) \<and>
     set (po_received f @ po_channel f) = {i. i < n \<and> has_sent (po_workers f ! i)} \<and>
     (po_closed f \<longrightarrow> list_all (\<lambda>ph. ph = Exited) (po_workers f)) \<and>
     (po_returned f \<longrightarrow> po_closed f \<and> po_channel f = [])"

lemma count_where_update:
  assumes "i < length xs"
  shows "count_where P (xs[i := x]) + (if P (xs ! i) then 1 else 0) = count_where P xs + (if P x then 1 else 0)"
  using assms
proof (induction xs arbitrary: i)
  case (Cons y ys)
  then show ?case by (cases i) (auto simp: count_where_def)
qed simp

lemma enter_slots:
  assumes "in_phase f i ph"
  shows "slots_taken (enter i ph' f) + (if holds_slot ph then 1 else 0) = slots_taken f + (if holds_slot ph' then 1 else 0)"
  using count_where_update [of i "po_workers f" holds_slot ph'] assms by (simp add: slots_taken_def enter_def in_phase_def)

lemma pool_simps [simp]:
  "po_workers (enter i ph f) = (po_workers f)[i := ph]" "po_channel (enter i ph f) = po_channel f"
  "po_closed (enter i ph f) = po_closed f" "po_received (enter i ph f) = po_received f"
  "po_returned (enter i ph f) = po_returned f"
  "slots_taken (f\<lparr>po_channel := c\<rparr>) = slots_taken f" "slots_taken (f\<lparr>po_closed := b\<rparr>) = slots_taken f"
  "slots_taken (f\<lparr>po_returned := b\<rparr>) = slots_taken f" "slots_taken (f\<lparr>po_received := r\<rparr>) = slots_taken f"
  by (simp_all add: enter_def slots_taken_def)

lemma not_all_exited: "in_phase f i ph \<Longrightarrow> ph \<noteq> Exited \<Longrightarrow> \<not> list_all (\<lambda>ph. ph = Exited) (po_workers f)"
  by (auto simp: in_phase_def list_all_length)

lemma pool_step_ok:
  assumes "pool_step slots f g" "pool_ok slots n f"
  shows "pool_ok slots n g"
  using assms
proof cases
  case (acquires i)
  then show ?thesis
    using assms(2) enter_slots [OF acquires(2), of Fetching] not_all_exited [OF acquires(2)]
    by (auto simp: pool_ok_def in_phase_def nth_list_update)
next
  case (sends i)
  then have "i \<notin> set (po_received f @ po_channel f)" using assms(2) by (auto simp: pool_ok_def in_phase_def)
  then show ?thesis
    using sends assms(2) enter_slots [OF sends(2), of Reported] not_all_exited [OF sends(2)]
    by (auto simp: pool_ok_def in_phase_def nth_list_update)
next
  case (releases i)
  then show ?thesis
    using assms(2) enter_slots [OF releases(2), of Released] not_all_exited [OF releases(2)]
    by (auto simp: pool_ok_def in_phase_def nth_list_update)
next
  case (counts_done i)
  then show ?thesis
    using assms(2) enter_slots [OF counts_done(2), of Exited] not_all_exited [OF counts_done(2)]
    by (auto simp: pool_ok_def in_phase_def nth_list_update)
qed (auto simp: pool_ok_def)

lemma new_pool_ok: "pool_ok slots n (new_pool n)"
  by (auto simp: pool_ok_def new_pool_def slots_taken_def count_where_def)

text \<open>Every step is one unit of the work left: five per run, and the end of the channel and of the loop.\<close>

primrec work_left :: "phase \<Rightarrow> nat" where
  "work_left Queued = 5"
| "work_left Fetching = 4"
| "work_left Reported = 2"
| "work_left Released = 1"
| "work_left Exited = 0"

definition pool_left :: "pool \<Rightarrow> nat" where
  "pool_left f = sum_list (map work_left (po_workers f)) + length (po_channel f) +
     (if po_closed f then 0 else 1) + (if po_returned f then 0 else 1)"

lemma enter_left:
  assumes "in_phase f i ph"
  shows "sum_list (map work_left ((po_workers f)[i := ph'])) + work_left ph = sum_list (map work_left (po_workers f)) + work_left ph'"
proof -
  have "sum_list (map work_left (xs[i := x])) + work_left (xs ! i) = sum_list (map work_left xs) + work_left x"
    if "i < length xs" for xs x
    using that by (induction xs arbitrary: i) (auto split: nat.splits)
  with assms show ?thesis by (auto simp: in_phase_def)
qed

lemma pool_step_left: "pool_step slots f g \<Longrightarrow> Suc (pool_left g) = pool_left f"
proof (induction rule: pool_step.induct)
  case (acquires f i)
  then show ?case using enter_left [OF acquires(1), of Fetching] by (simp add: pool_left_def)
next
  case (sends f i)
  then show ?case using enter_left [OF sends(1), of Reported] by (simp add: pool_left_def)
next
  case (releases f i)
  then show ?case using enter_left [OF releases(1), of Released] by (simp add: pool_left_def)
next
  case (counts_done f i)
  then show ?case using enter_left [OF counts_done(1), of Exited] by (simp add: pool_left_def)
qed (auto simp: pool_left_def)

lemma pool_steps:
  "(pool_step slots ^^ k) (new_pool n) f \<Longrightarrow> pool_ok slots n f \<and> pool_left f + k = 5 * n + 2"
proof (induction k arbitrary: f)
  case 0
  have "pool_left (new_pool n) = 5 * n + 2" by (simp add: pool_left_def new_pool_def sum_list_replicate)
  with 0 show ?case using new_pool_ok [of slots n] by auto
next
  case (Suc k)
  then obtain e where e: "(pool_step slots ^^ k) (new_pool n) e" "pool_step slots e f" by auto
  with Suc.IH [OF e(1)] pool_step_ok [OF e(2)] pool_step_left [OF e(2)] show ?case by simp
qed

lemma pool_returned_iff:
  assumes "pool_ok slots n f"
  shows "po_returned f \<longleftrightarrow> pool_left f = 0"
proof
  assume "po_returned f"
  with assms have "list_all (\<lambda>ph. ph = Exited) (po_workers f)" "po_closed f" "po_channel f = []" by (auto simp: pool_ok_def)
  moreover then have "map work_left (po_workers f) = map (\<lambda>_. 0) (po_workers f)" by (auto simp: list_all_iff)
  ultimately show "pool_left f = 0" using \<open>po_returned f\<close> by (simp add: pool_left_def)
qed (simp add: pool_left_def split: if_splits)

lemma pool_progress:
  assumes "pool_ok slots n f" "0 < slots" "\<not> po_returned f"
  shows "\<exists>g. pool_step slots f g"
proof (cases "po_channel f")
  case (Cons i rest)
  then show ?thesis using receives assms(3) by blast
next
  case Nil
  show ?thesis
  proof (cases "list_all (\<lambda>ph. ph = Exited) (po_workers f)")
    case True
    then show ?thesis using closes returns Nil assms(3) by (cases "po_closed f") blast+
  next
    case False
    then obtain i where i: "i < length (po_workers f)" "po_workers f ! i \<noteq> Exited" by (auto simp: list_all_length)
    have room: "length (po_channel f) < length (po_workers f)" using Nil i(1) by (cases "po_workers f") auto
    show ?thesis
    proof (cases "\<exists>j. in_phase f j Fetching \<or> in_phase f j Reported \<or> in_phase f j Released")
      case True
      then show ?thesis using sends [OF _ room] releases counts_done by blast
    next
      case False
      then have idle: "\<not> holds_slot (po_workers f ! j)" if "j < length (po_workers f)" for j
        using that by (cases "po_workers f ! j") (auto simp: in_phase_def)
      have "in_phase f i Queued" using False i by (cases "po_workers f ! i") (auto simp: in_phase_def)
      moreover have "slots_taken f = 0"
        using idle by (auto simp: slots_taken_def count_where_def filter_empty_conv in_set_conv_nth)
      ultimately show ?thesis using acquires assms(2) by metis
    qed
  qed
qed

text \<open>
  C29. The worker pool is live and bounded: at every moment of every execution at most the configured
  number of downloads is in flight and the results fit their channel, and the execution has either taken
  its \<open>5 n + 2\<close> steps and returned, having received the result of every run exactly once, or it has taken
  fewer and can go on. So no goroutine is stuck, and none is left behind.
\<close>

theorem pool_completes:
  assumes "(pool_step slots ^^ k) (new_pool n) f" and "0 < slots"
  shows "slots_taken f \<le> slots \<and> length (po_channel f) \<le> n \<and>
    (if k = 5 * n + 2 then po_returned f \<and> mset (po_received f) = mset [0..<n]
     else k < 5 * n + 2 \<and> (\<exists>g. pool_step slots f g))"
proof -
  from pool_steps [OF assms(1)] have ok: "pool_ok slots n f" and left: "pool_left f + k = 5 * n + 2" by auto
  have d: "distinct (po_received f @ po_channel f)" and
    s: "set (po_received f @ po_channel f) = {i. i < n \<and> has_sent (po_workers f ! i)}"
    using ok by (auto simp: pool_ok_def)
  have "card (set (po_channel f)) \<le> card {..<n}" using s by (intro card_mono) auto
  then have channel: "length (po_channel f) \<le> n" using d by (simp add: distinct_card)
  have all: "mset (po_received f) = mset [0..<n]" if "po_returned f"
  proof -
    from that ok have e: "\<And>i. i < n \<Longrightarrow> po_workers f ! i = Exited" "po_channel f = []"
      by (auto simp: pool_ok_def list_all_length)
    with s have "set (po_received f) = {0..<n}" by auto
    moreover have "distinct (po_received f)" using d by simp
    ultimately show ?thesis by (metis distinct_upt set_eq_iff_mset_eq_distinct set_upt)
  qed
  show ?thesis
    using ok left channel all pool_returned_iff [OF ok] pool_progress [OF ok assms(2)]
    by (auto simp: pool_ok_def)
qed

section \<open>The orders of completion\<close>

definition completion_order :: "nat \<Rightarrow> nat \<Rightarrow> nat list \<Rightarrow> bool" where
  "completion_order slots n js \<longleftrightarrow>
     (\<exists>k f. (pool_step slots ^^ k) (new_pool n) f \<and> po_returned f \<and> po_received f = js)"

text \<open>The workers in \<open>js\<close> have run one after the other.\<close>

definition ran :: "nat \<Rightarrow> nat list \<Rightarrow> pool" where
  "ran n js = \<lparr>po_workers = map (\<lambda>i. if i \<in> set js then Exited else Queued) [0..<n], po_channel = [], po_closed = False,
     po_received = js, po_returned = False\<rparr>"

lemma ran_worker:
  assumes "i < n" "i \<notin> set js" "0 < slots"
  shows "(pool_step slots)\<^sup>*\<^sup>* (ran n js) (ran n (js @ [i]))"
proof -
  let ?f0 = "ran n js"
  let ?f1 = "enter i Fetching ?f0" let ?f2 = "(enter i Reported ?f1)\<lparr>po_channel := po_channel ?f1 @ [i]\<rparr>"
  let ?f3 = "?f2\<lparr>po_channel := [], po_received := po_received ?f2 @ [i]\<rparr>"
  let ?f4 = "enter i Released ?f3" let ?f5 = "enter i Exited ?f4"
  have len: "length (po_workers ?f0) = n" by (simp add: ran_def)
  have "slots_taken ?f0 = 0" by (auto simp: ran_def slots_taken_def count_where_def filter_empty_conv)
  then have "pool_step slots ?f0 ?f1" using assms by (intro acquires) (simp_all add: in_phase_def ran_def)
  moreover have "pool_step slots ?f1 ?f2"
    using assms len by (intro sends) (simp_all add: in_phase_def, simp add: ran_def)
  moreover have "pool_step slots ?f2 ?f3" by (rule receives) (simp_all add: ran_def)
  moreover have "pool_step slots ?f3 ?f4" using assms len by (intro releases) (simp add: in_phase_def)
  moreover have "pool_step slots ?f4 ?f5" using assms len by (intro counts_done) (simp add: in_phase_def)
  moreover have "?f5 = ran n (js @ [i])"
    using assms by (auto simp: ran_def enter_def intro!: nth_equalityI simp: nth_list_update)
  ultimately show ?thesis by (metis (no_types, lifting) converse_rtranclp_into_rtranclp rtranclp.rtrancl_refl)
qed

lemma ran_workers:
  assumes "distinct js" "set js \<subseteq> {..<n}" "0 < slots"
  shows "(pool_step slots)\<^sup>*\<^sup>* (new_pool n) (ran n js)"
  using assms
proof (induction js rule: rev_induct)
  case Nil
  have "ran n [] = new_pool n" by (simp add: ran_def new_pool_def map_replicate_const)
  then show ?case by simp
next
  case (snoc i js)
  then show ?case using ran_worker [of i n js slots] by (auto intro: rtranclp_trans)
qed

text \<open>The pool produces every permutation of the runs, and nothing else.\<close>

lemma completion_order_iff:
  assumes "0 < slots"
  shows "completion_order slots n js \<longleftrightarrow> mset js = mset [0..<n]"
proof
  assume "completion_order slots n js"
  then obtain k f where f: "(pool_step slots ^^ k) (new_pool n) f" "po_returned f" "po_received f = js"
    by (auto simp: completion_order_def)
  from pool_steps [OF f(1)] have ok: "pool_ok slots n f" by simp
  with f(2,3) have d: "distinct js" and e: "\<And>i. i < n \<Longrightarrow> po_workers f ! i = Exited"
    and s: "set js = {i. i < n \<and> has_sent (po_workers f ! i)}"
    by (auto simp: pool_ok_def list_all_length)
  from e s have "set js = set [0..<n]" by auto
  with d show "mset js = mset [0..<n]" by (metis distinct_upt set_eq_iff_mset_eq_distinct)
next
  assume m: "mset js = mset [0..<n]"
  then have s: "set js = {0..<n}" "distinct js" by (metis set_mset_mset set_upt, metis distinct_upt mset_eq_imp_distinct_iff)
  let ?f = "ran n js" let ?g = "?f\<lparr>po_closed := True\<rparr>" let ?h = "?g\<lparr>po_returned := True\<rparr>"
  have "(pool_step slots)\<^sup>*\<^sup>* (new_pool n) ?f" using s assms by (intro ran_workers) auto
  moreover have "pool_step slots ?f ?g" using s by (intro closes) (auto simp: ran_def list_all_iff)
  moreover have "pool_step slots ?g ?h" by (rule returns) (simp_all add: ran_def)
  ultimately have "(pool_step slots)\<^sup>*\<^sup>* (new_pool n) ?h" by simp
  then obtain k where "(pool_step slots ^^ k) (new_pool n) ?h" by (metis rtranclp_imp_relpowp)
  then show "completion_order slots n js" unfolding completion_order_def
    by (intro exI [of _ k] exI [of _ ?h]) (simp add: ran_def)
qed

text \<open>
  C31. The race between the downloads does not show in the numbers: while the bucket answers, two runs
  of a job over the same store, each receiving its results in any order the worker pool can produce,
  either both fail or both end with the same counts.
\<close>

theorem simulate_order_free:
  assumes "w_s3_faults w = []" and "0 < rn_fanout rn"
    and "\<And>qs. \<exists>js. completion_order (rn_fanout rn) (length qs) js \<and> a qs = map (nth qs) js"
    and "\<And>qs. \<exists>js. completion_order (rn_fanout rn) (length qs) js \<and> b qs = map (nth qs) js"
  shows "map_sum (\<lambda>_. ()) counts_of (fst (run_state (simulate_runs S a rn candidate q) w)) =
    map_sum (\<lambda>_. ()) counts_of (fst (run_state (simulate_runs S b rn candidate q) w))"
proof -
  have perm: "mset (c qs) = mset qs"
    if "\<And>qs. \<exists>js. completion_order (rn_fanout rn) (length qs) js \<and> c qs = map (nth qs) js" for c :: "run list \<Rightarrow> run list" and qs
  proof -
    from that obtain js where js: "mset js = mset [0..<length qs]" "c qs = map (nth qs) js"
      using completion_order_iff [OF assms(2)] by blast
    then have "mset (c qs) = mset (map (nth qs) [0..<length qs])" by (metis mset_map)
    then show ?thesis by (simp add: map_nth)
  qed
  show ?thesis by (rule simulate_runs_mset [OF assms(1) perm [OF assms(3)] perm [OF assms(4)]])
qed

section \<open>The jobs of one runner\<close>

text \<open>A job's goroutine before \<open>setStatus\<close>, and between it and \<open>finishDone\<close> or \<open>finishError\<close>.\<close>

datatype goroutine = Starting string policy sim_request | Working string policy sim_request

primrec job_of :: "goroutine \<Rightarrow> string" where
  "job_of (Starting i c q) = i"
| "job_of (Working i c q) = i"

record jobs_site =
  js_runner :: runner
  js_live :: "goroutine list"

text \<open>
  Requests submit jobs under new ids (ULIDs) while the goroutines of others start and end; of what happens
  between a start and its end only the result matters here, and it may be any.
\<close>

inductive jobs_step :: "policy_libs \<Rightarrow> jobs_site \<Rightarrow> jobs_site \<Rightarrow> bool" for L where
  submits: "rn_jobs rn i = None \<Longrightarrow> submit_job L i now q rn = (Inr (i, c), rn') \<Longrightarrow>
    jobs_step L \<lparr>js_runner = rn, js_live = gs\<rparr> \<lparr>js_runner = rn', js_live = gs @ [Starting i c q]\<rparr>"
| starts: "jobs_step L \<lparr>js_runner = rn, js_live = gs @ Starting i c q # hs\<rparr>
    \<lparr>js_runner = set_status i StatusRunning [] rn, js_live = gs @ Working i c q # hs\<rparr>"
| ends_done: "jobs_step L \<lparr>js_runner = rn, js_live = gs @ Working i c q # hs\<rparr>
    \<lparr>js_runner = finish_done i r now rn, js_live = gs @ hs\<rparr>"
| ends_error: "jobs_step L \<lparr>js_runner = rn, js_live = gs @ Working i c q # hs\<rparr>
    \<lparr>js_runner = finish_error i e now rn, js_live = gs @ hs\<rparr>"

text \<open>The handler's call and the goroutine it starts are these steps.\<close>

lemma run_job_in_steps:
  assumes "run_state (run_job S arrival i c q rn) w = (rn', w')"
  shows "(jobs_step L)\<^sup>*\<^sup>* \<lparr>js_runner = rn, js_live = gs @ Starting i c q # hs\<rparr> \<lparr>js_runner = rn', js_live = gs @ hs\<rparr>"
proof -
  let ?mid = "\<lparr>js_runner = set_status i StatusRunning [] rn, js_live = gs @ Working i c q # hs\<rparr>"
  from assms obtain res now where r: "rn' = (case res of Inl e \<Rightarrow> finish_error i e now (set_status i StatusRunning [] rn)
      | Inr r \<Rightarrow> finish_done i r now (set_status i StatusRunning [] rn))"
    by (auto simp: run_job_def Let_def clock_def split: prod.splits)
  have "jobs_step L ?mid \<lparr>js_runner = rn', js_live = gs @ hs\<rparr>"
    unfolding r by (cases res) (auto intro: ends_done ends_error)
  with starts show ?thesis by (metis converse_rtranclp_into_rtranclp r_into_rtranclp)
qed

text \<open>What a job shows at each point of its life.\<close>

definition job_fits :: "job \<Rightarrow> bool" where
  "job_fits j \<longleftrightarrow> (case jb_status j of
     StatusPending \<Rightarrow> jb_result j = None \<and> jb_finished j = None \<and> jb_error j = []
   | StatusRunning \<Rightarrow> jb_result j = None \<and> jb_finished j = None \<and> jb_error j = []
   | StatusDone \<Rightarrow> jb_result j \<noteq> None \<and> jb_finished j \<noteq> None \<and> jb_error j = []
   | StatusError \<Rightarrow> jb_result j = None \<and> jb_finished j \<noteq> None)"

definition live_as :: "goroutine list \<Rightarrow> string \<Rightarrow> job_status \<Rightarrow> bool" where
  "live_as gs i s \<longleftrightarrow> (case s of
     StatusPending \<Rightarrow> \<exists>c q. Starting i c q \<in> set gs
   | StatusRunning \<Rightarrow> \<exists>c q. Working i c q \<in> set gs
   | _ \<Rightarrow> i \<notin> job_of ` set gs)"

definition jobs_ok :: "jobs_site \<Rightarrow> bool" where
  "jobs_ok x \<longleftrightarrow> distinct (map job_of (js_live x)) \<and> job_of ` set (js_live x) \<subseteq> dom (rn_jobs (js_runner x)) \<and>
     (\<forall>i j. rn_jobs (js_runner x) i = Some j \<longrightarrow> jb_id j = i \<and> job_fits j \<and> live_as (js_live x) i (jb_status j))"

text \<open>A job only moves forward, and not at all once it has ended.\<close>

definition job_advances :: "job \<Rightarrow> job \<Rightarrow> bool" where
  "job_advances j j' \<longleftrightarrow> jb_id j' = jb_id j \<and> jb_org j' = jb_org j \<and> jb_submitted j' = jb_submitted j \<and>
     jb_status j \<le> jb_status j' \<and> (if jb_finished j = None then True else j' = j)"

lemma job_advances_refl [simp]: "job_advances j j"
  by (simp add: job_advances_def)

lemma job_advances_trans: "job_advances a b \<Longrightarrow> job_advances b c \<Longrightarrow> job_advances a c"
  by (auto simp: job_advances_def split: if_splits)

lemma live_as_other: "job_of g \<noteq> i \<Longrightarrow> live_as (gs @ g # hs) i s = live_as (gs @ hs) i s"
  by (cases s; cases g) (auto simp: live_as_def)

lemma update_job_jobs: "rn_jobs (update_job i f rn) k = (if k = i then map_option f (rn_jobs rn i) else rn_jobs rn k)"
  by (simp add: update_job_def)

text \<open>One goroutine updates its own job and goes on as \<open>new\<close>, or not at all.\<close>

lemma job_updated:
  assumes ok: "jobs_ok \<lparr>js_runner = rn, js_live = gs @ g # hs\<rparr>"
    and new: "new = [] \<or> (\<exists>g'. new = [g'] \<and> job_of g' = job_of g)"
    and f: "\<And>j. jb_id j = job_of g \<Longrightarrow> job_fits j \<Longrightarrow> live_as [g] (job_of g) (jb_status j) \<Longrightarrow>
      job_advances j (f j) \<and> job_fits (f j) \<and> live_as new (job_of g) (jb_status (f j))"
  shows "jobs_ok \<lparr>js_runner = update_job (job_of g) f rn, js_live = gs @ new @ hs\<rparr> \<and>
    (\<forall>i j. rn_jobs rn i = Some j \<longrightarrow> (\<exists>j'. rn_jobs (update_job (job_of g) f rn) i = Some j' \<and> job_advances j j'))"
proof -
  let ?i = "job_of g"
  have d: "distinct (map job_of (gs @ g # hs))" and dom: "job_of ` set (gs @ g # hs) \<subseteq> dom (rn_jobs rn)"
    and job: "\<And>i j. rn_jobs rn i = Some j \<Longrightarrow> jb_id j = i \<and> job_fits j \<and> live_as (gs @ g # hs) i (jb_status j)"
    using ok by (auto simp: jobs_ok_def)
  have own: "live_as (gs @ us @ hs) ?i s = live_as us ?i s" if "us = [] \<or> (\<exists>g'. us = [g'] \<and> job_of g' = ?i)" for us s
  proof -
    have "?i \<notin> job_of ` set gs" "?i \<notin> job_of ` set hs" using d by auto
    then have "Starting ?i c q \<notin> set gs \<union> set hs" "Working ?i c q \<notin> set gs \<union> set hs" for c q by (auto intro: rev_image_eqI)
    with that d show ?thesis by (cases s) (auto simp: live_as_def)
  qed
  from dom obtain j0 where j0: "rn_jobs rn ?i = Some j0" by auto
  with job own [of "[g]"] have before: "jb_id j0 = ?i" "job_fits j0" "live_as [g] ?i (jb_status j0)" by auto
  note after = f [OF before]
  have other: "live_as (gs @ new @ hs) i s = live_as (gs @ g # hs) i s" if "i \<noteq> ?i" for i s
    using new that live_as_other [of g i gs hs s] live_as_other [of _ i gs hs s] by fastforce
  have "distinct (map job_of (gs @ new @ hs))" using new d by (elim disjE exE conjE) simp_all
  moreover have "job_of ` set (gs @ new @ hs) \<subseteq> dom (rn_jobs (update_job ?i f rn))"
    using new dom j0 by (auto simp: update_job_jobs)
  moreover have "jb_id j = i \<and> job_fits j \<and> live_as (gs @ new @ hs) i (jb_status j)"
    if "rn_jobs (update_job ?i f rn) i = Some j" for i j
    using that after j0 before(1) job other own [OF new] by (auto simp: update_job_jobs job_advances_def split: if_splits)
  ultimately have "jobs_ok \<lparr>js_runner = update_job ?i f rn, js_live = gs @ new @ hs\<rparr>"
    unfolding jobs_ok_def jobs_site.simps by blast
  moreover have "\<exists>j'. rn_jobs (update_job ?i f rn) i = Some j' \<and> job_advances j j'" if "rn_jobs rn i = Some j" for i j
    using that after j0 by (cases "i = ?i") (simp_all add: update_job_jobs)
  ultimately show ?thesis by blast
qed

lemma jobs_step_ok:
  assumes "jobs_step L x y" "jobs_ok x"
  shows "jobs_ok y \<and> (\<forall>i j. rn_jobs (js_runner x) i = Some j \<longrightarrow>
    (\<exists>j'. rn_jobs (js_runner y) i = Some j' \<and> job_advances j j'))"
  using assms
proof cases
  case (submits rn i now q c rn' gs)
  let ?j = "\<lparr>jb_id = i, jb_org = sq_org q, jb_status = StatusPending, jb_error = [], jb_result = None,
    jb_submitted = now, jb_finished = None\<rparr>"
  have rn': "rn_jobs rn' = (rn_jobs rn)(i \<mapsto> ?j)" using submits(4) by (auto simp: submit_job_def split: sum.splits)
  have new: "i \<notin> job_of ` set gs" using submits(1,3) assms(2) by (auto simp: jobs_ok_def)
  have "live_as (gs @ [Starting i c q]) k s = live_as gs k s" if "k \<noteq> i" for k s
    using live_as_other [of "Starting i c q" k gs "[]" s] that by simp
  moreover have "live_as (gs @ [Starting i c q]) i StatusPending" by (auto simp: live_as_def)
  moreover have "job_fits ?j" by (simp add: job_fits_def)
  ultimately show ?thesis
    using assms(2) submits(1,2,3) rn' new by (auto simp: jobs_ok_def split: if_splits)
next
  case (starts rn gs i c q hs)
  have "jobs_ok \<lparr>js_runner = set_status i StatusRunning [] rn, js_live = gs @ [Working i c q] @ hs\<rparr> \<and>
    (\<forall>k j. rn_jobs rn k = Some j \<longrightarrow> (\<exists>j'. rn_jobs (set_status i StatusRunning [] rn) k = Some j' \<and> job_advances j j'))"
    unfolding set_status_def
    by (rule job_updated [of rn gs "Starting i c q" hs "[Working i c q]", unfolded job_of.simps])
      (use assms(2) starts(1) in \<open>auto simp: job_fits_def live_as_def job_advances_def less_eq_job_status_def split: job_status.splits\<close>)
  then show ?thesis using starts by simp
next
  case (ends_done rn gs i c q hs r now)
  have "jobs_ok \<lparr>js_runner = finish_done i r now rn, js_live = gs @ [] @ hs\<rparr> \<and>
    (\<forall>k j. rn_jobs rn k = Some j \<longrightarrow> (\<exists>j'. rn_jobs (finish_done i r now rn) k = Some j' \<and> job_advances j j'))"
    unfolding finish_done_def
    by (rule job_updated [of rn gs "Working i c q" hs "[]", unfolded job_of.simps])
      (use assms(2) ends_done(1) in \<open>auto simp: job_fits_def live_as_def job_advances_def less_eq_job_status_def split: job_status.splits\<close>)
  then show ?thesis using ends_done by simp
next
  case (ends_error rn gs i c q hs e now)
  have "jobs_ok \<lparr>js_runner = finish_error i e now rn, js_live = gs @ [] @ hs\<rparr> \<and>
    (\<forall>k j. rn_jobs rn k = Some j \<longrightarrow> (\<exists>j'. rn_jobs (finish_error i e now rn) k = Some j' \<and> job_advances j j'))"
    unfolding finish_error_def
    by (rule job_updated [of rn gs "Working i c q" hs "[]", unfolded job_of.simps])
      (use assms(2) ends_error(1) in \<open>auto simp: job_fits_def live_as_def job_advances_def less_eq_job_status_def split: job_status.splits\<close>)
  then show ?thesis using ends_error by simp
qed

definition fresh_site :: jobs_site where
  "fresh_site = \<lparr>js_runner = new_runner, js_live = []\<rparr>"

lemma jobs_steps_ok: "(jobs_step L)\<^sup>*\<^sup>* fresh_site x \<Longrightarrow> jobs_ok x"
proof (induction rule: rtranclp_induct)
  case base
  show ?case by (simp add: jobs_ok_def fresh_site_def new_runner_def)
qed (use jobs_step_ok in blast)

lemma jobs_steps_advance:
  "(jobs_step L)\<^sup>*\<^sup>* x y \<Longrightarrow> jobs_ok x \<Longrightarrow> jobs_ok y \<and>
     (\<forall>i j. rn_jobs (js_runner x) i = Some j \<longrightarrow> (\<exists>j'. rn_jobs (js_runner y) i = Some j' \<and> job_advances j j'))"
proof (induction rule: rtranclp_induct)
  case (step y z)
  then show ?case using jobs_step_ok [OF step(2)] job_advances_trans by metis
qed auto

lemma get_job_Inr: "get_job org i rn = Inr j \<longleftrightarrow> rn_jobs rn i = Some j \<and> jb_org j = org"
  by (auto simp: get_job_def split: option.splits)

lemma job_fits_finished: "job_fits j \<Longrightarrow> jb_finished j = None \<longleftrightarrow> jb_status j \<in> {StatusPending, StatusRunning}"
  by (auto simp: job_fits_def split: job_status.splits)

lemma live_as_finished: "job_fits j \<Longrightarrow> live_as gs i (jb_status j) \<Longrightarrow> jb_finished j = None \<Longrightarrow> \<exists>g \<in> set gs. job_of g = i"
  by (auto simp: job_fits_finished live_as_def) force+

text \<open>A live goroutine can end by its own steps.\<close>

lemma goroutine_ends:
  assumes "g \<in> set (js_live y)" "job_of g = i"
  shows "\<exists>z. (jobs_step L)\<^sup>*\<^sup>* y z \<and> (\<forall>j. rn_jobs (js_runner z) i = Some j \<longrightarrow> jb_finished j \<noteq> None)"
proof -
  from assms(1) obtain gs hs where y: "y = \<lparr>js_runner = js_runner y, js_live = gs @ g # hs\<rparr>"
    by (metis jobs_site.surjective old.unit.exhaust split_list)
  have fin: "rn_jobs (finish_done i empty_result 0 rn) i = Some j \<Longrightarrow> jb_finished j \<noteq> None" for rn j
    by (auto simp: finish_done_def update_job_jobs)
  have work: "jobs_step L \<lparr>js_runner = rn, js_live = gs @ Working i c q # hs\<rparr>
      \<lparr>js_runner = finish_done i empty_result 0 rn, js_live = gs @ hs\<rparr>" for rn c q by (rule ends_done)
  show ?thesis
  proof (cases g)
    case (Starting k c q)
    with assms(2) starts [of L "js_runner y" gs i c q hs] y
    have "jobs_step L y \<lparr>js_runner = set_status i StatusRunning [] (js_runner y), js_live = gs @ Working i c q # hs\<rparr>" by simp
    with work show ?thesis using fin
      by (intro exI [of _ "\<lparr>js_runner = finish_done i empty_result 0 (set_status i StatusRunning [] (js_runner y)), js_live = gs @ hs\<rparr>"])
        (simp, metis converse_rtranclp_into_rtranclp r_into_rtranclp)
  next
    case (Working k c q)
    with assms(2) work [of "js_runner y" c q] y
    have "jobs_step L y \<lparr>js_runner = finish_done i empty_result 0 (js_runner y), js_live = gs @ hs\<rparr>" by simp
    then show ?thesis using fin
      by (intro exI [of _ "\<lparr>js_runner = finish_done i empty_result 0 (js_runner y), js_live = gs @ hs\<rparr>"]) auto
  qed
qed

text \<open>
  C30. The life of a simulation, however many run beside it: once submitted, a job stays readable by its
  organization and by no other, its status only moves forward (pending, running, then done or error), it
  shows a result exactly when it is done and an end time exactly when it has ended, an ended job never
  changes again, and one that has not ended has a goroutine that can still end it.
\<close>

theorem simulate_job_ends:
  assumes "(jobs_step L)\<^sup>*\<^sup>* fresh_site x" and "(jobs_step L)\<^sup>*\<^sup>* x y" and "get_job org i (js_runner x) = Inr j"
  shows "(\<exists>j'. get_job org i (js_runner y) = Inr j' \<and> jb_status j \<le> jb_status j' \<and>
      (jb_result j' \<noteq> None \<longleftrightarrow> jb_status j' = StatusDone) \<and>
      (jb_finished j' \<noteq> None \<longleftrightarrow> jb_status j' \<in> {StatusDone, StatusError}) \<and>
      (jb_finished j \<noteq> None \<longrightarrow> j' = j) \<and>
      (jb_finished j' = None \<longrightarrow> (\<exists>z j''. (jobs_step L)\<^sup>*\<^sup>* y z \<and> get_job org i (js_runner z) = Inr j'' \<and> jb_finished j'' \<noteq> None))) \<and>
    (\<forall>other. other \<noteq> org \<longrightarrow> get_job other i (js_runner y) = Inl err_job_not_found)"
proof -
  from assms(3) have j: "rn_jobs (js_runner x) i = Some j" "jb_org j = org" by (simp_all add: get_job_Inr)
  from jobs_steps_advance [OF assms(2) jobs_steps_ok [OF assms(1)]] j(1) obtain j'
    where ok: "jobs_ok y" and j': "rn_jobs (js_runner y) i = Some j'" and adv: "job_advances j j'" by blast
  from ok j' have fits: "job_fits j'" and live: "live_as (js_live y) i (jb_status j')" by (auto simp: jobs_ok_def)
  have org: "jb_org j' = org" using adv j(2) by (simp add: job_advances_def)
  have ends: "\<exists>z j''. (jobs_step L)\<^sup>*\<^sup>* y z \<and> get_job org i (js_runner z) = Inr j'' \<and> jb_finished j'' \<noteq> None"
    if "jb_finished j' = None"
  proof -
    from live_as_finished [OF fits live that] obtain g where "g \<in> set (js_live y)" "job_of g = i" by blast
    from goroutine_ends [OF this] obtain z where z: "(jobs_step L)\<^sup>*\<^sup>* y z"
      "\<And>j. rn_jobs (js_runner z) i = Some j \<Longrightarrow> jb_finished j \<noteq> None" by blast
    from jobs_steps_advance [OF z(1) ok] j' obtain j'' where "rn_jobs (js_runner z) i = Some j''" "job_advances j' j''" by blast
    with z org show ?thesis by (intro exI [of _ z] exI [of _ j'']) (auto simp: get_job_Inr job_advances_def)
  qed
  have "(jb_result j' \<noteq> None \<longleftrightarrow> jb_status j' = StatusDone) \<and> (jb_finished j' \<noteq> None \<longleftrightarrow> jb_status j' \<in> {StatusDone, StatusError})"
    using fits by (auto simp: job_fits_def split: job_status.splits)
  moreover have "jb_status j \<le> jb_status j' \<and> (jb_finished j \<noteq> None \<longrightarrow> j' = j)"
    using adv by (auto simp: job_advances_def split: if_splits)
  moreover have "get_job other i (js_runner y) = Inl err_job_not_found" if "other \<noteq> org" for other
    using that j' org by (simp add: get_job_def)
  ultimately show ?thesis using ends j' org by (auto simp: get_job_Inr)
qed

section \<open>Examples\<close>

lemma pool_completes_witness:
  "(pool_step 4 ^^ 1) (new_pool 2) (enter 0 Fetching (new_pool 2)) \<and> slots_taken (enter 0 Fetching (new_pool 2)) \<le> 4"
proof -
  have "pool_step 4 (new_pool 2) (enter 0 Fetching (new_pool 2))"
    by (rule acquires) (simp_all add: in_phase_def new_pool_def slots_taken_def count_where_def)
  then have s: "(pool_step 4 ^^ 1) (new_pool 2) (enter 0 Fetching (new_pool 2))" by auto
  with pool_completes [OF s] show ?thesis by simp
qed

lemma simulate_order_free_witness:
  "map_sum (\<lambda>_. ()) counts_of (fst (run_state (simulate_runs demo_server id new_runner (demo_policy ''enforce'') demo_sim) demo_world)) =
   map_sum (\<lambda>_. ()) counts_of (fst (run_state (simulate_runs demo_server rev new_runner (demo_policy ''enforce'') demo_sim) demo_world))"
proof (rule simulate_order_free)
  show slots: "0 < rn_fanout new_runner" by (simp add: new_runner_def)
  show "\<exists>js. completion_order (rn_fanout new_runner) (length qs) js \<and> id qs = map (nth qs) js" for qs :: "run list"
    by (rule exI [of _ "[0..<length qs]"]) (simp add: completion_order_iff [OF slots] map_nth)
  show "\<exists>js. completion_order (rn_fanout new_runner) (length qs) js \<and> rev qs = map (nth qs) js" for qs :: "run list"
    by (rule exI [of _ "rev [0..<length qs]"]) (simp add: completion_order_iff [OF slots] rev_map [symmetric] map_nth)
qed (simp add: demo_world_def)

lemma simulate_job_ends_witness:
  "\<exists>x y j. (jobs_step sim_libs)\<^sup>*\<^sup>* fresh_site x \<and> (jobs_step sim_libs)\<^sup>*\<^sup>* x y \<and>
     get_job ''a'' ''j1'' (js_runner x) = Inr j \<and> jb_status j = StatusPending \<and> js_live y = [] \<and>
     get_job ''b'' ''j1'' (js_runner y) = Inl err_job_not_found"
proof -
  obtain rn1 where s: "submit_job sim_libs ''j1'' 5 demo_sim new_runner = (Inr (''j1'', demo_policy ''enforce''), rn1)"
    using demo_submitted by blast
  let ?g = "Starting ''j1'' (demo_policy ''enforce'') demo_sim"
  have x: "(jobs_step sim_libs)\<^sup>*\<^sup>* fresh_site \<lparr>js_runner = rn1, js_live = [?g]\<rparr>"
    using submits [OF _ s, of "[]"] by (auto simp: fresh_site_def new_runner_def)
  obtain rn2 w' where r: "run_state (run_job demo_server id ''j1'' (demo_policy ''enforce'') demo_sim rn1) demo_world = (rn2, w')"
    by fastforce
  have y: "(jobs_step sim_libs)\<^sup>*\<^sup>* \<lparr>js_runner = rn1, js_live = [?g]\<rparr> \<lparr>js_runner = rn2, js_live = []\<rparr>"
    using run_job_in_steps [OF r, of sim_libs "[]" "[]"] by simp
  from s have j: "get_job ''a'' ''j1'' rn1 = Inr \<lparr>jb_id = ''j1'', jb_org = ''a'', jb_status = StatusPending, jb_error = [],
      jb_result = None, jb_submitted = 5, jb_finished = None\<rparr>"
    by (auto simp: submit_job_def get_job_def demo_sim_def split: sum.splits)
  from simulate_job_ends [OF x y, unfolded jobs_site.simps, OF j]
  have "get_job ''b'' ''j1'' rn2 = Inl err_job_not_found" by auto
  with x y j show ?thesis
    by (intro exI [of _ "\<lparr>js_runner = rn1, js_live = [?g]\<rparr>"] exI [of _ "\<lparr>js_runner = rn2, js_live = []\<rparr>"]) simp
qed

end
