(* ===== verification/Retention.thy ===== *)
theory Retention
  imports Server
begin

text \<open>
  \<open>internal/retention/worker.go\<close>: the sweeper that reaps expired runs and deletes their objects, its
  loop and its counters; what repeated sweeps reach, and what a sweep may delete.
\<close>

section \<open>The worker\<close>

definition default_interval :: int where
  "default_interval = 3600 * 1000000000"

definition default_batch_size :: int where
  "default_batch_size = 200"

record retention_config =
  rc_interval :: int
  rc_batch_size :: int

record retention_worker =
  rw_cfg :: retention_config
  rw_sweeps :: int
  rw_rows :: int
  rw_db_failures :: int
  rw_s3_failures :: int
  rw_last_run :: int

definition new_retention_worker :: "retention_config \<Rightarrow> retention_worker" where
  "new_retention_worker cfg =
     \<lparr>rw_cfg = \<lparr>rc_interval = (if rc_interval cfg \<le> 0 then default_interval else rc_interval cfg),
                rc_batch_size = (if rc_batch_size cfg \<le> 0 then default_batch_size else rc_batch_size cfg)\<rparr>,
      rw_sweeps = 0, rw_rows = 0, rw_db_failures = 0, rw_s3_failures = 0, rw_last_run = 0\<rparr>"

text \<open>
  The deletions of one sweep, with the number that failed. The goroutines delete objects by key, each
  failing or not on its own; since the bucket may fail at any call, running them in list order leaves
  out no outcome.
\<close>

fun delete_objects :: "expired_run list \<Rightarrow> int act" where
  "delete_objects [] = State_Monad.return 0"
| "delete_objects (r # rs) =
     (if er_storage_key r = [] then delete_objects rs
      else do {
        d \<leftarrow> s3_delete (er_storage_key r);
        n \<leftarrow> delete_objects rs;
        State_Monad.return (n + (case d of Inl e \<Rightarrow> 1 | Inr u \<Rightarrow> 0)) })"

text \<open>\<open>locked\<close>: the rows another replica's sweep holds. The deferred increment comes last on every path.\<close>

definition sweep :: "(run \<Rightarrow> bool) \<Rightarrow> retention_worker \<Rightarrow> retention_worker act" where
  "sweep locked wk = do {
     now \<leftarrow> clock;
     let wk1 = wk\<lparr>rw_last_run := unix_seconds now\<rparr>;
     cutoff \<leftarrow> clock;
     res \<leftarrow> db_call (reap_expired_runs locked cutoff (rc_batch_size (rw_cfg wk)));
     case res of
       Inl e \<Rightarrow> State_Monad.return (wk1\<lparr>rw_db_failures := rw_db_failures wk + 1, rw_sweeps := rw_sweeps wk + 1\<rparr>)
     | Inr expired \<Rightarrow>
         if expired = [] then State_Monad.return (wk1\<lparr>rw_sweeps := rw_sweeps wk + 1\<rparr>)
         else do {
           n \<leftarrow> delete_objects expired;
           State_Monad.return (wk1\<lparr>rw_s3_failures := rw_s3_failures wk + n,
             rw_rows := rw_rows wk + int (length expired), rw_sweeps := rw_sweeps wk + 1\<rparr>) } }"

text \<open>\<open>Run\<close>: one sweep at once, then one per tick until the context ends.\<close>

datatype timer_event = Ticked "run \<Rightarrow> bool" | Cancelled

fun retention_loop :: "timer_event list \<Rightarrow> retention_worker \<Rightarrow> retention_worker act" where
  "retention_loop [] wk = State_Monad.return wk"
| "retention_loop (Cancelled # es) wk = State_Monad.return wk"
| "retention_loop (Ticked locked # es) wk = do { wk' \<leftarrow> sweep locked wk; retention_loop es wk' }"

definition retention_run :: "(run \<Rightarrow> bool) \<Rightarrow> timer_event list \<Rightarrow> retention_worker \<Rightarrow> retention_worker act" where
  "retention_run locked es wk = do { wk' \<leftarrow> sweep locked wk; retention_loop es wk' }"

record retention_stats =
  rs_sweeps :: int
  rs_rows :: int
  rs_db_failures :: int
  rs_s3_failures :: int
  rs_last_run :: "int option"

definition worker_stats :: "retention_worker \<Rightarrow> retention_stats" where
  "worker_stats wk = \<lparr>rs_sweeps = rw_sweeps wk, rs_rows = rw_rows wk, rs_db_failures = rw_db_failures wk,
     rs_s3_failures = rw_s3_failures wk,
     rs_last_run = (if rw_last_run wk > 0 then Some (rw_last_run wk) else None)\<rparr>"

section \<open>What one sweep does\<close>

definition expired_before :: "int \<Rightarrow> run \<Rightarrow> bool" where
  "expired_before t r \<longleftrightarrow> r_expires_at r < micros t"

lemma micros_mono: "a \<le> b \<Longrightarrow> micros a \<le> micros b"
  by (simp add: micros_def zdiv_mono1)

lemma expired_before_mono: "expired_before s r \<Longrightarrow> s \<le> t \<Longrightarrow> expired_before t r"
  using micros_mono [of s t] by (simp add: expired_before_def)

definition reaped_ids :: "(run \<Rightarrow> bool) \<Rightarrow> int \<Rightarrow> int \<Rightarrow> run list \<Rightarrow> string set" where
  "reaped_ids locked t l rows = r_id ` set (reap_selected locked t (if l \<le> 0 then 100 else l) rows)"

lemma reap_result:
  assumes "db_faults s = []"
  shows "reap_expired_runs locked t l s =
    (Inr (map expired_run_of (filter (\<lambda>r. r_id r \<in> reaped_ids locked t l (runs s)) (runs s))),
     s\<lparr>runs := filter (\<lambda>r. r_id r \<notin> reaped_ids locked t l (runs s)) (runs s)\<rparr>)"
  using assms by (cases s) (simp add: reap_expired_runs_def stmt_def with_ctx_def Let_def reaped_ids_def)

lemma selected_expired: "r \<in> set (reap_selected locked t l rows) \<Longrightarrow> r \<in> set rows \<and> expired_before t r"
  by (auto simp: reap_selected_def expired_before_def dest: in_set_takeD)

lemma filter_take_prefix:
  "sorted_wrt (\<lambda>a b. P b \<longrightarrow> P a) xs \<Longrightarrow> filter P (take n xs) = take n (filter P xs)"
proof (induction xs arbitrary: n)
  case (Cons x xs)
  show ?case
  proof (cases "P x")
    case True
    with Cons show ?thesis by (cases n) auto
  next
    case False
    with Cons.prems have "\<forall>y \<in> set xs. \<not> P y" by auto
    then have "filter P xs = []" "filter P (take m xs) = []" for m
      by (auto simp: filter_empty_conv dest: in_set_takeD)
    with False show ?thesis by (cases n) auto
  qed
qed simp

lemma length_filter_mono: "(\<And>x. Q x \<Longrightarrow> P x) \<Longrightarrow> length (filter Q xs) \<le> length (filter P xs)"
  by (induction xs) auto

lemma expiry_order_weak: "strict_weak_on S (\<lambda>a b. r_expires_at a < r_expires_at b)"
  by (auto simp: strict_weak_on_def)

text \<open>A batch takes the rows expired longest ago, so every sweep works off the oldest backlog first.\<close>

lemma sweep_progress:
  fixes rows :: "run list"
  assumes "t0 \<le> t" "0 < l"
  defines "ids \<equiv> r_id ` set (reap_selected (\<lambda>_. False) t l rows)"
  shows "length (filter (expired_before t0) (filter (\<lambda>r. r_id r \<notin> ids) rows))
    \<le> length (filter (expired_before t0) rows) - nat l"
proof -
  define L where "L = order_by (\<lambda>a b. r_expires_at a < r_expires_at b) (filter (expired_before t) rows)"
  have L: "mset L = mset (filter (expired_before t) rows)" by (simp add: L_def)
  have "sorted_wrt (\<lambda>a b. \<not> r_expires_at b < r_expires_at a) L"
    unfolding L_def by (rule order_by_sorted [OF expiry_order_weak])
  then have srt: "sorted_wrt (\<lambda>a b. expired_before t0 b \<longrightarrow> expired_before t0 a) L"
    by (rule sorted_wrt_mono_rel [rotated]) (auto simp: expired_before_def)
  have sel: "reap_selected (\<lambda>_. False) t l rows = take (nat l) L"
    by (simp add: reap_selected_def L_def expired_before_def [abs_def])
  let ?P = "expired_before t0" and ?Q = "\<lambda>r. expired_before t0 r \<and> r_id r \<notin> ids"
  have within: "mset (filter R rows) = mset (filter R L)" if "\<And>r. R r \<Longrightarrow> expired_before t r" for R
  proof -
    have "filter R rows = filter R (filter (expired_before t) rows)" using that by (induction rows) auto
    then show ?thesis by (metis L mset_filter)
  qed
  have P: "length (filter ?P rows) = length (filter ?P L)"
    by (rule mset_eq_length [OF within]) (rule expired_before_mono [OF _ assms(1)])
  have none: "filter ?Q (take (nat l) L) = []"
    by (auto simp: filter_empty_conv ids_def sel)
  have "length (filter ?Q rows) = length (filter ?Q L)"
    by (rule mset_eq_length [OF within]) (auto intro: expired_before_mono [OF _ assms(1)])
  also have "\<dots> = length (filter ?Q (drop (nat l) L))"
  proof -
    have "filter ?Q L = filter ?Q (take (nat l) L) @ filter ?Q (drop (nat l) L)"
      by (simp flip: filter_append)
    with none show ?thesis by simp
  qed
  also have "\<dots> \<le> length (filter ?P (drop (nat l) L))"
    by (rule length_filter_mono) simp
  also have "\<dots> = length (filter ?P L) - length (filter ?P (take (nat l) L))"
  proof -
    have "filter ?P L = filter ?P (take (nat l) L) @ filter ?P (drop (nat l) L)"
      by (simp flip: filter_append)
    then show ?thesis by simp
  qed
  also have "\<dots> \<le> length (filter ?P L) - nat l"
    using filter_take_prefix [OF srt, of "nat l"] by simp
  finally show ?thesis using P by (simp add: conj_commute)
qed

section \<open>The objects of a sweep\<close>

lemma run_s3_delete:
  "run_state (s3_delete key) w =
     (let w1 = w\<lparr>w_s3_faults := tl (w_s3_faults w)\<rparr> in
      if w_s3_faults w \<noteq> [] \<and> hd (w_s3_faults w) then (Inl (ErrText ''s3: request failed''), w1)
      else (Inr (), w1\<lparr>w_blobs := (w_blobs w)(key := None)\<rparr>))"
  by (simp add: s3_delete_def s3_call_def Let_def)

text \<open>Only objects under the keys \<open>K\<close> may be gone; all of them are, when no deletion fails.\<close>

definition objects_gone :: "string set \<Rightarrow> world \<Rightarrow> world \<Rightarrow> bool" where
  "objects_gone K w w' \<longleftrightarrow> w_db w' = w_db w \<and>
     (\<forall>k. w_blobs w' k = w_blobs w k \<or> k \<in> K \<and> w_blobs w' k = None) \<and>
     (w_s3_faults w = [] \<longrightarrow> w_s3_faults w' = [] \<and> (\<forall>k \<in> K. k \<noteq> [] \<longrightarrow> w_blobs w' k = None))"

lemma objects_gone_trans:
  assumes "objects_gone A w w1" "objects_gone B w1 w2"
  shows "objects_gone (A \<union> B) w w2"
  unfolding objects_gone_def
proof (intro conjI allI impI)
  fix k
  show "w_blobs w2 k = w_blobs w k \<or> k \<in> A \<union> B \<and> w_blobs w2 k = None"
    using assms unfolding objects_gone_def by (metis UnCI)
next
  assume "w_s3_faults w = []"
  with assms show "\<forall>k \<in> A \<union> B. k \<noteq> [] \<longrightarrow> w_blobs w2 k = None"
    unfolding objects_gone_def by (metis Un_iff)
qed (use assms in \<open>auto simp: objects_gone_def\<close>)

lemma s3_delete_gone: "objects_gone {key} w (snd (run_state (s3_delete key) w))"
  by (auto simp: run_s3_delete Let_def objects_gone_def)

lemma delete_objects_gone: "objects_gone (er_storage_key ` set rs - {[]}) w (snd (run_state (delete_objects rs) w))"
proof (induction rs arbitrary: w)
  case Nil
  show ?case by (simp add: objects_gone_def)
next
  case (Cons r rs)
  show ?case
  proof (cases "er_storage_key r = []")
    case True
    with Cons.IH [of w] show ?thesis by simp
  next
    case False
    let ?w1 = "snd (run_state (s3_delete (er_storage_key r)) w)"
    have "snd (run_state (delete_objects (r # rs)) w) = snd (run_state (delete_objects rs) ?w1)"
      using False by (simp split: prod.splits)
    moreover have "{er_storage_key r} \<union> (er_storage_key ` set rs - {[]}) = er_storage_key ` set (r # rs) - {[]}"
      using False by auto
    ultimately show ?thesis
      using objects_gone_trans [OF s3_delete_gone Cons.IH, of "er_storage_key r" w] by simp
  qed
qed

definition sweep_world :: "retention_worker \<Rightarrow> int \<Rightarrow> world \<Rightarrow> retention_worker \<times> world" where
  "sweep_world wk t w = run_state (sweep (\<lambda>_. False) wk) (w\<lparr>w_now := t\<rparr>)"

text \<open>Ticks at the given times, no other replica holding rows.\<close>

fun sweeps_at :: "int list \<Rightarrow> retention_worker \<Rightarrow> world \<Rightarrow> world" where
  "sweeps_at [] wk w = w"
| "sweeps_at (t # ts) wk w = (case sweep_world wk t w of (wk', w') \<Rightarrow> sweeps_at ts wk' w')"

lemma sweep_effect:
  assumes "db_faults (w_db w) = []" "run_state (sweep locked wk) w = (wk', w')"
  defines "ids \<equiv> reaped_ids locked (w_now w) (rc_batch_size (rw_cfg wk)) (runs (w_db w))"
  defines "w1 \<equiv> w\<lparr>w_db := (w_db w)\<lparr>runs := filter (\<lambda>r. r_id r \<notin> ids) (runs (w_db w))\<rparr>\<rparr>"
  shows "rw_cfg wk' = rw_cfg wk \<and>
    objects_gone (r_storage_key ` {r \<in> set (runs (w_db w)). r_id r \<in> ids} - {[]}) w1 w'"
proof -
  let ?out = "filter (\<lambda>r. r_id r \<in> ids) (runs (w_db w))"
  have keys: "er_storage_key ` set (map expired_run_of ?out) = r_storage_key ` {r \<in> set (runs (w_db w)). r_id r \<in> ids}"
    by (force simp: expired_run_of_def)
  have "run_state (db_call (reap_expired_runs locked (w_now w) (rc_batch_size (rw_cfg wk)))) w =
      (Inr (map expired_run_of ?out), w1)"
    by (simp add: db_call_def reap_result [OF assms(1)] ids_def w1_def)
  with assms(2) have "w' = (if ?out = [] then w1 else snd (run_state (delete_objects (map expired_run_of ?out)) w1))"
    and c: "rw_cfg wk' = rw_cfg wk"
    by (auto simp: sweep_def clock_def Let_def split: prod.splits if_splits)
  then have "w' = snd (run_state (delete_objects (map expired_run_of ?out)) w1)" by simp
  with delete_objects_gone [of "map expired_run_of ?out" w1] c show ?thesis by (simp only: keys simp_thms)
qed

section \<open>Repeated sweeps\<close>

lemma sweep_world_step:
  assumes "db_faults (w_db w) = []" "sweep_world wk t w = (wk', w')"
  defines "ids \<equiv> reaped_ids (\<lambda>_. False) t (rc_batch_size (rw_cfg wk)) (runs (w_db w))"
  shows "rw_cfg wk' = rw_cfg wk" "db_faults (w_db w') = []"
    "runs (w_db w') = filter (\<lambda>r. r_id r \<notin> ids) (runs (w_db w))"
    "w_blobs w k = None \<Longrightarrow> w_blobs w' k = None"
    "w_s3_faults w = [] \<Longrightarrow> w_s3_faults w' = []"
    "\<lbrakk>w_s3_faults w = []; q \<in> set (runs (w_db w)); r_id q \<in> ids; r_storage_key q \<noteq> []\<rbrakk> \<Longrightarrow>
      w_blobs w' (r_storage_key q) = None"
proof -
  have g: "db_faults (w_db (w\<lparr>w_now := t\<rparr>)) = []" using assms(1) by simp
  note e = sweep_effect [OF g assms(2) [unfolded sweep_world_def]]
  show "rw_cfg wk' = rw_cfg wk" using e by blast
  show "db_faults (w_db w') = []" "runs (w_db w') = filter (\<lambda>r. r_id r \<notin> ids) (runs (w_db w))"
    "w_s3_faults w = [] \<Longrightarrow> w_s3_faults w' = []"
    using e assms(1) by (simp_all add: objects_gone_def ids_def)
  show "w_blobs w k = None \<Longrightarrow> w_blobs w' k = None"
    using e by (auto simp: objects_gone_def dest: spec [of _ k])
  show "w_blobs w' (r_storage_key q) = None" if "w_s3_faults w = []" "q \<in> set (runs (w_db w))" "r_id q \<in> ids"
    "r_storage_key q \<noteq> []"
    using e that by (auto simp: objects_gone_def ids_def)
qed

lemma sweeps_keep_gone:
  "db_faults (w_db w) = [] \<Longrightarrow> w_blobs w k = None \<Longrightarrow> w_blobs (sweeps_at ts wk w) k = None"
proof (induction ts arbitrary: wk w)
  case (Cons t ts)
  obtain wk' w' where e: "sweep_world wk t w = (wk', w')" by (cases "sweep_world wk t w") auto
  note st = sweep_world_step [OF Cons.prems(1) e]
  from Cons.IH [OF st(2) st(4) [OF Cons.prems(2)]] e show ?case by simp
qed simp

lemma sweeps_drain:
  assumes "db_faults (w_db w) = []" "0 < rc_batch_size (rw_cfg wk)" "\<forall>t \<in> set ts. t0 \<le> t"
    and "length (filter (expired_before t0) (runs (w_db w))) \<le> length ts * nat (rc_batch_size (rw_cfg wk))"
  shows "(\<forall>q \<in> set (runs (w_db (sweeps_at ts wk w))). \<not> expired_before t0 q) \<and>
    (w_s3_faults w = [] \<longrightarrow> (\<forall>q \<in> set (runs (w_db w)). expired_before t0 q \<and> r_storage_key q \<noteq> [] \<longrightarrow>
       w_blobs (sweeps_at ts wk w) (r_storage_key q) = None))"
  using assms
proof (induction ts arbitrary: wk w)
  case Nil
  then show ?case by (auto simp: filter_empty_conv)
next
  case (Cons t ts)
  obtain wk' w' where e: "sweep_world wk t w = (wk', w')" by (cases "sweep_world wk t w") auto
  note st = sweep_world_step [OF Cons.prems(1) e]
  let ?b = "rc_batch_size (rw_cfg wk)"
  have "length (filter (expired_before t0) (runs (w_db w'))) \<le>
      length (filter (expired_before t0) (runs (w_db w))) - nat ?b"
    using sweep_progress [of t0 t ?b "runs (w_db w)"] Cons.prems(2,3) st(3) by (simp add: reaped_ids_def)
  also have "\<dots> \<le> length ts * nat ?b" using Cons.prems(4) by simp
  finally have IH: "(\<forall>q \<in> set (runs (w_db (sweeps_at ts wk' w'))). \<not> expired_before t0 q) \<and>
    (w_s3_faults w' = [] \<longrightarrow> (\<forall>q \<in> set (runs (w_db w')). expired_before t0 q \<and> r_storage_key q \<noteq> [] \<longrightarrow>
       w_blobs (sweeps_at ts wk' w') (r_storage_key q) = None))"
    using Cons.prems(2,3) st(1,2) by (intro Cons.IH) auto
  show ?case
  proof (intro conjI impI ballI)
    fix q assume "q \<in> set (runs (w_db (sweeps_at (t # ts) wk w)))"
    then show "\<not> expired_before t0 q" using IH e by simp
  next
    fix q assume s3: "w_s3_faults w = []" and q: "q \<in> set (runs (w_db w))"
      and x: "expired_before t0 q \<and> r_storage_key q \<noteq> []"
    show "w_blobs (sweeps_at (t # ts) wk w) (r_storage_key q) = None"
    proof (cases "q \<in> set (runs (w_db w'))")
      case True
      then show ?thesis using IH x e st(5) [OF s3] by simp
    next
      case False
      then have "w_blobs w' (r_storage_key q) = None"
        using st(6) [OF s3 q] q x st(3) by auto
      then show ?thesis using sweeps_keep_gone [OF st(2)] e by simp
    qed
  qed
qed

text \<open>
  C36. Retention catches up: a worker that sweeps often enough after a moment, whatever its backlog at
  that moment and whatever batch size it was configured with, has deleted every run that had expired
  by then, and, if no deletion in the bucket failed, every one of those runs' objects.
\<close>

theorem retention_drains:
  assumes "db_faults (w_db w) = []" and "\<forall>t \<in> set ts. t0 \<le> t"
    and "length (filter (expired_before t0) (runs (w_db w))) \<le>
      length ts * nat (rc_batch_size (rw_cfg (new_retention_worker cfg)))"
  shows "(\<forall>q \<in> set (runs (w_db (sweeps_at ts (new_retention_worker cfg) w))). \<not> expired_before t0 q) \<and>
    (w_s3_faults w = [] \<longrightarrow> (\<forall>q \<in> set (runs (w_db w)). expired_before t0 q \<and> r_storage_key q \<noteq> [] \<longrightarrow>
       w_blobs (sweeps_at ts (new_retention_worker cfg) w) (r_storage_key q) = None))"
proof -
  have "0 < rc_batch_size (rw_cfg (new_retention_worker cfg))"
    by (simp add: new_retention_worker_def default_batch_size_def)
  from sweeps_drain [OF assms(1) this assms(2,3)] show ?thesis .
qed

section \<open>What a sweep may delete\<close>

text \<open>Two organizations hold a run of the same id, as the primary key \<open>(org_id, id)\<close> allows.\<close>

definition swept_db :: db where
  "swept_db = demo_db\<lparr>runs := [demo_run ''a'' ''r1'' 5000, demo_run ''b'' ''r1'' 9000000, demo_run ''a'' ''r2'' 6000]\<rparr>"

definition swept_world :: world where
  "swept_world = \<lparr>w_db = swept_db, w_blobs = [''k'' \<mapsto> ''x''], w_s3_faults = [], w_now = 0, w_feed = [], w_live = [],
     w_rand = [], w_uploads = []\<rparr>"

lemma retention_drains_witness:
  "filter (expired_before 8000)
     (runs (w_db (sweeps_at [8000, 9000] (new_retention_worker \<lparr>rc_interval = 0, rc_batch_size = 1\<rparr>) swept_world))) = []"
  using retention_drains [of swept_world "[8000, 9000]" 8000 "\<lparr>rc_interval = 0, rc_batch_size = 1\<rparr>"]
  by (simp add: filter_empty_conv swept_world_def swept_db_def demo_db_def empty_db_def new_retention_worker_def
      expired_before_def demo_run_def micros_def)

text \<open>
  A run that a reap deletes has the id of an expired run no other transaction has locked, and is that
  run itself where no two runs share an id; so where ids are not shared between organizations a sweep
  deletes expired runs only.
\<close>

lemma reap_deletes_expired:
  assumes "db_faults s = []" and "q \<in> set (runs s)" and "q \<notin> set (runs (snd (reap_expired_runs locked t l s)))"
  shows "\<exists>p \<in> set (runs s). r_id p = r_id q \<and> expired_before t p \<and> \<not> locked p \<and>
    (distinct (map r_id (runs s)) \<longrightarrow> p = q)"
proof -
  have "r_id q \<in> reaped_ids locked t l (runs s)" using assms reap_result [OF assms(1)] by auto
  then obtain p where p: "p \<in> set (reap_selected locked t (if l \<le> 0 then 100 else l) (runs s))" "r_id p = r_id q"
    by (auto simp: reaped_ids_def)
  then have "p \<in> set (runs s)" "expired_before t p" "\<not> locked p"
    by (auto simp: reap_selected_def expired_before_def dest: in_set_takeD)
  with p(2) assms(2) show ?thesis by (auto simp: distinct_map dest: inj_onD)
qed

lemma reap_deletes_expired_witness:
  "\<exists>p \<in> set (runs swept_db). r_id p = ''r1'' \<and> expired_before 7000 p"
proof -
  have "\<exists>p \<in> set (runs swept_db). r_id p = r_id (demo_run ''a'' ''r1'' 5000) \<and> expired_before 7000 p \<and> \<not> False \<and>
    (distinct (map r_id (runs swept_db)) \<longrightarrow> p = demo_run ''a'' ''r1'' 5000)"
    by (rule reap_deletes_expired [where locked = "\<lambda>_. False" and l = 1])
      (simp add: swept_db_def demo_db_def empty_db_def demo_run_def, simp add: swept_db_def, code_simp)
  then show ?thesis by (auto simp: demo_run_def)
qed

text \<open>
  Where ids are shared, a sweep deletes live runs: the \<open>DELETE\<close> selects the batch by id alone, and with the
  expired run of organization \<open>a\<close> goes the run of organization \<open>b\<close> that expires much later.
\<close>

lemma reap_takes_live_run:
  "db_ok swept_db \<and> demo_run ''b'' ''r1'' 9000000 \<in> set (runs swept_db) \<and>
   \<not> expired_before 7000 (demo_run ''b'' ''r1'' 9000000) \<and>
   demo_run ''b'' ''r1'' 9000000 \<notin> set (runs (snd (reap_expired_runs (\<lambda>_. False) 7000 1 swept_db)))"
proof -
  have "db_ok swept_db"
    using demo_db_ok by (simp add: swept_db_def demo_db_def empty_db_def db_ok_defs demo_run_def)
  moreover have "demo_run ''b'' ''r1'' 9000000 \<in> set (runs swept_db)" by (simp add: swept_db_def)
  moreover have "\<not> expired_before 7000 (demo_run ''b'' ''r1'' 9000000)"
    by (simp add: expired_before_def demo_run_def micros_def)
  moreover have "demo_run ''b'' ''r1'' 9000000 \<notin> set (runs (snd (reap_expired_runs (\<lambda>_. False) 7000 1 swept_db)))"
    by code_simp
  ultimately show ?thesis by blast
qed

end
