(* ===== verification/Store_Relations.thy ===== *)
theory Store_Relations
  imports Router Retention "HOL-Library.Sublist"
begin

text \<open>
  What no operation does by accident. Most operations of the store touch none of the tables
  \<open>runs\<close>, \<open>api_keys\<close> and \<open>audits\<close>, and organizations are only added; a relation on databases that ignores all other tables is therefore kept
  by them, and by every handler that calls them. The locale \<open>quiet_relation\<close> states what such a relation
  needs, \<open>key_relation\<close> adds the two operations on keys, \<open>handler_relation\<close> the audit row that handlers
  write, and the lemmas about operations and handlers are proved once for all such relations.
  \<open>Trace_Store\<close> interprets them for the index, \<open>Revocation\<close> for the keys, \<open>Audit_Trail\<close> for the audit log.
\<close>

section \<open>Operations\<close>

locale quiet_relation =
  fixes R :: "db \<Rightarrow> db \<Rightarrow> bool"
  assumes R_trans: "R a b \<Longrightarrow> R b c \<Longrightarrow> R a c"
    and R_quiet: "runs s' = runs s \<Longrightarrow> api_keys s' = api_keys s \<Longrightarrow> audits s' = audits s \<Longrightarrow>
      db_faults s' = db_faults s \<Longrightarrow> suffix (db_ids s') (db_ids s) \<Longrightarrow> prefix (orgs s) (orgs s') \<Longrightarrow> R s s'"
    and R_fault: "R s (s\<lparr>db_faults := tl (db_faults s)\<rparr>)"
    and R_rollback: "R s s' \<Longrightarrow> R s (s\<lparr>db_faults := db_faults s'\<rparr>)"
begin

lemma R_refl [simp]: "R s s"
  by (rule R_quiet) simp_all

lemma R_stmt:
  assumes "\<And>s x s'. body s = Inr (x, s') \<Longrightarrow> R s s'"
  shows "R s (snd (stmt body s))"
proof (rule stmt_cases [of body s])
  fix x s2
  assume b: "body (s\<lparr>db_faults := tl (db_faults s)\<rparr>) = Inr (x, s2)" "stmt body s = (Inr x, s2)"
  show ?thesis using R_trans [OF R_fault assms [OF b(1)]] b(2) by simp
qed (auto simp: R_fault)

lemma quiet_stmt:
  assumes "\<And>s x s'. body s = Inr (x, s') \<Longrightarrow> runs s' = runs s \<and> api_keys s' = api_keys s \<and> audits s' = audits s \<and>
    db_faults s' = db_faults s \<and> suffix (db_ids s') (db_ids s) \<and> prefix (orgs s) (orgs s')"
  shows "R s (snd (stmt body s))"
  using assms by (intro R_stmt R_quiet) blast+

lemma quiet_select [simp]: "R s (snd (select f s))"
  unfolding select_def by (rule quiet_stmt) auto

lemma quiet_select_pair: "select f s = (a, b) \<Longrightarrow> R s b"
  by (metis quiet_select snd_conv)

lemma quiet_rand: "rand_bytes s = (r, s1) \<Longrightarrow> R s s1"
  by (auto simp: rand_bytes_def intro: R_quiet split: list.splits)

lemma fresh_quiet: "fresh_id s = Inr (i, s1) \<Longrightarrow> runs s1 = runs s \<and> api_keys s1 = api_keys s \<and> audits s1 = audits s \<and>
    db_faults s1 = db_faults s \<and> suffix (db_ids s1) (db_ids s) \<and> orgs s1 = orgs s"
  by (auto simp: fresh_id_def suffix_def split: list.splits)

lemma quiet_then:
  assumes "R s (snd m)" "\<And>e s1. R s1 (snd (f e s1))" "\<And>b s1. R s1 (snd (g b s1))"
  shows "R s (snd (case m of (Inl e, s1) \<Rightarrow> f e s1 | (Inr b, s1) \<Rightarrow> g b s1))"
  using assms by (auto split: prod.splits sum.splits) (metis R_trans)+

lemma quiet_rand_then:
  "(\<And>e s1. R s1 (snd (f e s1))) \<Longrightarrow> (\<And>b s1. R s1 (snd (g b s1))) \<Longrightarrow>
    R s (snd (case rand_bytes s of (Inl e, s1) \<Rightarrow> f e s1 | (Inr b, s1) \<Rightarrow> g b s1))"
  using quiet_rand by (intro quiet_then) (metis prod.collapse)

lemma quiet_reads:
  "R s (snd (list_runs g n l k s))" "R s (snd (get_run g i s))"
  "R s (snd (list_agents g s))" "R s (snd (get_agent g n s))"
  "R s (snd (get_agent_policy g n s))" "R s (snd (get_agent_baseline g i s))"
  "R s (snd (get_org i s))" "R s (snd (list_proposals g st s))"
  "R s (snd (list_audit_events g l k s))" "R s (snd (get_policy_set_by_id g i s))"
  "R s (snd (list_scim_tokens g s))" "R s (snd (list_invites g s))"
  "R s (snd (list_sessions_for_org g s))" "R s (snd (lookup_user_for_login e v s))"
  by (auto simp: list_runs_def get_run_def list_agents_def get_agent_def get_agent_policy_def
      get_agent_baseline_def get_org_def list_proposals_def list_audit_events_def get_policy_set_by_id_def
      list_scim_tokens_def list_invites_def list_sessions_for_org_def lookup_user_for_login_def page_def
      intro!: quiet_stmt split: if_splits)

lemma quiet_other_reads:
  "R s (snd (resolve_selector g sel s))" "R s (snd (get_sso_config E g s))" "R s (snd (validate_api_key E t s))"
  by (auto simp: resolve_selector_def get_agent_def get_sso_config_def validate_api_key_def
      intro: quiet_select_pair split: option.splits sum.splits prod.splits)

lemma quiet_writes:
  "R s (snd (create_org nm slug s))"
  "R s (snd (update_agent_last_seen g nm s))" "R s (snd (update_agent_policy g nm y s))"
  "R s (snd (upsert_agent E a s))"
  "R s (snd (update_proposal_status g pid st uu s))" "R s (snd (insert_user g em ro pw pv s))"
  "R s (snd (cancel_invite g iid s))" "R s (snd (revoke_scim_token g tid s))"
  "R s (snd (revoke_session g sid s))" "R s (snd (revoke_all_sessions_for_user g uid s))"
  by (auto simp: create_org_def update_agent_last_seen_def update_agent_policy_def
      upsert_agent_def update_proposal_status_def insert_user_def Let_def
      cancel_invite_def revoke_scim_token_def revoke_session_def revoke_all_sessions_for_user_def
      revoke_sessions_where_def
      intro!: quiet_stmt split: option.splits sum.splits prod.splits if_splits dest!: fresh_quiet)

lemma quiet_upsert_policy_set: "R s (snd (upsert_policy_set E p s))"
  by (auto simp: upsert_policy_set_def upsert_body_def Let_def
      intro!: quiet_stmt split: option.splits sum.splits prod.splits if_splits dest!: fresh_quiet)

lemma quiet_rand_writes: "R s (snd (create_scim_token E g nm s))" "R s (snd (create_invite g em ro ttl s))"
  unfolding create_scim_token_def create_invite_def
  by (rule quiet_rand_then; auto simp: Let_def intro!: quiet_stmt split: sum.splits prod.splits if_splits dest!: fresh_quiet)+

lemma quiet_mark_policy_applied: "R s (snd (mark_policy_applied g nm h s))"
proof -
  have "R s1 s2" if "stmt (\<lambda>s. Inr (length (f s), s\<lparr>agents := h s\<rparr>)) s1 = (x, s2)" for f :: "db \<Rightarrow> agent_row list" and h s1 s2 x
    using that quiet_stmt [of "\<lambda>s. Inr (length (f s), s\<lparr>agents := h s\<rparr>)" s1] by auto
  then show ?thesis
    unfolding mark_policy_applied_def by (auto split: sum.splits prod.splits)
qed

lemma quiet_upsert_sso_config: "R s (snd (upsert_sso_config E c s))"
proof -
  have "R s (snd (write_sso c enc s))" for enc
    unfolding write_sso_def by (auto simp: Let_def intro!: quiet_stmt split: if_splits dest!: fresh_quiet)
  then show ?thesis by (auto simp: upsert_sso_config_def split: sum.splits)
qed

lemma quiet_insert_labels: "R s (snd (insert_labels aid kvs s))"
proof (induction kvs arbitrary: s)
  case (Cons kv kvs)
  have "R s (snd (insert_label aid kv s))"
    unfolding insert_label_def by (auto intro!: quiet_stmt split: if_splits)
  with Cons.IH show ?case by (auto split: prod.splits sum.splits) (metis R_trans snd_conv)?
qed simp

lemma quiet_set_labels_tx: "R s (snd (set_labels_tx g nm kvs s))"
  unfolding set_labels_tx_def
  by (rule quiet_then, simp, simp)
    (auto intro!: quiet_then quiet_stmt quiet_insert_labels split: option.splits)

lemma quiet_set_agent_labels: "R s (snd (set_agent_labels g nm kvs s))"
  unfolding set_agent_labels_def
proof (rule quiet_then)
  show "R s (snd (with_ctx ''set agent labels: begin: '' (stmt (\<lambda>s. Inr ((), s)) s)))"
    by (auto intro!: quiet_stmt)
  show "R s1 (snd (case set_labels_tx g nm kvs s1 of
      (Inl e, s2) \<Rightarrow> (Inl e, s1\<lparr>db_faults := db_faults s2\<rparr>) | (Inr u, s2) \<Rightarrow> (Inr u, s2)))" for b s1
    using quiet_set_labels_tx [of s1 g nm kvs] by (auto intro: R_rollback split: prod.splits sum.splits)
qed auto

lemmas quiet_ops = quiet_reads quiet_other_reads quiet_writes quiet_upsert_policy_set quiet_rand_writes
  quiet_mark_policy_applied quiet_upsert_sso_config quiet_set_agent_labels

end

text \<open>Keys are added under a new id and a new hash, and revoked.\<close>

locale key_relation = quiet_relation R for R :: "db \<Rightarrow> db \<Rightarrow> bool" +
  assumes R_add_key: "\<not> list_ex (\<lambda>q. k_id q = k_id k \<or> k_hash q = k_hash k) (api_keys s) \<Longrightarrow>
      R s (s\<lparr>api_keys := api_keys s @ [k]\<rparr>)"
    and R_revoke_where: "R s (s\<lparr>api_keys := update_where P (\<lambda>k. k\<lparr>k_revoked_at := Some t\<rparr>) (api_keys s)\<rparr>)"

context key_relation
begin

lemma R_create_key: "R s (snd (create_api_key E g nm s))"
proof -
  have add: "R s (s2\<lparr>api_keys := api_keys s2 @ [k]\<rparr>)"
    if "fresh_id s = Inr (i, s2)" "\<not> list_ex (\<lambda>q. k_id q = k_id k \<or> k_hash q = k_hash k) (api_keys s2)" for s s2 i k
    using R_trans [OF R_quiet R_add_key [OF that(2)]] fresh_quiet [OF that(1)] by simp
  show ?thesis
    unfolding create_api_key_def
    apply (rule quiet_rand_then)
     apply simp
    apply (auto simp: Let_def intro!: R_stmt split: sum.splits prod.splits if_splits)
     apply (erule add, simp)+
    done
qed

lemma R_revoke_key: "R s (snd (revoke_api_key g i s))"
  unfolding revoke_api_key_def by (rule R_stmt) (auto intro: R_revoke_where)

end

text \<open>Audit rows are added under a new id.\<close>

locale handler_relation = key_relation R for R :: "db \<Rightarrow> db \<Rightarrow> bool" +
  assumes R_add_audit: "\<not> list_ex (\<lambda>q. ev_id q = ev_id e) (audits s) \<Longrightarrow> R s (s\<lparr>audits := audits s @ [e]\<rparr>)"
begin

lemma R_audit_event: "R s (snd (insert_audit_event E g u ac r i m s))"
proof -
  have add: "R s (s2\<lparr>audits := audits s2 @ [e]\<rparr>)"
    if "fresh_id s = Inr (i, s2)" "\<not> list_ex (\<lambda>q. ev_id q = ev_id e) (audits s2)" for s s2 i e
    using R_trans [OF R_quiet R_add_audit [OF that(2)]] fresh_quiet [OF that(1)] by simp
  show ?thesis
    unfolding insert_audit_event_def
    by (auto simp: Let_def intro!: R_stmt split: option.splits sum.splits prod.splits if_splits) (erule add, simp)+
qed

end

section \<open>Handlers\<close>

definition same_world :: "(db \<Rightarrow> db \<Rightarrow> bool) \<Rightarrow> world \<Rightarrow> world \<Rightarrow> bool" where
  "same_world R w w' \<longleftrightarrow> R (w_db w) (w_db w') \<and> w_blobs w' = w_blobs w"

sublocale key_relation \<subseteq> world: world_relation "same_world R"
  by unfold_locales (auto simp: same_world_def intro: R_trans)

context key_relation
begin

lemma same_db_call: "(\<And>s. R s (snd (oper s))) \<Longrightarrow> leads (same_world R) (db_call oper)"
  by (auto simp: leads_def db_call_def same_world_def split: prod.splits) (metis snd_conv)

lemma same_download: "leads (same_world R) (s3_download key)"
  by (auto simp: leads_def s3_download_def s3_call_def same_world_def Let_def split: option.splits prod.splits sum.splits)

lemma same_notify: "leads (same_world R) (feed_publish S note)" "leads (same_world R) (live_publish ev)"
proof -
  have n: "R s s'" if "stmt (\<lambda>s. Inr ((), s)) s = (x, s')" for s s' x
    using that quiet_stmt [of "\<lambda>s. Inr ((), s)" s] by auto
  show "leads (same_world R) (feed_publish S note)" "leads (same_world R) (live_publish ev)"
    by (auto simp: leads_def feed_publish_def live_publish_def same_world_def split: sum.splits prod.splits dest: n)
qed

lemma same_publish_all: "leads (same_world R) (publish_all S note as)"
  by (induction as) (auto intro!: world.leads_rules same_notify)

end

context handler_relation
begin

lemma same_audit: "leads (same_world R) (audit_log S r a res rid meta)"
  by (auto simp: audit_log_def intro!: world.leads_rules same_db_call quiet_ops R_audit_event)

lemmas same_rules = world.leads_rules same_db_call same_download same_notify same_publish_all same_audit
  quiet_ops R_create_key R_revoke_key R_audit_event

lemma traces_same:
  "leads (same_world R) (handle_list_traces S r)" "leads (same_world R) (handle_get_trace S r)"
  "leads (same_world R) (handle_get_trace_events S r)" "leads (same_world R) (upload_refused S r su e)"
  "leads (same_world R) (index_failed S org rid e)" "leads (same_world R) (upload_accepted S q)"
  by (auto simp: handle_list_traces_def handle_get_trace_def handle_get_trace_events_def
      index_failed_def upload_refused_def upload_accepted_def Let_def intro!: same_rules)

lemma agents_same:
  "leads (same_world R) (handle_register_agent S r)" "leads (same_world R) (handle_list_agents S r)"
  "leads (same_world R) (handle_get_agent S r)" "leads (same_world R) (handle_get_agent_baseline S r)"
  "leads (same_world R) (handle_get_agent_policy S r)" "leads (same_world R) (handle_update_agent_policy S r)"
  "leads (same_world R) (handle_get_org S r)" "leads (same_world R) (handle_create_api_key S r)"
  "leads (same_world R) (handle_revoke_api_key S r)" "leads (same_world R) (handle_get_user S r)"
  "leads (same_world R) (handle_create_org S r)" "leads (same_world R) (handle_onboard S r)"
  by (auto simp: handle_register_agent_def handle_list_agents_def handle_get_agent_def handle_get_agent_baseline_def
      handle_get_agent_policy_def handle_update_agent_policy_def handle_get_org_def handle_create_api_key_def
      handle_revoke_api_key_def handle_get_user_def handle_onboard_def handle_create_org_def Let_def intro!: same_rules)

lemma policies_same:
  "leads (same_world R) (handle_upsert_policy_set S r)" "leads (same_world R) (handle_get_policy_set S r)"
  "leads (same_world R) (handle_resolve_selector S r)" "leads (same_world R) (handle_set_agent_labels S r)"
  "leads (same_world R) (handle_policy_applied S r)" "leads (same_world R) (handle_post_intent S r)"
  "leads (same_world R) (handle_list_audit_events S r)"
  "leads (same_world R) (handle_list_proposals S r)" "leads (same_world R) (handle_get_proposal S r)"
  "leads (same_world R) (decide_proposal S r st act)"
  by (auto simp: handle_upsert_policy_set_def check_policy_set_def write_policy_set_def handle_get_policy_set_def
      handle_resolve_selector_def handle_set_agent_labels_def handle_policy_applied_def handle_post_intent_def
      publish_intent_def intent_agent_def handle_list_audit_events_def handle_list_proposals_def
      handle_get_proposal_def decide_proposal_def Let_def
      intro!: same_rules split: list.splits)

lemma identity_same:
  "leads (same_world R) (handle_get_sso S r)" "leads (same_world R) (handle_put_sso S r)"
  "leads (same_world R) (handle_list_scim_tokens S r)" "leads (same_world R) (handle_create_scim_token S r)"
  "leads (same_world R) (handle_revoke_scim_token S r)" "leads (same_world R) (handle_list_invites S r)"
  "leads (same_world R) (handle_create_invite S r)" "leads (same_world R) (handle_cancel_invite S r)"
  "leads (same_world R) (handle_list_sessions S r)" "leads (same_world R) (handle_revoke_session S r)"
  by (auto simp: handle_get_sso_def handle_put_sso_def handle_list_scim_tokens_def handle_create_scim_token_def
      handle_revoke_scim_token_def handle_list_invites_def handle_create_invite_def handle_cancel_invite_def
      handle_list_sessions_def handle_revoke_session_def Let_def intro!: same_rules)

text \<open>All routes but the two that write runs.\<close>

lemma route_same:
  assumes "rt \<noteq> UploadTrace" "rt \<noteq> DeleteTrace"
  shows "leads (same_world R) (route_handler S rt r)"
  using assms
  by (cases rt) (simp_all add: traces_same agents_same policies_same identity_same
      handle_approve_proposal_def handle_reject_proposal_def handle_dismiss_proposal_def)

lemma validate_same: "same_world R w (snd (api_validate S token w))"
  using same_db_call quiet_other_reads(3) unfolding leads_def api_validate_def by blast

end

end
