(* ===== verification/Trace_Store.thy ===== *)
theory Trace_Store
  imports Store_Relations
begin

text \<open>
  The run index and the bucket together. No operation but the upload, the deletion of a trace and the
  retention sweep touches the \<open>runs\<close> table or the objects, an upload either does both or neither, and
  so every indexed run is backed by the object it was computed from.
\<close>

section \<open>What leaves the index alone\<close>

definition idle :: "db \<Rightarrow> db \<Rightarrow> bool" where
  "idle s s' \<longleftrightarrow> runs s' = runs s \<and> (if db_faults s = [] then db_faults s' = [] else True)"

interpretation stores: handler_relation idle
  by unfold_locales (auto simp: idle_def split: if_splits)

abbreviation same_store :: "world \<Rightarrow> world \<Rightarrow> bool" where
  "same_store \<equiv> same_world idle"

section \<open>Uploads\<close>

definition stored_run :: "run \<Rightarrow> run" where
  "stored_run q = q\<lparr>r_started_at := micros (r_started_at q), r_expires_at := micros (r_expires_at q)\<rparr>"

definition same_run :: "run \<Rightarrow> run \<Rightarrow> bool" where
  "same_run q p \<longleftrightarrow> r_org p = r_org q \<and> r_id p = r_id q"

lemma insert_run_cases:
  assumes "db_faults s = []"
  shows "(\<exists>e. insert_run q s = (Inl e, s)) \<or>
    (insert_run q s = (Inr (), s\<lparr>runs := runs s @ [stored_run q]\<rparr>) \<and> \<not> list_ex (same_run q) (runs s))"
  using assms by (cases s) (auto simp: insert_run_def stmt_def Let_def stored_run_def same_run_def [abs_def] split: if_splits)

lemma delete_run_after_insert:
  assumes "db_faults s = []" "\<not> list_ex (same_run q) (runs s)"
  shows "snd (delete_run (r_org q) (r_id q) (s\<lparr>runs := runs s @ [stored_run q]\<rparr>)) = s"
proof -
  have none: "List.find (\<lambda>r. r_org r = r_org q \<and> r_id r = r_id q) (runs s) = None"
    "filter (\<lambda>p. \<not> (r_org p = r_org q \<and> r_id p = r_id q)) (runs s) = runs s"
    using assms(2) by (auto simp: find_None_iff list_ex_iff same_run_def intro!: filter_True)
  then have "List.find (\<lambda>r. r_org r = r_org q \<and> r_id r = r_id q) (runs s @ [stored_run q]) = Some (stored_run q)"
    by (auto simp: stored_run_def find_append)
  with none(2) assms(1) show ?thesis by (cases s) (simp add: delete_run_def stmt_def stored_run_def)
qed

lemma same_store_run: "leads same_store m \<Longrightarrow> run_state m w = (x, w') \<Longrightarrow> same_store w w'"
  by (metis leads_def snd_conv)

text \<open>The upload's tail: the row is in, the object is being written.\<close>

lemma index_trace_effect:
  assumes "db_faults (w_db w) = []" "run_state (index_trace S r body org su) w = (resp, w')"
  shows "if rs_status resp = 201
    then sanitize_identifier (su_run_id su) [] \<noteq> [] \<and>
      (\<exists>w1 q. q = run_of_summary r org (w_now w + 30 * day_nanos) su \<and> \<not> list_ex (same_run q) (runs (w_db w)) \<and>
        runs (w_db w1) = runs (w_db w) @ [stored_run q] \<and> db_faults (w_db w1) = [] \<and>
        w_blobs w1 = (w_blobs w)(r_storage_key q \<mapsto> body) \<and> same_store w1 w')
    else same_store w w'"
proof (cases "sanitize_identifier (su_run_id su) [] = []")
  case True
  with assms(2) show ?thesis
    by (auto simp: index_trace_def respond_error_def write_json_error_def reply_def same_world_def)
next
  case False
  let ?q = "run_of_summary r org (w_now w + 30 * day_nanos) su"
  have qo: "r_org ?q = org" by (simp add: run_of_summary_def)
  from insert_run_cases [OF assms(1), of ?q] show ?thesis
  proof (elim disjE exE conjE)
    fix e assume e: "insert_run ?q (w_db w) = (Inl e, w_db w)"
    then have "run_state (index_trace S r body org su) w = run_state (index_failed S org (r_id ?q) e) w"
      using False by (simp add: index_trace_def Let_def clock_def db_call_def)
    with assms(2) have run: "run_state (index_failed S org (r_id ?q) e) w = (resp, w')" by simp
    then have "rs_status resp \<noteq> 201"
      by (auto simp: index_failed_def respond_def respond_error_def write_json_error_def reply_def db_call_def
          split: if_splits prod.splits sum.splits option.splits)
    with same_store_run [OF stores.traces_same(5) run] show ?thesis by simp
  next
    assume ins: "insert_run ?q (w_db w) = (Inr (), (w_db w)\<lparr>runs := runs (w_db w) @ [stored_run ?q]\<rparr>)"
      and new: "\<not> list_ex (same_run ?q) (runs (w_db w))"
    let ?w1 = "w\<lparr>w_db := (w_db w)\<lparr>runs := runs (w_db w) @ [stored_run ?q]\<rparr>\<rparr>"
    let ?w2 = "?w1\<lparr>w_s3_faults := tl (w_s3_faults w)\<rparr>"
    show ?thesis
    proof (cases "w_s3_faults w \<noteq> [] \<and> hd (w_s3_faults w)")
      case True
      have "snd (delete_run org (r_id ?q) (w_db ?w2)) = w_db w"
        using delete_run_after_insert [OF assms(1) new] qo by simp
      with True assms(2) ins False
      have "rs_status resp = 500 \<and> w' = w\<lparr>w_s3_faults := tl (w_s3_faults w)\<rparr>"
        by (auto simp: index_trace_def Let_def clock_def db_call_def s3_upload_bytes_def s3_upload_def s3_call_def
            wrap_error_def respond_error_def write_json_error_def reply_def split: prod.splits)
      then show ?thesis by (simp add: same_world_def)
    next
      case False
      let ?w3 = "?w2\<lparr>w_blobs := (w_blobs w)(r_storage_key ?q \<mapsto> body)\<rparr>"
      let ?rest = "do {
        _ \<leftarrow> db_call (update_agent_last_seen org (r_agent_name ?q));
        audit_log S r ''trace.upload'' ''run'' (r_id ?q) (Some [(''agent_name'', JStr (r_agent_name ?q)),
          (''actions_total'', JInt (r_actions_total ?q)), (''actions_denied'', JInt (r_actions_denied ?q)),
          (''integrity_chain'', JBool (r_integrity_chain ?q)), (''chain_verified'', JBool (r_chain_verified ?q))]);
        count_upload ''accepted'';
        upload_accepted S ?q }"
      have run: "run_state ?rest ?w3 = (resp, w')"
        using assms(2) ins False \<open>sanitize_identifier (su_run_id su) [] \<noteq> []\<close>
        by (auto simp: index_trace_def Let_def clock_def db_call_def s3_upload_bytes_def s3_upload_def s3_call_def
            wrap_error_def split: prod.splits)
      have "leads same_store ?rest" by (auto intro!: stores.same_rules stores.traces_same)
      then have "same_store ?w3 w'" using run by (rule same_store_run)
      moreover have "rs_status resp = 201"
        using run by (auto simp: upload_accepted_def respond_def reply_def split: prod.splits)
      ultimately show ?thesis
        using new assms(1) \<open>sanitize_identifier (su_run_id su) [] \<noteq> []\<close> by (auto intro!: exI [of _ ?w3])
    qed
  qed
qed

text \<open>What an upload adds: a row that a parse of the uploaded body describes, and the body under its key.\<close>

definition upload_of :: "server \<Rightarrow> request \<Rightarrow> string \<Rightarrow> int \<Rightarrow> run \<Rightarrow> bool" where
  "upload_of S r body now q \<longleftrightarrow> rq_body r = Some body \<and> length body \<le> max_trace_bytes \<and>
     (\<exists>su. parse_and_verify (sv_trace S) now body (sv_master S) (sv_require_sealed S) = (Some su, None) \<and>
        sanitize_identifier (su_run_id su) [] \<noteq> [] \<and>
        q = run_of_summary r (org_id_from_context r) (now + 30 * day_nanos) su)"

definition world_uploaded :: "run \<Rightarrow> string \<Rightarrow> world \<Rightarrow> world \<Rightarrow> bool" where
  "world_uploaded q body w w' \<longleftrightarrow> \<not> list_ex (same_run q) (runs (w_db w)) \<and>
     runs (w_db w') = runs (w_db w) @ [stored_run q] \<and> w_blobs w' = (w_blobs w)(r_storage_key q \<mapsto> body) \<and>
     db_faults (w_db w') = []"

lemma upload_effect:
  assumes "db_faults (w_db w) = []" "run_state (handle_upload_trace S r) w = (resp, w')"
  shows "if rs_status resp = 201 then \<exists>q body. upload_of S r body (w_now w) q \<and> world_uploaded q body w w'
    else same_store w w'"
proof -
  have refused: "rs_status resp \<noteq> 201 \<Longrightarrow> leads same_store m \<Longrightarrow> run_state m w = (resp, w') \<Longrightarrow> ?thesis" for m
    using same_store_run by simp
  have err: "rs_status (write_json_error c m) = c" for c m by (simp add: write_json_error_def reply_def)
  consider "org_id_from_context r = []" | "org_id_from_context r \<noteq> []" "read_max max_trace_bytes r = None"
    | body where "org_id_from_context r \<noteq> []" "read_max max_trace_bytes r = Some body" by fastforce
  then show ?thesis
  proof cases
    case 3
    let ?p = "parse_and_verify (sv_trace S) (w_now w) body (sv_master S) (sv_require_sealed S)"
    from 3 have b: "rq_body r = Some body" "length body \<le> max_trace_bytes"
      by (auto simp: read_max_def split: option.splits if_splits)
    have run: "(resp, w') = run_state (case ?p of (su, Some e) \<Rightarrow> upload_refused S r su e
        | (Some su, None) \<Rightarrow> index_trace S r body (org_id_from_context r) su
        | (None, None) \<Rightarrow> respond_error 400 ''trace missing run id'') w"
      using assms(2) 3 by (simp add: handle_upload_trace_def require_org_def clock_def)
    show ?thesis
    proof (cases ?p)
      case (Pair su e)
      show ?thesis
      proof (cases e)
        case (Some x)
        then have m: "run_state (upload_refused S r su x) w = (resp, w')" using run Pair by (cases su) auto
        have "rs_status resp \<noteq> 201"
          using m by (auto simp: upload_refused_def respond_error_def err split: if_splits prod.splits)
        then show ?thesis using refused stores.traces_same(4) m by blast
      next
        case None
        show ?thesis
        proof (cases su)
          case None
          with run Pair \<open>e = None\<close> have "resp = write_json_error 400 ''trace missing run id'' \<and> w' = w"
            by (simp add: respond_error_def)
          then show ?thesis by (auto simp: err same_world_def)
        next
          case (Some su')
          with run Pair None have "run_state (index_trace S r body (org_id_from_context r) su') w = (resp, w')" by simp
          from index_trace_effect [OF assms(1) this] show ?thesis
            using b Pair None Some
            by (auto simp: upload_of_def world_uploaded_def same_world_def idle_def split: if_splits)
        qed
      qed
    qed
  qed (use assms(2) in \<open>auto simp: handle_upload_trace_def require_org_def respond_error_def err same_world_def\<close>)
qed

section \<open>Deletions\<close>

definition world_deleted :: "string \<Rightarrow> string \<Rightarrow> world \<Rightarrow> world \<Rightarrow> bool" where
  "world_deleted org rid w w' \<longleftrightarrow>
     runs (w_db w') = filter (\<lambda>q. \<not> (r_org q = org \<and> r_id q = rid)) (runs (w_db w)) \<and> db_faults (w_db w') = [] \<and>
     (\<forall>k. w_blobs w' k = w_blobs w k \<or> (\<exists>q \<in> set (runs (w_db w)). r_org q = org \<and> r_id q = rid \<and> k = r_storage_key q))"

lemma delete_effect:
  assumes "db_faults (w_db w) = []" "run_state (handle_delete_trace S r) w = (resp, w')"
  shows "if org_id_from_context r = [] \<or>
      List.find (\<lambda>q. r_org q = org_id_from_context r \<and> r_id q = url_param ''runID'' r) (runs (w_db w)) = None
    then same_store w w' else world_deleted (org_id_from_context r) (url_param ''runID'' r) w w'"
proof (cases "org_id_from_context r = []")
  case True
  with assms(2) show ?thesis by (auto simp: handle_delete_trace_def require_org_def same_world_def)
next
  case False
  let ?org = "org_id_from_context r" and ?rid = "url_param ''runID'' r"
  show ?thesis
  proof (cases "List.find (\<lambda>q. r_org q = ?org \<and> r_id q = ?rid) (runs (w_db w))")
    case None
    with assms False have "w_db w' = w_db w \<and> w_blobs w' = w_blobs w"
      by (cases "w_db w")
        (auto simp: handle_delete_trace_def require_org_def db_call_def delete_run_def stmt_def respond_error_def Let_def)
    with None show ?thesis by (simp add: same_world_def)
  next
    case (Some q)
    from find_SomeD [OF Some] have q: "q \<in> set (runs (w_db w))" "r_org q = ?org" "r_id q = ?rid" by auto
    let ?w1 = "w\<lparr>w_db := (w_db w)\<lparr>runs := filter (\<lambda>q. \<not> (r_org q = ?org \<and> r_id q = ?rid)) (runs (w_db w))\<rparr>\<rparr>"
    have "delete_run ?org ?rid (w_db w) = (Inr (r_storage_key q), w_db ?w1)"
      using assms(1) Some by (cases "w_db w") (simp add: delete_run_def stmt_def Let_def)
    then have run: "(resp, w') = run_state (if r_storage_key q = [] then respond_error 404 ''run not found''
        else do { _ \<leftarrow> s3_delete (r_storage_key q);
                  audit_log S r ''trace.delete'' ''run'' ?rid None; State_Monad.return (no_content 204) }) ?w1"
      using assms(2) False by (simp add: handle_delete_trace_def require_org_def db_call_def)
    show ?thesis
    proof (cases "r_storage_key q = []")
      case True
      with run q assms(1) Some \<open>org_id_from_context r \<noteq> []\<close> show ?thesis by (auto simp: respond_error_def world_deleted_def)
    next
      case False
      let ?w2 = "snd (run_state (s3_delete (r_storage_key q)) ?w1)"
      have "leads same_store (do { audit_log S r ''trace.delete'' ''run'' ?rid None; State_Monad.return (no_content 204) })"
        by (auto intro!: stores.same_rules)
      moreover have "run_state (do { audit_log S r ''trace.delete'' ''run'' ?rid None;
          State_Monad.return (no_content 204) }) ?w2 = (resp, w')"
        using run False by (auto split: prod.splits)
      ultimately have "same_store ?w2 w'" by (rule same_store_run)
      with q assms(1) Some \<open>org_id_from_context r \<noteq> []\<close> show ?thesis
        by (auto simp: world_deleted_def same_world_def idle_def run_s3_delete Let_def)
    qed
  qed
qed

section \<open>Storage keys\<close>

lemma last_slash:
  assumes "c \<notin> set ys" "c \<notin> set ys'"
  shows "xs @ c # ys = xs' @ c # ys' \<longleftrightarrow> xs = xs' \<and> ys = ys'"
proof -
  have t: "takeWhile (\<lambda>x. x \<noteq> c) (rev (zs @ c # us)) = rev us" if "c \<notin> set us" for zs us
    using that by (simp add: takeWhile_tail) (auto simp: takeWhile_append2)
  show ?thesis using t [OF assms(1), of xs] t [OF assms(2), of xs'] by (metis append_same_eq list.inject rev_is_rev_conv same_append_eq)
qed

lemma valid_identifier_no_slash: "valid_identifier s \<Longrightarrow> CHR ''/'' \<notin> set s"
proof
  assume "valid_identifier s" "CHR ''/'' \<in> set s"
  then have "identifier_char (CHR ''/'')" by (auto simp: valid_identifier_def list_all_iff)
  moreover have "\<not> identifier_char (CHR ''/'')" by code_simp
  ultimately show False by contradiction
qed

lemma trace_key_inject:
  assumes "valid_identifier a" "valid_identifier i" "valid_identifier b" "valid_identifier j"
    and "trace_key g a i = trace_key h b j"
  shows "g = h \<and> a = b \<and> i = j"
proof -
  have s: "CHR ''/'' \<notin> set (i @ ''.trtrace.gz'')" "CHR ''/'' \<notin> set (j @ ''.trtrace.gz'')"
    using valid_identifier_no_slash [OF assms(2)] valid_identifier_no_slash [OF assms(4)] by auto
  have "(g @ CHR ''/'' # a) @ CHR ''/'' # (i @ ''.trtrace.gz'') = (h @ CHR ''/'' # b) @ CHR ''/'' # (j @ ''.trtrace.gz'')"
    using assms(5) by (simp add: trace_key_def)
  then have "g @ CHR ''/'' # a = h @ CHR ''/'' # b" "i = j" unfolding last_slash [OF s] by auto
  then show ?thesis
    using last_slash [OF valid_identifier_no_slash [OF assms(1)] valid_identifier_no_slash [OF assms(3)], of g h] by auto
qed

section \<open>Every indexed run is backed\<close>

definition index_agrees :: "summary \<Rightarrow> run \<Rightarrow> bool" where
  "index_agrees su q \<longleftrightarrow> r_id q = su_run_id su \<and> r_policy_hash q = su_policy_hash su \<and>
     r_actions_total q = int (su_actions_total su) \<and> r_actions_allowed q = int (su_actions_allowed su) \<and>
     r_actions_denied q = int (su_actions_denied su) \<and> r_integrity_chain q = su_has_chain su \<and>
     r_chain_verified q = su_chain_verified su \<and> r_truncated q = su_truncated su"

definition run_backed :: "server \<Rightarrow> (string \<rightharpoonup> string) \<Rightarrow> run \<Rightarrow> bool" where
  "run_backed S blobs q \<longleftrightarrow> valid_identifier (r_agent_name q) \<and> valid_identifier (r_id q) \<and>
     r_storage_key q = trace_key (r_org q) (r_agent_name q) (r_id q) \<and>
     (\<exists>body now su. blobs (r_storage_key q) = Some body \<and>
        parse_and_verify (sv_trace S) now body (sv_master S) (sv_require_sealed S) = (Some su, None) \<and> index_agrees su q)"

definition store_ok :: "server \<Rightarrow> world \<Rightarrow> bool" where
  "store_ok S w \<longleftrightarrow> db_faults (w_db w) = [] \<and> (\<forall>q \<in> set (runs (w_db w)). run_backed S (w_blobs w) q)"

lemma run_backed_cong:
  assumes "blobs' (r_storage_key q) = blobs (r_storage_key q)"
  shows "run_backed S blobs q \<Longrightarrow> run_backed S blobs' q"
  unfolding run_backed_def assms .

lemma backed_key_inject:
  assumes "run_backed S blobs p" "run_backed S blobs' q" "r_storage_key p = r_storage_key q"
  shows "r_org p = r_org q \<and> r_id p = r_id q"
  using assms trace_key_inject by (metis run_backed_def)

lemma sanitize_valid: "sanitize_identifier s fb \<noteq> fb \<Longrightarrow> valid_identifier (sanitize_identifier s fb)"
  by (simp add: sanitize_identifier_def split: if_splits)

lemma trace_agent_valid: "valid_identifier (trace_agent r su)"
proof -
  have "valid_identifier ''unknown''" by code_simp
  then show ?thesis by (auto simp: trace_agent_def Let_def sanitize_identifier_def)
qed

lemma upload_backed:
  assumes "upload_of S r body now q"
  shows "run_backed S (blobs(r_storage_key q \<mapsto> body)) (stored_run q)"
proof -
  from assms obtain su where su: "parse_and_verify (sv_trace S) now body (sv_master S) (sv_require_sealed S) = (Some su, None)"
    "sanitize_identifier (su_run_id su) [] \<noteq> []" "q = run_of_summary r (org_id_from_context r) (now + 30 * day_nanos) su"
    by (auto simp: upload_of_def)
  have "valid_identifier (su_run_id su)" using su(2) by (simp add: sanitize_identifier_def split: if_splits)
  with su trace_agent_valid [of r su] show ?thesis
    by (auto simp: run_backed_def stored_run_def run_of_summary_def index_agrees_def)
qed

lemma same_store_ok: "same_store w w' \<Longrightarrow> store_ok S w \<Longrightarrow> store_ok S w'"
  by (auto simp: same_world_def idle_def store_ok_def)

lemma uploaded_ok:
  assumes "upload_of S r body now q" "world_uploaded q body w w'" "store_ok S w"
  shows "store_ok S w'"
proof -
  have new: "run_backed S (w_blobs w') (stored_run q)"
    using upload_backed [OF assms(1)] assms(2) by (simp add: world_uploaded_def)
  have old: "run_backed S (w_blobs w') p" if p: "p \<in> set (runs (w_db w))" for p
  proof -
    from p assms(3) have b: "run_backed S (w_blobs w) p" by (simp add: store_ok_def)
    have "r_storage_key p \<noteq> r_storage_key q"
    proof
      assume "r_storage_key p = r_storage_key q"
      then have "r_storage_key p = r_storage_key (stored_run q)" by (simp add: stored_run_def)
      from backed_key_inject [OF b new this] have "same_run q p" by (simp add: same_run_def stored_run_def)
      with p assms(2) show False by (auto simp: world_uploaded_def list_ex_iff)
    qed
    with assms(2) show ?thesis by (intro run_backed_cong [OF _ b]) (simp add: world_uploaded_def)
  qed
  from new old assms(2) show ?thesis by (auto simp: store_ok_def world_uploaded_def)
qed

text \<open>Removing rows and their objects keeps the rest backed, when rows of one key go together.\<close>

lemma removed_ok:
  assumes "store_ok S w" "runs (w_db w') = filter P (runs (w_db w))" "db_faults (w_db w') = []"
    and "\<And>k. w_blobs w' k = w_blobs w k \<or> (\<exists>q \<in> set (runs (w_db w)). \<not> P q \<and> k = r_storage_key q)"
    and "\<And>p q. P p \<Longrightarrow> r_org p = r_org q \<Longrightarrow> r_id p = r_id q \<Longrightarrow> P q"
  shows "store_ok S w'"
proof -
  have "run_backed S (w_blobs w') p" if p: "p \<in> set (runs (w_db w))" "P p" for p
  proof -
    from p assms(1) have b: "run_backed S (w_blobs w) p" by (simp add: store_ok_def)
    have "\<not> (\<exists>q \<in> set (runs (w_db w)). \<not> P q \<and> r_storage_key p = r_storage_key q)"
      using backed_key_inject [OF b] assms(1,5) p(2) by (metis store_ok_def)
    with assms(4) have "w_blobs w' (r_storage_key p) = w_blobs w (r_storage_key p)" by blast
    with b show ?thesis by (rule run_backed_cong [rotated])
  qed
  with assms(2,3) show ?thesis by (simp add: store_ok_def)
qed

lemma deleted_ok: "world_deleted org rid w w' \<Longrightarrow> store_ok S w \<Longrightarrow> store_ok S w'"
  by (erule removed_ok [where P = "\<lambda>q. \<not> (r_org q = org \<and> r_id q = rid)"]) (auto simp: world_deleted_def)

lemma swept_ok:
  assumes "store_ok S w" "run_state (sweep locked wk) w = (wk', w')"
  shows "store_ok S w'"
proof -
  let ?ids = "reaped_ids locked (w_now w) (rc_batch_size (rw_cfg wk)) (runs (w_db w))"
  have nf: "db_faults (w_db w) = []" using assms(1) by (simp add: store_ok_def)
  from sweep_effect [OF nf assms(2)] show ?thesis
    by (intro removed_ok [OF assms(1), where P = "\<lambda>r. r_id r \<notin> ?ids"]) (auto simp: objects_gone_def nf)
qed

lemma handler_store_ok:
  assumes "store_ok S w"
  shows "store_ok S (snd (run_state (route_handler S rt r) w))"
proof (cases "run_state (route_handler S rt r) w")
  case (Pair resp w')
  have nf: "db_faults (w_db w) = []" using assms by (simp add: store_ok_def)
  consider "rt = UploadTrace" | "rt = DeleteTrace" | "rt \<noteq> UploadTrace" "rt \<noteq> DeleteTrace" by blast
  then have "store_ok S w'"
  proof cases
    case 1
    with Pair have "run_state (handle_upload_trace S r) w = (resp, w')" by simp
    from upload_effect [OF nf this] show ?thesis
      using uploaded_ok [OF _ _ assms] same_store_ok [OF _ assms] by (metis (no_types, lifting))
  next
    case 2
    with Pair have "run_state (handle_delete_trace S r) w = (resp, w')" by simp
    from delete_effect [OF nf this] show ?thesis using deleted_ok same_store_ok assms by (auto split: if_splits)
  next
    case 3
    from same_store_run [OF stores.route_same [OF 3] Pair] assms show ?thesis by (rule same_store_ok)
  qed
  with Pair show ?thesis by simp
qed

text \<open>
  The platform at work: requests to the protected routes, sweeps of the retention worker, and what
  happens outside: time passes, ids and random bytes are drawn, calls to the bucket fail.
\<close>

inductive platform_run :: "server \<Rightarrow> world \<Rightarrow> world \<Rightarrow> bool" for S w where
  at_start: "platform_run S w w"
| request: "platform_run S w w1 \<Longrightarrow> platform_run S w (snd (protected_route S rt r w1))"
| swept: "platform_run S w w1 \<Longrightarrow> platform_run S w (snd (run_state (sweep locked wk) w1))"
| outside: "platform_run S w w1 \<Longrightarrow> platform_run S w
    (w1\<lparr>w_now := t, w_s3_faults := fs, w_rand := bs,
        w_db := (w_db w1)\<lparr>db_now := t, db_ids := ids, db_random := rs\<rparr>\<rparr>)"

lemma request_store_ok:
  assumes "store_ok S w"
  shows "store_ok S (snd (protected_route S rt r w))"
proof (cases "\<exists>r' w'. authenticated (api_validate S) (api_verify S) r w r' w'")
  case True
  then obtain r' w' where au: "authenticated (api_validate S) (api_verify S) r w r' w'" by blast
  have v: "same_store w (snd (api_validate S token w))" for token
    by (rule stores.validate_same)
  have "same_store w w'" using au v stores.world.I_refl by cases (metis snd_conv)+
  then have "store_ok S w'" using assms by (rule same_store_ok)
  then show ?thesis
    using authenticated_passes [OF au, of "\<lambda>r. run_state (route_handler S rt r)"] handler_store_ok
    by (simp add: protected_route_def)
next
  case False
  then obtain msg w' where m: "\<forall>nxt. auth_middleware (api_validate S) (api_verify S) nxt r w = (write_json_error 401 msg, w')"
    using unauthenticated_refused by metis
  have "auth_middleware (api_validate S) (api_verify S) (\<lambda>r w. (reply 200 JNull, w)) r w = (write_json_error 401 msg, w')"
    using m by blast
  then have "w' = w \<or> (\<exists>token. w' = snd (api_validate S token w))"
    by (auto simp: auth_middleware_def Let_def write_json_error_def reply_def
        split: if_splits list.splits sum.splits prod.splits) (metis snd_conv)+
  then have "same_store w w'"
    using stores.validate_same stores.world.I_refl by blast
  then have "store_ok S w'" using assms by (rule same_store_ok)
  moreover have "protected_route S rt r w = (write_json_error 401 msg, w')"
    unfolding protected_route_def using m by blast
  ultimately show ?thesis by simp
qed

lemma platform_store_ok: "platform_run S w w' \<Longrightarrow> store_ok S w \<Longrightarrow> store_ok S w'"
proof (induction rule: platform_run.induct)
  case (swept w1 locked wk)
  then show ?case using swept_ok by (metis prod.collapse)
next
  case (outside w1 t fs bs ids rs)
  then show ?case by (simp add: store_ok_def)
qed (auto intro: request_store_ok)


lemma find_new_run:
  assumes "\<not> list_ex (same_run q) rows"
  shows "List.find (\<lambda>x. r_org x = r_org q \<and> r_id x = r_id q) (rows @ [stored_run q]) = Some (stored_run q)"
proof -
  have "List.find (\<lambda>x. r_org x = r_org q \<and> r_id x = r_id q) rows = None"
    using assms by (auto simp: find_None_iff list_ex_iff same_run_def)
  then show ?thesis by (simp add: find_append stored_run_def)
qed

lemma uploaded_serves:
  assumes "upload_of S r body now q" "world_uploaded q body w w'" "w_s3_faults w' = []" "org_id_from_context r \<noteq> []"
    and "org_id_from_context r2 = org_id_from_context r" "url_param ''runID'' r2 = r_id q" "query_get ''inline'' r2 = ''1''"
  shows "rs_status (fst (run_state (handle_get_trace_events S r2) w')) = 200 \<and>
    rs_body (fst (run_state (handle_get_trace_events S r2) w')) = JRaw body"
proof -
  have q: "r_org q = org_id_from_context r" using assms(1) by (auto simp: upload_of_def run_of_summary_def)
  have db: "runs (w_db w') = runs (w_db w) @ [stored_run q]" "db_faults (w_db w') = []"
    "w_blobs w' (r_storage_key q) = Some body" and new: "\<not> list_ex (same_run q) (runs (w_db w))"
    using assms(2) by (auto simp: world_uploaded_def)
  have "get_run (r_org q) (r_id q) (w_db w') = (Inr (Some (stored_run q)), w_db w')"
    using db(2) find_new_run [OF new, folded db(1)] by (cases "w_db w'") (simp add: get_run_def with_ctx_def select_def stmt_def)
  then show ?thesis
    using assms(3-7) q db(3)
    by (simp add: handle_get_trace_events_def require_org_def db_call_def s3_download_def s3_call_def wrap_error_def stored_run_def)
qed

text \<open>
  C11. An upload is all or nothing, and what it stores it serves: while the database answers, either the
  response is 201, the run of the parsed body is a new row of the index, the body is in the bucket under
  its key and a download of that run by the same organization returns exactly the body; or neither the
  index nor the bucket has changed, whatever the bucket did.
\<close>

theorem upload_all_or_nothing:
  assumes "db_faults (w_db w) = []" and "run_state (handle_upload_trace S r) w = (resp, w')"
  shows "if rs_status resp = 201
    then \<exists>q body. upload_of S r body (w_now w) q \<and> runs (w_db w') = runs (w_db w) @ [stored_run q] \<and>
      w_blobs w' = (w_blobs w)(r_storage_key q \<mapsto> body) \<and>
      (\<forall>r2. w_s3_faults w' = [] \<and> org_id_from_context r2 = org_id_from_context r \<and> url_param ''runID'' r2 = r_id q \<and>
         query_get ''inline'' r2 = ''1'' \<longrightarrow>
         rs_status (fst (run_state (handle_get_trace_events S r2) w')) = 200 \<and>
         rs_body (fst (run_state (handle_get_trace_events S r2) w')) = JRaw body)
    else runs (w_db w') = runs (w_db w) \<and> w_blobs w' = w_blobs w"
proof (cases "rs_status resp = 201")
  case True
  have org: "org_id_from_context r \<noteq> []"
    using assms(2) True by (auto simp: handle_upload_trace_def require_org_def write_json_error_def reply_def split: if_splits)
  from upload_effect [OF assms] True obtain q body where up: "upload_of S r body (w_now w) q" "world_uploaded q body w w'" by auto
  with True uploaded_serves [OF up _ org] show ?thesis
    by (intro iffD2 [OF if_P] exI [of _ q] exI [of _ body]) (auto simp: world_uploaded_def)
qed (use upload_effect [OF assms] in \<open>auto simp: same_world_def idle_def\<close>)

text \<open>A trace of one denied action, uploaded with a session token of organization \<open>b\<close>.\<close>

definition demo_start :: string where
  "demo_start = jq ''{`t`:`run`,`run`:`r1`,`status`:`start`}''"

definition demo_denied :: string where
  "demo_denied = jq ''{`t`:`action`,`run`:`r1`,`auth`:`deny`}''"

definition demo_trace :: string where
  "demo_trace = demo_start @ newline @ demo_denied @ newline"

definition demo_summary :: "int \<Rightarrow> summary" where
  "demo_summary now = new_summary\<lparr>su_run_id := ''r1'', su_started_at := now, su_actions_total := 1,
     su_actions_denied := 1, su_event_count := 2, su_has_chain := False\<rparr>"

lemma demo_members:
  "raw_members demo_start = Some [(''t'', jq ''`run`''), (''run'', jq ''`r1`''), (''status'', jq ''`start`'')]"
  "raw_members demo_denied = Some [(''t'', jq ''`action`''), (''run'', jq ''`r1`''), (''auth'', jq ''`deny`'')]"
  "raw_string (jq ''`action`'') = Some ''action''" "raw_string (jq ''`run`'') = Some ''run''"
  "raw_string (jq ''`r1`'') = Some ''r1''" "raw_string (jq ''`start`'') = Some ''start''"
  "raw_string (jq ''`deny`'') = Some ''deny''"
  by code_simp+

lemma demo_lines:
  "scan_segments demo_trace = [demo_start, demo_denied]" "length demo_start = 39" "length demo_denied = 39"
  "drop_cr demo_start = demo_start" "drop_cr demo_denied = demo_denied"
  by code_simp+

lemma demo_parsed:
  "parse_and_verify demo_traces now demo_trace [] False = (Some (demo_summary now), None)"
proof -
  define st1 where "st1 = initial_state\<lparr>ps_summary := new_summary\<lparr>su_event_count := 1, su_run_id := ''r1''\<rparr>\<rparr>"
  define st2 where "st2 = initial_state\<lparr>ps_summary := demo_summary zero_time, ps_saw_action := True\<rparr>"
  have ne: "demo_start \<noteq> []" "demo_denied \<noteq> []" using demo_lines by auto
  have start: "parse_line demo_traces False demo_start initial_state = st1"
    by (simp add: parse_line_def demo_members go_map_def string_field_def apply_run_event_def apply_run_start_def
        start_time_def initial_state_def new_summary_def Let_def st1_def)
  have denied: "parse_line demo_traces False demo_denied st1 = st2"
    by (simp add: parse_line_def demo_members go_map_def string_field_def apply_action_event_def
        is_denied_verdict_def initial_state_def new_summary_def demo_summary_def Let_def st1_def st2_def)
  have counts: "su_event_count (ps_summary initial_state) = 0" "su_event_count (ps_summary st1) = 1"
    by (simp_all add: initial_state_def new_summary_def st1_def)
  have "scan_loop demo_traces False (scan_segments demo_trace) initial_state = (st2, ScanDone)"
    using ne counts by (simp add: demo_lines max_event_size_def max_events_def start denied)
  moreover have "close_scan now None st2 = Inr (demo_summary now)"
    by (simp add: close_scan_def st2_def demo_summary_def new_summary_def Let_def)
  moreover have "gunzip demo_traces demo_trace = Inr (demo_trace, None)" by (simp add: demo_traces_def)
  ultimately show ?thesis by (simp add: parse_and_verify_def parse_trace_def check_chain_def)
qed

definition demo_upload :: request where
  "demo_upload = bare_request\<lparr>rq_headers := [(''Authorization'', ''Bearer '' @ demo_token)],
     rq_body := Some demo_trace, rq_ctx_org := ''b'', rq_ctx_user := ''u''\<rparr>"

definition demo_indexed :: run where
  "demo_indexed = stored_run (run_of_summary demo_upload ''b'' (30 * day_nanos) (demo_summary 0))"

lemma demo_uploaded:
  "rs_status (fst (run_state (handle_upload_trace demo_server demo_upload) demo_world)) = 201"
  "runs (w_db (snd (run_state (handle_upload_trace demo_server demo_upload) demo_world))) = [demo_indexed]"
proof -
  let ?st = "run_state (handle_upload_trace demo_server demo_upload) demo_world"
  have nf: "db_faults (w_db demo_world) = []" by (simp add: demo_world_def demo_db_def empty_db_def)
  have len: "length demo_trace \<le> max_trace_bytes" by (simp add: demo_trace_def demo_lines max_trace_bytes_def newline_def)
  let ?q = "run_of_summary demo_upload ''b'' (30 * day_nanos) (demo_summary 0)"
  have idx: "?st = run_state (index_trace demo_server demo_upload demo_trace ''b'' (demo_summary 0)) demo_world"
    using len by (simp add: handle_upload_trace_def require_org_def demo_upload_def bare_request_def read_max_def
        clock_def demo_server_def demo_world_def demo_parsed org_id_from_context_def)
  have ident: "sanitize_identifier (su_run_id (demo_summary 0)) [] \<noteq> []" by code_simp
  have ins: "insert_run ?q demo_db = (Inr (), demo_db\<lparr>runs := [stored_run ?q]\<rparr>)"
    by (simp add: insert_run_def stmt_def stored_run_def demo_db_def empty_db_def int4_opt_def int4_def
        org_exists_def demo_org_def run_of_summary_def demo_summary_def new_summary_def)
  have st: "rs_status (fst ?st) = 201"
    unfolding idx using ident ins
    by (auto simp: index_trace_def Let_def clock_def db_call_def s3_upload_bytes_def s3_upload_def s3_call_def
        wrap_error_def demo_world_def upload_accepted_def respond_def reply_def split: prod.splits)
  show "rs_status (fst ?st) = 201" by (rule st)
  obtain resp w' where e: "?st = (resp, w')" by (cases ?st) auto
  from index_trace_effect [OF nf e [unfolded idx]] st e
  show "runs (w_db (snd ?st)) = [demo_indexed]"
    by (auto simp: demo_indexed_def demo_world_def demo_db_def empty_db_def same_world_def idle_def)
qed

lemma upload_all_or_nothing_witness:
  "\<exists>q body. upload_of demo_server demo_upload body 0 q \<and>
     runs (w_db (snd (run_state (handle_upload_trace demo_server demo_upload) demo_world))) = [stored_run q]"
proof -
  obtain resp w' where e: "run_state (handle_upload_trace demo_server demo_upload) demo_world = (resp, w')"
    by (cases "run_state (handle_upload_trace demo_server demo_upload) demo_world") auto
  have nf: "db_faults (w_db demo_world) = []" by (simp add: demo_world_def demo_db_def empty_db_def)
  from upload_all_or_nothing [OF nf e] demo_uploaded(1) e show ?thesis
    by (auto simp: demo_world_def demo_db_def empty_db_def)
qed

lemma demo_upload_authenticated:
  "authenticated (api_validate demo_server) (api_verify demo_server) demo_upload demo_world demo_upload demo_world"
proof -
  have h: "header_get ''Authorization'' demo_upload = ''Bearer'' @ CHR '' '' # demo_token"
    by (simp add: header_get_def demo_upload_def equal_fold_def)
  have p: "\<not> has_prefix demo_token ''rk_''"
    by (simp add: demo_token_def toy_field_def quote_json_char_def)
  have v: "api_verify demo_server demo_token demo_world = Inr \<lparr>cl_user = ''u'', cl_org = ''b'', cl_email = ''e''\<rparr>"
    by (simp add: api_verify_def demo_server_def demo_local_def local_verify_def demo_auth_def demo_token_def
        toy_claims_fields claims_of_def claim_string_def metadata_org_def go_map_def)
  have f: "equal_fold ''Bearer'' ''Bearer''" by (simp add: equal_fold_def)
  from by_token [OF h f p, where validate = "api_validate demo_server" and verify = "api_verify demo_server", OF v]
  show ?thesis by (simp add: demo_upload_def bare_request_def)
qed


end
