(* ===== verification/Trace_Races.thy ===== *)
theory Trace_Races
  imports Trace_Store
begin

text \<open>
  Uploads, deletions and sweeps that interleave. \<open>Trace_Store\<close> takes requests one at a time; here every
  call that touches the \<open>runs\<close> table or the bucket is a step of its own, and between two calls of one
  goroutine any other may run. What is left of a request after its first statement is a task.
\<close>

section \<open>Requests in flight\<close>

text \<open>
  \<open>Storing\<close> is an upload whose row is in and whose object is not, \<open>RollingBack\<close> one whose object was
  refused, and \<open>Erasing\<close> a deletion or a sweep's goroutine whose row is gone and whose object is not.
\<close>

datatype task =
  Storing run string
| RollingBack string string
| Erasing string

primrec task_step :: "task \<Rightarrow> task list act" where
  "task_step (Storing q body) = do {
     up \<leftarrow> s3_upload_bytes (r_storage_key q) body;
     State_Monad.return (case up of Inl e \<Rightarrow> [RollingBack (r_org q) (r_id q)] | Inr _ \<Rightarrow> []) }"
| "task_step (RollingBack org rid) = do { _ \<leftarrow> db_call (delete_run org rid); State_Monad.return [] }"
| "task_step (Erasing key) = do { _ \<leftarrow> s3_delete key; State_Monad.return [] }"

definition open_upload :: "run \<Rightarrow> string \<Rightarrow> task list act" where
  "open_upload q body = do {
     ins \<leftarrow> db_call (insert_run q);
     State_Monad.return (case ins of Inl e \<Rightarrow> [] | Inr _ \<Rightarrow> [Storing q body]) }"

definition open_delete :: "string \<Rightarrow> string \<Rightarrow> task list act" where
  "open_delete org rid = do {
     res \<leftarrow> db_call (delete_run org rid);
     State_Monad.return (case res of Inl e \<Rightarrow> [] | Inr key \<Rightarrow> if key = [] then [] else [Erasing key]) }"

text \<open>A sweep starts one goroutine for each reaped row that has an object.\<close>

definition open_sweep :: "(run \<Rightarrow> bool) \<Rightarrow> int \<Rightarrow> int \<Rightarrow> task list act" where
  "open_sweep locked cutoff batch = do {
     res \<leftarrow> db_call (reap_expired_runs locked cutoff batch);
     State_Monad.return (case res of Inl e \<Rightarrow> []
       | Inr expired \<Rightarrow> map Erasing (filter (\<lambda>k. k \<noteq> []) (map er_storage_key expired))) }"

text \<open>The log names every run whose row was ever inserted.\<close>

record site =
  st_world :: world
  st_tasks :: "task list"
  st_log :: "(string \<times> string) list"

definition run_name :: "run \<Rightarrow> string \<times> string" where
  "run_name q = (r_org q, r_id q)"

primrec inserted_by :: "task \<Rightarrow> (string \<times> string) list" where
  "inserted_by (Storing q body) = [run_name q]"
| "inserted_by (RollingBack org rid) = []"
| "inserted_by (Erasing key) = []"

definition opened :: "task list act \<Rightarrow> site \<Rightarrow> site" where
  "opened m z = (case run_state m (st_world z) of
     (ts, w) \<Rightarrow> \<lparr>st_world = w, st_tasks = st_tasks z @ ts, st_log = st_log z @ concat (map inserted_by ts)\<rparr>)"

definition proceed :: "nat \<Rightarrow> site \<Rightarrow> site" where
  "proceed k z = (case run_state (task_step (st_tasks z ! k)) (st_world z) of
     (ts, w) \<Rightarrow> z\<lparr>st_world := w, st_tasks := take k (st_tasks z) @ ts @ drop (Suc k) (st_tasks z)\<rparr>)"

text \<open>
  Every schedule: requests begin, tasks proceed in any order, and anything else happens between that
  leaves the table and the bucket alone, as all other handlers do (\<open>stores.route_same\<close>).
\<close>

inductive schedule :: "server \<Rightarrow> site \<Rightarrow> site \<Rightarrow> bool" for S z where
  idle_site: "schedule S z z"
| upload_begins: "schedule S z a \<Longrightarrow> upload_of S r body now q \<Longrightarrow> schedule S z (opened (open_upload q body) a)"
| delete_begins: "schedule S z a \<Longrightarrow> schedule S z (opened (open_delete org rid) a)"
| sweep_begins: "schedule S z a \<Longrightarrow> schedule S z (opened (open_sweep locked t l) a)"
| task_proceeds: "schedule S z a \<Longrightarrow> k < length (st_tasks a) \<Longrightarrow> schedule S z (proceed k a)"
| elsewhere: "schedule S z a \<Longrightarrow> same_store (st_world a) w \<Longrightarrow> schedule S z (a\<lparr>st_world := w\<rparr>)"

definition quiet :: "world \<Rightarrow> site" where
  "quiet w = \<lparr>st_world = w, st_tasks = [], st_log = []\<rparr>"

section \<open>The invariant of all schedules\<close>

definition keyed :: "run \<Rightarrow> bool" where
  "keyed q \<longleftrightarrow> valid_identifier (r_agent_name q) \<and> valid_identifier (r_id q) \<and>
     r_storage_key q = trace_key (r_org q) (r_agent_name q) (r_id q)"

lemma keyed_inject: "keyed p \<Longrightarrow> keyed q \<Longrightarrow> r_storage_key p = r_storage_key q \<Longrightarrow> run_name p = run_name q"
  using trace_key_inject by (metis keyed_def run_name_def)

lemma stored_run_simps [simp]:
  "r_storage_key (stored_run q) = r_storage_key q" "run_name (stored_run q) = run_name q"
  "keyed (stored_run q) = keyed q"
  by (simp_all add: stored_run_def run_name_def keyed_def)

lemma upload_keyed: "upload_of S r body now q \<Longrightarrow> keyed q"
  using upload_backed [of S r body now q] by (simp add: run_backed_def keyed_def stored_run_def)

text \<open>An upload of this run is on its way: its object is to come, or its row is to go.\<close>

definition in_flight :: "task list \<Rightarrow> run \<Rightarrow> bool" where
  "in_flight ts q \<longleftrightarrow> (\<exists>p body. Storing p body \<in> set ts \<and> stored_run p = q) \<or> RollingBack (r_org q) (r_id q) \<in> set ts"

definition row_ok :: "server \<Rightarrow> site \<Rightarrow> run \<Rightarrow> bool" where
  "row_ok S z q \<longleftrightarrow> keyed q \<and> run_name q \<in> set (st_log z) \<and>
     (run_backed S (w_blobs (st_world z)) q \<or> in_flight (st_tasks z) q)"

primrec task_ok :: "server \<Rightarrow> site \<Rightarrow> task \<Rightarrow> bool" where
  "task_ok S z (Storing p body) \<longleftrightarrow> (\<exists>r now. upload_of S r body now p) \<and> run_name p \<in> set (st_log z) \<and>
     (\<forall>q \<in> set (runs (w_db (st_world z))). run_name q = run_name p \<longrightarrow> q = stored_run p)"
| "task_ok S z (RollingBack org rid) \<longleftrightarrow> True"
| "task_ok S z (Erasing key) \<longleftrightarrow>
     (\<exists>p. keyed p \<and> run_name p \<in> set (st_log z) \<and> r_storage_key p = key \<and>
       (\<forall>q \<in> set (runs (w_db (st_world z))). run_name q \<noteq> run_name p))"

definition site_ok :: "server \<Rightarrow> site \<Rightarrow> bool" where
  "site_ok S z \<longleftrightarrow> db_faults (w_db (st_world z)) = [] \<and>
     (\<forall>q \<in> set (runs (w_db (st_world z))). row_ok S z q) \<and> (\<forall>t \<in> set (st_tasks z). task_ok S z t)"

lemma site_okD:
  assumes "site_ok S z"
  shows "db_faults (w_db (st_world z)) = []" "q \<in> set (runs (w_db (st_world z))) \<Longrightarrow> row_ok S z q"
    "t \<in> set (st_tasks z) \<Longrightarrow> task_ok S z t"
  using assms by (auto simp: site_ok_def)

lemma task_ok_mono:
  assumes "task_ok S z t" "set (runs (w_db (st_world z'))) \<subseteq> set (runs (w_db (st_world z)))"
    "set (st_log z) \<subseteq> set (st_log z')"
  shows "task_ok S z' t"
proof (cases t)
  case (Erasing key)
  with assms(1) obtain p where "keyed p" "run_name p \<in> set (st_log z)" "r_storage_key p = key"
    "\<forall>q \<in> set (runs (w_db (st_world z))). run_name q \<noteq> run_name p" by auto
  with assms(2,3) show ?thesis unfolding Erasing task_ok.simps by (intro exI [of _ p]) auto
qed (use assms in auto)

text \<open>A step that inserts no row: what remains to be shown of the rows it leaves and of its new tasks.\<close>

lemma site_ok_shrink:
  assumes "site_ok S z" and "set (runs (w_db (st_world z'))) \<subseteq> set (runs (w_db (st_world z)))"
    and "db_faults (w_db (st_world z')) = []" and "st_log z' = st_log z"
    and "\<And>q. q \<in> set (runs (w_db (st_world z'))) \<Longrightarrow> row_ok S z q \<Longrightarrow>
      run_backed S (w_blobs (st_world z')) q \<or> in_flight (st_tasks z') q"
    and "\<And>t. t \<in> set (st_tasks z') \<Longrightarrow> t \<notin> set (st_tasks z) \<Longrightarrow> task_ok S z' t"
  shows "site_ok S z'"
  unfolding site_ok_def
proof (intro conjI ballI)
  fix q assume q: "q \<in> set (runs (w_db (st_world z')))"
  with site_okD(2) [OF assms(1)] assms(2) have ok: "row_ok S z q" by blast
  with assms(5) [OF q] assms(4) show "row_ok S z' q" by (simp add: row_ok_def)
next
  fix t assume t: "t \<in> set (st_tasks z')"
  show "task_ok S z' t"
  proof (cases "t \<in> set (st_tasks z)")
    case True
    from task_ok_mono [OF site_okD(3) [OF assms(1) this] assms(2)] assms(4) show ?thesis by simp
  qed (rule assms(6) [OF t])
qed (rule assms(3))

lemma in_flight_mono: "in_flight ts q \<Longrightarrow> set ts \<subseteq> set us \<Longrightarrow> in_flight us q"
  by (auto simp: in_flight_def)

text \<open>Rows leave the table, all of one name together, and their keys become tasks.\<close>

lemma rows_leave_ok:
  assumes ok: "site_ok S z" and "runs (w_db w) = filter P (runs (w_db (st_world z)))" and "db_faults (w_db w) = []"
    and "w_blobs w = w_blobs (st_world z)" and "\<And>p q. P p \<Longrightarrow> run_name p = run_name q \<Longrightarrow> P q"
    and "\<And>t. t \<in> set ts \<Longrightarrow> \<exists>q \<in> set (runs (w_db (st_world z))). \<not> P q \<and> t = Erasing (r_storage_key q)"
  shows "site_ok S \<lparr>st_world = w, st_tasks = st_tasks z @ ts, st_log = st_log z\<rparr>" (is "site_ok S ?z")
proof (rule site_ok_shrink [OF ok])
  show "run_backed S (w_blobs (st_world ?z)) q \<or> in_flight (st_tasks ?z) q" if "row_ok S z q" for q
    using that assms(4) in_flight_mono [of "st_tasks z" q "st_tasks z @ ts"] by (auto simp: row_ok_def)
  show "task_ok S ?z t" if t: "t \<in> set (st_tasks ?z)" "t \<notin> set (st_tasks z)" for t
  proof -
    from t assms(6) obtain q where q: "q \<in> set (runs (w_db (st_world z)))" "\<not> P q" "t = Erasing (r_storage_key q)" by auto
    have "run_name p \<noteq> run_name q" if "p \<in> set (runs (w_db w))" for p
      using that assms(2,5) q(2) by auto
    moreover have "keyed q" "run_name q \<in> set (st_log z)" using site_okD(2) [OF ok q(1)] by (simp_all add: row_ok_def)
    ultimately show ?thesis using q(3) by auto
  qed
qed (use assms in auto)

lemma run_db_call: "run_state (db_call oper) w = (case oper (w_db w) of (x, d) \<Rightarrow> (x, w\<lparr>w_db := d\<rparr>))"
  by (simp add: db_call_def)

lemma delete_run_effect:
  assumes "db_faults s = []"
  shows "snd (delete_run org rid s) = s\<lparr>runs := filter (\<lambda>q. \<not> (r_org q = org \<and> r_id q = rid)) (runs s)\<rparr>"
    "fst (delete_run org rid s) = Inr key \<Longrightarrow> key \<noteq> [] \<Longrightarrow>
      \<exists>q \<in> set (runs s). r_org q = org \<and> r_id q = rid \<and> r_storage_key q = key"
  using assms
  by (cases s; auto simp: delete_run_def stmt_def Let_def find_None_iff dest!: find_SomeD split: option.splits
      intro!: filter_True [symmetric])+

lemma opened_delete_ok:
  assumes "site_ok S z"
  shows "site_ok S (opened (open_delete org rid) z)"
proof -
  let ?P = "\<lambda>q. \<not> (r_org q = org \<and> r_id q = rid)"
  let ?d = "delete_run org rid (w_db (st_world z))"
  note eff = delete_run_effect [OF site_okD(1) [OF assms], of org rid]
  let ?ts = "case fst ?d of Inl e \<Rightarrow> [] | Inr key \<Rightarrow> if key = [] then [] else [Erasing key]"
  have "opened (open_delete org rid) z =
      \<lparr>st_world = (st_world z)\<lparr>w_db := snd ?d\<rparr>, st_tasks = st_tasks z @ ?ts, st_log = st_log z\<rparr>"
    by (auto simp: opened_def open_delete_def run_db_call split: prod.splits sum.splits)
  moreover have "site_ok S \<dots>"
  proof (rule rows_leave_ok [OF assms, where P = ?P])
    fix t assume "t \<in> set ?ts"
    then obtain key where "fst ?d = Inr key" "key \<noteq> []" "t = Erasing key" by (cases "fst ?d") (auto split: if_splits)
    with eff(2) [of key] show "\<exists>q \<in> set (runs (w_db (st_world z))). \<not> ?P q \<and> t = Erasing (r_storage_key q)" by blast
  qed (auto simp: eff(1) run_name_def site_okD(1) [OF assms])
  ultimately show ?thesis by simp
qed

lemma opened_sweep_ok:
  assumes "site_ok S z"
  shows "site_ok S (opened (open_sweep locked t l) z)"
proof -
  let ?rows = "runs (w_db (st_world z))" and ?ids = "reaped_ids locked t l (runs (w_db (st_world z)))"
  note reaped = reap_result [OF site_okD(1) [OF assms], of locked t l]
  let ?ts = "map Erasing (filter (\<lambda>k. k \<noteq> []) (map r_storage_key (filter (\<lambda>r. r_id r \<in> ?ids) ?rows)))"
  have "concat (map inserted_by (map Erasing ks)) = []" for ks by (induction ks) auto
  then have "opened (open_sweep locked t l) z =
      \<lparr>st_world = (st_world z)\<lparr>w_db := (w_db (st_world z))\<lparr>runs := filter (\<lambda>r. r_id r \<notin> ?ids) ?rows\<rparr>\<rparr>,
       st_tasks = st_tasks z @ ?ts, st_log = st_log z\<rparr>"
    by (simp add: opened_def open_sweep_def run_db_call reaped expired_run_of_def comp_def)
  moreover have "site_ok S \<dots>"
    by (rule rows_leave_ok [OF assms, where P = "\<lambda>r. r_id r \<notin> ?ids"])
      (auto simp: run_name_def site_okD(1) [OF assms])
  ultimately show ?thesis by simp
qed

text \<open>A row enters under a name that was never used, so no task holds its key.\<close>

lemma opened_upload_ok:
  assumes ok: "site_ok S z" and up: "upload_of S r body now q"
    and "distinct (st_log (opened (open_upload q body) z))"
  shows "site_ok S (opened (open_upload q body) z)" (is "site_ok S ?z")
proof -
  have nf: "db_faults (w_db (st_world z)) = []" using ok by (rule site_okD)
  from insert_run_cases [OF nf, of q] show ?thesis
  proof (elim disjE exE conjE)
    fix e assume "insert_run q (w_db (st_world z)) = (Inl e, w_db (st_world z))"
    then have "?z = z" by (cases z) (simp add: opened_def open_upload_def run_db_call)
    with ok show ?thesis by simp
  next
    assume "insert_run q (w_db (st_world z)) = (Inr (), (w_db (st_world z))\<lparr>runs := runs (w_db (st_world z)) @ [stored_run q]\<rparr>)"
    then have z: "?z = \<lparr>st_world = (st_world z)\<lparr>w_db := (w_db (st_world z))\<lparr>runs := runs (w_db (st_world z)) @ [stored_run q]\<rparr>\<rparr>,
        st_tasks = st_tasks z @ [Storing q body], st_log = st_log z @ [run_name q]\<rparr>"
      by (simp add: opened_def open_upload_def run_db_call)
    with assms(3) have new: "run_name q \<notin> set (st_log z)" by simp
    have row: "row_ok S ?z p" if "row_ok S z p" for p
      using that in_flight_mono [of "st_tasks z" p "st_tasks ?z"] unfolding row_ok_def z by auto
    have mine: "row_ok S ?z (stored_run q)"
      using upload_keyed [OF up] by (auto simp: row_ok_def z in_flight_def)
    have fresh: "run_name p \<noteq> run_name q" if "p \<in> set (runs (w_db (st_world z)))" for p
      using site_okD(2) [OF ok that] new by (auto simp: row_ok_def)
    have task: "task_ok S ?z t" if "task_ok S z t" for t
    proof (cases t)
      case (Erasing key)
      with that obtain p where "keyed p" "run_name p \<in> set (st_log z)" "r_storage_key p = key"
        "\<forall>q \<in> set (runs (w_db (st_world z))). run_name q \<noteq> run_name p" by auto
      with new show ?thesis unfolding Erasing task_ok.simps by (intro exI [of _ p]) (auto simp: z)
    qed (use that new in \<open>auto simp: z\<close>)
    have "task_ok S ?z (Storing q body)" using up fresh by (auto simp: z)
    then show ?thesis
      using row mine task site_okD(2,3) [OF ok] nf by (auto simp: site_ok_def z)
  qed
qed

lemma set_without: "k < length ts \<Longrightarrow> set ts = insert (ts ! k) (set (take k ts) \<union> set (drop (Suc k) ts))"
  by (metis Un_insert_right id_take_nth_drop list.simps(15) set_append)

text \<open>The step of a task \<open>t\<close> that leaves the tasks \<open>us\<close> and the new \<open>ts\<close>.\<close>

lemma in_flight_without:
  assumes "in_flight (st_tasks z) q" "set (st_tasks z) = insert t us"
  shows "in_flight [t] q \<or> (\<forall>vs. us \<subseteq> set vs \<longrightarrow> in_flight vs q)"
  using assms unfolding in_flight_def by (auto, blast)

lemma proceed_ok:
  assumes ok: "site_ok S z" and k: "k < length (st_tasks z)"
  shows "site_ok S (proceed k z)" (is "site_ok S ?z")
proof -
  let ?w = "st_world z" and ?t = "st_tasks z ! k" and ?us = "set (take k (st_tasks z)) \<union> set (drop (Suc k) (st_tasks z))"
  note split = set_without [OF k]
  have nf: "db_faults (w_db ?w) = []" using ok by (rule site_okD)
  have tk: "task_ok S z ?t" using site_okD(3) [OF ok] k by simp
  obtain ts w' where run: "run_state (task_step ?t) ?w = (ts, w')" by fastforce
  then have z: "?z = z\<lparr>st_world := w', st_tasks := take k (st_tasks z) @ ts @ drop (Suc k) (st_tasks z)\<rparr>"
    by (simp add: proceed_def)
  have tasks: "set (st_tasks ?z) = ?us \<union> set ts" by (auto simp: z)
  have rest: "run_backed S (w_blobs w') q \<or> in_flight (st_tasks ?z) q"
    if q: "row_ok S z q" and mine: "in_flight [?t] q \<Longrightarrow> run_backed S (w_blobs w') q \<or> in_flight ts q"
      and same: "run_backed S (w_blobs ?w) q \<Longrightarrow> run_backed S (w_blobs w') q" for q
  proof -
    from q consider "run_backed S (w_blobs ?w) q" | "in_flight (st_tasks z) q" by (auto simp: row_ok_def)
    then show ?thesis
    proof cases
      case 2
      from in_flight_without [OF this split] mine in_flight_mono [of ts q "st_tasks ?z"] tasks show ?thesis by blast
    qed (use same in blast)
  qed
  show ?thesis
  proof (cases ?t)
    case (Storing p body)
    from tk Storing obtain r now where up: "upload_of S r body now p" by auto
    have own: "q = stored_run p" if "q \<in> set (runs (w_db ?w))" "run_name q = run_name p" for q
      using tk that Storing by auto
    let ?fails = "w_s3_faults ?w \<noteq> [] \<and> hd (w_s3_faults ?w)"
    have eff: "w_db w' = w_db ?w" "w_blobs w' = (if ?fails then w_blobs ?w else (w_blobs ?w)(r_storage_key p \<mapsto> body))"
      "ts = (if ?fails then [RollingBack (r_org p) (r_id p)] else [])"
      using run Storing by (auto simp: s3_upload_bytes_def s3_upload_def s3_call_def wrap_error_def Let_def split: if_splits)
    show ?thesis
    proof (rule site_ok_shrink [OF ok])
      fix q assume q: "q \<in> set (runs (w_db (st_world ?z)))" "row_ok S z q"
      then have qr: "q \<in> set (runs (w_db ?w))" using eff(1) by (simp add: z)
      have key: "q = stored_run p" if "r_storage_key q = r_storage_key p"
        using keyed_inject [OF _ upload_keyed [OF up] that] q(2) own [OF qr] by (simp add: row_ok_def)
      have backed: "run_backed S (w_blobs w') q" if "\<not> ?fails" "q = stored_run p"
        using upload_backed [OF up, of "w_blobs ?w"] that(2) by (simp only: eff(2) that(1) if_False)
      show "run_backed S (w_blobs (st_world ?z)) q \<or> in_flight (st_tasks ?z) q"
      proof -
        have "run_backed S (w_blobs w') q \<or> in_flight (st_tasks ?z) q"
        proof (rule rest [OF q(2)])
          assume "in_flight [?t] q"
          then have "q = stored_run p" using Storing by (auto simp: in_flight_def)
          then show "run_backed S (w_blobs w') q \<or> in_flight ts q"
            using backed eff(3) by (auto simp: in_flight_def stored_run_def)
        next
          assume b: "run_backed S (w_blobs ?w) q"
          show "run_backed S (w_blobs w') q"
          proof (cases "\<not> ?fails \<and> r_storage_key q = r_storage_key p")
            case False
            then show ?thesis using eff(2) by (intro run_backed_cong [OF _ b]) auto
          qed (use backed key in blast)
        qed
        then show ?thesis by (simp add: z)
      qed
    qed (use eff nf tasks split in \<open>auto simp: z\<close>)
  next
    case (RollingBack org rid)
    have eff: "w_db w' = snd (delete_run org rid (w_db ?w))" "w_blobs w' = w_blobs ?w" "ts = []"
      using run RollingBack by (auto simp: run_db_call split: prod.splits)
    note rows = eff(1) [unfolded delete_run_effect(1) [OF nf]]
    show ?thesis
    proof (rule site_ok_shrink [OF ok])
      fix q assume q: "q \<in> set (runs (w_db (st_world ?z)))" "row_ok S z q"
      then have "\<not> in_flight [?t] q" using rows RollingBack by (auto simp: z in_flight_def)
      then show "run_backed S (w_blobs (st_world ?z)) q \<or> in_flight (st_tasks ?z) q"
        using rest [OF q(2)] eff(2) by (simp add: z)
    qed (use eff(2,3) rows nf tasks split in \<open>auto simp: z\<close>)
  next
    case (Erasing key)
    have eff: "w_db w' = w_db ?w" "ts = []" "\<And>k. k \<noteq> key \<Longrightarrow> w_blobs w' k = w_blobs ?w k"
      using run Erasing by (auto simp: run_s3_delete Let_def split: if_splits)
    show ?thesis
    proof (rule site_ok_shrink [OF ok])
      fix q assume q: "q \<in> set (runs (w_db (st_world ?z)))" "row_ok S z q"
      from tk Erasing obtain p where p: "keyed p" "r_storage_key p = key" "\<forall>q \<in> set (runs (w_db ?w)). run_name q \<noteq> run_name p"
        by auto
      have "r_storage_key q \<noteq> key" using keyed_inject [of q p] p q eff(1) by (auto simp: row_ok_def z)
      then have "run_backed S (w_blobs ?w) q \<Longrightarrow> run_backed S (w_blobs w') q" using eff(3) by (metis run_backed_cong)
      moreover have "\<not> in_flight [?t] q" using Erasing by (simp add: in_flight_def)
      ultimately show "run_backed S (w_blobs (st_world ?z)) q \<or> in_flight (st_tasks ?z) q"
        using rest [OF q(2)] by (simp add: z)
    qed (use eff nf tasks split in \<open>auto simp: z\<close>)
  qed
qed

lemma schedule_log: "schedule S z a \<Longrightarrow> \<exists>l. st_log a = st_log z @ l"
  by (induction rule: schedule.induct) (auto simp: opened_def proceed_def split: prod.splits)

lemma opened_log: "distinct (st_log (opened m a)) \<Longrightarrow> distinct (st_log a)"
  by (auto simp: opened_def split: prod.splits)

lemma schedule_ok: "schedule S z a \<Longrightarrow> site_ok S z \<Longrightarrow> distinct (st_log a) \<Longrightarrow> site_ok S a"
proof (induction rule: schedule.induct)
  case (upload_begins a r body now q)
  then show ?case using opened_upload_ok opened_log by metis
next
  case (elsewhere a w)
  let ?a = "a\<lparr>st_world := w\<rparr>"
  have same: "runs (w_db w) = runs (w_db (st_world a))" "w_blobs w = w_blobs (st_world a)"
    "db_faults (w_db (st_world a)) = [] \<Longrightarrow> db_faults (w_db w) = []"
    using elsewhere by (auto simp: same_world_def idle_def)
  have "site_ok S a" using elsewhere by simp
  then show ?case
    by (rule site_ok_shrink) (use same site_okD(1) [OF \<open>site_ok S a\<close>] in \<open>auto simp: row_ok_def\<close>)
next
  case (delete_begins a org rid)
  then show ?case using opened_delete_ok opened_log by metis
next
  case (sweep_begins a locked t l)
  then show ?case using opened_sweep_ok opened_log by metis
next
  case (task_proceeds a k)
  have "st_log (proceed k a) = st_log a" by (simp add: proceed_def split: prod.splits)
  with task_proceeds show ?case using proceed_ok by simp
qed

section \<open>The index under every schedule\<close>


section \<open>A request that meets no other\<close>

text \<open>The tasks run one after the other: an upload takes at most two, a sweep one for each object.\<close>

primrec run_tasks :: "nat \<Rightarrow> site \<Rightarrow> site" where
  "run_tasks 0 z = z"
| "run_tasks (Suc n) z = (if st_tasks z = [] then z else run_tasks n (proceed 0 z))"

definition alone :: "nat \<Rightarrow> task list act \<Rightarrow> world \<Rightarrow> world" where
  "alone n m w = st_world (run_tasks n (opened m (quiet w)))"

lemma run_tasks_none: "st_tasks z = [] \<Longrightarrow> run_tasks n z = z"
  by (cases n) auto

lemma alone_erasing:
  "length es \<le> n \<Longrightarrow> st_world (run_tasks n \<lparr>st_world = v,
     st_tasks = map Erasing (filter (\<lambda>k. k \<noteq> []) (map er_storage_key es)), st_log = l\<rparr>) =
   snd (run_state (delete_objects es) v)"
proof (induction es arbitrary: n v)
  case (Cons e es)
  then obtain m where n: "n = Suc m" by (cases n) auto
  show ?case
  proof (cases "er_storage_key e = []")
    case True
    with Cons.IH [of n v] Cons.prems show ?thesis by simp
  next
    case False
    with Cons.IH [of m] Cons.prems n show ?thesis
      by (auto simp: proceed_def run_s3_delete Let_def split: prod.splits)
  qed
qed (simp add: run_tasks_none)

lemma concat_inserted_erasing [simp]: "concat (map inserted_by (map Erasing ks)) = []"
  by (induction ks) auto

lemma sweep_in_steps:
  assumes "db_faults (w_db w) = []"
  shows "snd (run_state (sweep locked wk) w) =
    alone (length (runs (w_db w))) (open_sweep locked (w_now w) (rc_batch_size (rw_cfg wk))) w"
proof -
  let ?ids = "reaped_ids locked (w_now w) (rc_batch_size (rw_cfg wk)) (runs (w_db w))"
  let ?es = "map expired_run_of (filter (\<lambda>r. r_id r \<in> ?ids) (runs (w_db w)))"
  let ?w1 = "w\<lparr>w_db := (w_db w)\<lparr>runs := filter (\<lambda>r. r_id r \<notin> ?ids) (runs (w_db w))\<rparr>\<rparr>"
  note reaped = reap_result [OF assms, of locked "w_now w" "rc_batch_size (rw_cfg wk)"]
  have "snd (run_state (sweep locked wk) w) = snd (run_state (delete_objects ?es) ?w1)"
    by (auto simp: sweep_def clock_def run_db_call reaped Let_def split: prod.splits)
  moreover have "alone n (open_sweep locked (w_now w) (rc_batch_size (rw_cfg wk))) w =
      st_world (run_tasks n \<lparr>st_world = ?w1, st_tasks = map Erasing (filter (\<lambda>k. k \<noteq> []) (map er_storage_key ?es)), st_log = []\<rparr>)" for n
    by (simp add: alone_def opened_def open_sweep_def run_db_call reaped quiet_def del: map_map)
  moreover have "length ?es \<le> length (runs (w_db w))" by simp
  ultimately show ?thesis using alone_erasing by metis
qed

lemma delete_in_steps:
  assumes "db_faults (w_db w) = []" "org_id_from_context r \<noteq> []"
  shows "same_store (alone 1 (open_delete (org_id_from_context r) (url_param ''runID'' r)) w)
    (snd (run_state (handle_delete_trace S r) w))"
proof -
  let ?d = "delete_run (org_id_from_context r) (url_param ''runID'' r) (w_db w)"
  let ?w1 = "w\<lparr>w_db := snd ?d\<rparr>" and ?key = "case fst ?d of Inl e \<Rightarrow> [] | Inr key \<Rightarrow> key"
  have "\<exists>key. fst ?d = Inr key" using assms(1) by (auto simp: delete_run_def stmt_def Let_def split: option.splits)
  then obtain key where d: "fst ?d = Inr key" ..
  let ?log = "do { audit_log S r ''trace.delete'' ''run'' (url_param ''runID'' r) None; State_Monad.return (no_content 204) }"
  have h: "snd (run_state (handle_delete_trace S r) w) =
      (if key = [] then ?w1 else snd (run_state ?log (snd (run_state (s3_delete key) ?w1))))"
    using d assms(2) by (auto simp: handle_delete_trace_def require_org_def run_db_call respond_error_def split: prod.splits)
  have a: "alone 1 (open_delete (org_id_from_context r) (url_param ''runID'' r)) w =
      (if key = [] then ?w1 else snd (run_state (s3_delete key) ?w1))"
    using d by (auto simp: alone_def opened_def open_delete_def proceed_def run_db_call quiet_def split: prod.splits)
  have "leads same_store ?log" by (auto intro!: stores.same_rules)
  then show ?thesis unfolding h a by (auto simp: leads_def same_world_def)
qed

lemma alone_upload:
  "alone 2 (open_upload q body) w =
     (case insert_run q (w_db w) of
        (Inl e, d) \<Rightarrow> w\<lparr>w_db := d\<rparr>
      | (Inr _, d) \<Rightarrow>
          (case run_state (s3_upload_bytes (r_storage_key q) body) (w\<lparr>w_db := d\<rparr>) of
             (Inl e, v) \<Rightarrow> v\<lparr>w_db := snd (delete_run (r_org q) (r_id q) (w_db v))\<rparr>
           | (Inr _, v) \<Rightarrow> v))"
  by (auto simp: alone_def opened_def open_upload_def run_db_call quiet_def proceed_def numeral_2_eq_2
      split: prod.splits sum.splits)

lemma upload_in_steps:
  assumes org: "org_id_from_context r \<noteq> []" and up: "upload_of S r body (w_now w) q"
  shows "same_store (alone 2 (open_upload q body) w) (snd (run_state (handle_upload_trace S r) w))"
proof -
  let ?org = "org_id_from_context r"
  from up obtain su where su: "parse_and_verify (sv_trace S) (w_now w) body (sv_master S) (sv_require_sealed S) = (Some su, None)"
    "sanitize_identifier (su_run_id su) [] \<noteq> []" "q = run_of_summary r ?org (w_now w + 30 * day_nanos) su"
    and b: "rq_body r = Some body" "length body \<le> max_trace_bytes"
    by (auto simp: upload_of_def)
  have qo: "r_org q = ?org" using su(3) by (simp add: run_of_summary_def)
  define rest where "rest = do {
    _ \<leftarrow> db_call (update_agent_last_seen ?org (r_agent_name q));
    audit_log S r ''trace.upload'' ''run'' (r_id q) (Some [(''agent_name'', JStr (r_agent_name q)),
      (''actions_total'', JInt (r_actions_total q)), (''actions_denied'', JInt (r_actions_denied q)),
      (''integrity_chain'', JBool (r_integrity_chain q)), (''chain_verified'', JBool (r_chain_verified q))]);
    count_upload ''accepted'';
    upload_accepted S q }"
  have "snd (run_state (handle_upload_trace S r) w) =
     (case insert_run q (w_db w) of
        (Inl e, d) \<Rightarrow> snd (run_state (index_failed S ?org (r_id q) e) (w\<lparr>w_db := d\<rparr>))
      | (Inr _, d) \<Rightarrow>
          (case run_state (s3_upload_bytes (r_storage_key q) body) (w\<lparr>w_db := d\<rparr>) of
             (Inl e, v) \<Rightarrow> v\<lparr>w_db := snd (delete_run ?org (r_id q) (w_db v))\<rparr>
           | (Inr _, v) \<Rightarrow> snd (run_state rest v)))"
    using org b su
    by (simp add: handle_upload_trace_def require_org_def read_max_def clock_def index_trace_def Let_def run_db_call
        rest_def respond_error_def split: prod.splits sum.splits)
  moreover have "leads same_store rest" unfolding rest_def by (auto intro!: stores.same_rules stores.traces_same)
  moreover note stores.traces_same(5) [of S ?org "r_id q"]
  ultimately show ?thesis
    unfolding alone_upload qo by (auto simp: leads_def stores.world.I_refl split: prod.splits sum.splits)
qed

section \<open>Races\<close>

definition demo_run :: run where
  "demo_run = run_of_summary demo_upload ''b'' (30 * day_nanos) (demo_summary 0)"

lemma demo_upload_of: "upload_of demo_server demo_upload demo_trace 0 demo_run"
proof -
  have "length demo_trace \<le> max_trace_bytes" by (simp add: demo_trace_def demo_lines max_trace_bytes_def newline_def)
  moreover have "sanitize_identifier (su_run_id (demo_summary 0)) [] \<noteq> []" by code_simp
  ultimately show ?thesis
    by (auto simp: upload_of_def demo_upload_def bare_request_def demo_server_def demo_parsed demo_run_def org_id_from_context_def)
qed

text \<open>The demonstration platform with these rows, objects, tasks and log.\<close>

definition demo_site :: "run list \<Rightarrow> (string \<rightharpoonup> string) \<Rightarrow> task list \<Rightarrow> nat \<Rightarrow> site" where
  "demo_site rows blobs ts n =
     \<lparr>st_world = demo_world\<lparr>w_db := demo_db\<lparr>runs := rows\<rparr>, w_blobs := blobs\<rparr>, st_tasks = ts,
      st_log = replicate n (run_name demo_run)\<rparr>"

lemma demo_quiet: "quiet demo_world = demo_site [] Map.empty [] 0"
  by (simp add: quiet_def demo_site_def demo_world_def demo_db_def empty_db_def)

lemma demo_row_enters:
  "opened (open_upload demo_run demo_trace) (demo_site [] blobs ts n) =
   demo_site [stored_run demo_run] blobs (ts @ [Storing demo_run demo_trace]) (Suc n)"
proof -
  have "insert_run demo_run (demo_db\<lparr>runs := []\<rparr>) = (Inr (), demo_db\<lparr>runs := [stored_run demo_run]\<rparr>)"
    by (simp add: insert_run_def stmt_def stored_run_def demo_db_def empty_db_def int4_opt_def int4_def
        org_exists_def demo_org_def demo_run_def run_of_summary_def demo_summary_def new_summary_def)
  then show ?thesis
    by (simp add: opened_def open_upload_def run_db_call demo_site_def demo_world_def replicate_append_same [symmetric])
qed

lemma demo_object_stored:
  "proceed 0 (demo_site rows blobs (Storing demo_run demo_trace # ts) n) =
   demo_site rows (blobs(r_storage_key demo_run \<mapsto> demo_trace)) ts n"
  by (simp add: proceed_def demo_site_def s3_upload_bytes_def s3_upload_def s3_call_def wrap_error_def demo_world_def)

lemma demo_row_leaves:
  "opened (open_delete ''b'' ''r1'') (demo_site [stored_run demo_run] blobs ts n) =
   demo_site [] blobs (ts @ [Erasing (r_storage_key demo_run)]) n"
  by (simp add: opened_def open_delete_def run_db_call demo_site_def delete_run_def stmt_def stored_run_def
      demo_world_def demo_db_def empty_db_def demo_run_def run_of_summary_def demo_summary_def trace_key_def)

lemma demo_object_erased:
  "proceed 0 (demo_site rows blobs (Erasing key # ts) n) = demo_site rows (blobs(key := None)) ts n"
  by (simp add: proceed_def demo_site_def run_s3_delete demo_world_def)

lemma demo_object_stored_second:
  "proceed 1 (demo_site rows blobs (t # Storing demo_run demo_trace # ts) n) =
   demo_site rows (blobs(r_storage_key demo_run \<mapsto> demo_trace)) (t # ts) n"
  by (simp add: proceed_def demo_site_def s3_upload_bytes_def s3_upload_def s3_call_def wrap_error_def demo_world_def)

lemma demo_begins: "schedule demo_server (quiet demo_world) (demo_site [stored_run demo_run] Map.empty [Storing demo_run demo_trace] 1)"
  using upload_begins [OF idle_site demo_upload_of, of "quiet demo_world"]
  by (simp add: demo_quiet demo_row_enters)

lemma demo_stored: "schedule demo_server (quiet demo_world)
    (demo_site [stored_run demo_run] [r_storage_key demo_run \<mapsto> demo_trace] [] 1)"
  using task_proceeds [OF demo_begins, of 0] by (simp add: demo_object_stored) (simp add: demo_site_def)

text \<open>
  The hypothesis of the theorem is needed. A run is deleted and uploaded again between the deletion's two
  calls: both uploads were accepted, nothing failed, nothing is in flight, and the row points at nothing.
\<close>

lemma reuploaded_run_loses_object:
  "schedule demo_server (quiet demo_world) (demo_site [stored_run demo_run] Map.empty [] 2)"
proof -
  let ?k = "r_storage_key demo_run" and ?z = "quiet demo_world"
  have "schedule demo_server ?z (demo_site [] [?k \<mapsto> demo_trace] [Erasing ?k] 1)"
    using delete_begins [OF demo_stored, of "''b''" "''r1''"] by (simp add: demo_row_leaves)
  from upload_begins [OF this demo_upload_of]
  have "schedule demo_server ?z (demo_site [stored_run demo_run] [?k \<mapsto> demo_trace] [Erasing ?k, Storing demo_run demo_trace] 2)"
    by (simp add: demo_row_enters numeral_2_eq_2)
  from task_proceeds [OF this, of 1]
  have "schedule demo_server ?z (demo_site [stored_run demo_run] [?k \<mapsto> demo_trace] [Erasing ?k] 2)"
    by (simp add: demo_object_stored_second [unfolded One_nat_def]) (simp add: demo_site_def)
  from task_proceeds [OF this, of 0] show ?thesis
    by (simp add: demo_object_erased) (simp add: demo_site_def)
qed

text \<open>
  A deletion that comes between an upload's two calls leaves an object that no row names, out of reach
  of any deletion and of retention.
\<close>

lemma deleted_upload_leaves_object:
  "schedule demo_server (quiet demo_world) (demo_site [] [r_storage_key demo_run \<mapsto> demo_trace] [] 1)"
proof -
  let ?k = "r_storage_key demo_run" and ?z = "quiet demo_world"
  have "schedule demo_server ?z (demo_site [] Map.empty [Storing demo_run demo_trace, Erasing ?k] 1)"
    using delete_begins [OF demo_begins, of "''b''" "''r1''"] by (simp add: demo_row_leaves)
  from task_proceeds [OF this, of 1]
  have "schedule demo_server ?z (demo_site [] Map.empty [Storing demo_run demo_trace] 1)"
    by (simp add: demo_site_def proceed_def run_s3_delete demo_world_def)
  from task_proceeds [OF this, of 0] show ?thesis
    by (simp add: demo_object_stored) (simp add: demo_site_def)
qed


end
