(* ===== verification/Trace_Refines.thy ===== *)
theory Trace_Refines
  imports Trace_Store
begin

text \<open>
  What the trace endpoints promise, stated without rows, keys or buckets: a partial map from an
  organization and a run id to the uploaded bytes. The abstraction \<open>kept_traces\<close> reads that map off a
  world; every request changes it exactly as its answer reports.
\<close>

section \<open>The abstract store\<close>

type_synonym trace_map = "string \<times> string \<rightharpoonup> string"

datatype trace_op = Put string string string | Drop string string | Leave

fun apply_op :: "trace_op \<Rightarrow> trace_map \<Rightarrow> trace_map" where
  "apply_op (Put org i body) M = M((org, i) \<mapsto> body)"
| "apply_op (Drop org i) M = M((org, i) := None)"
| "apply_op Leave M = M"

text \<open>What the status of an answer says about the store.\<close>

definition reported_op :: "server \<Rightarrow> route \<Rightarrow> request \<Rightarrow> int \<Rightarrow> nat \<Rightarrow> trace_op" where
  "reported_op S rt r now status =
     (if rt = UploadTrace \<and> status = 201 then
        (case parse_and_verify (sv_trace S) now (the (rq_body r)) (sv_master S) (sv_require_sealed S) of
           (Some su, None) \<Rightarrow> Put (org_id_from_context r) (su_run_id su) (the (rq_body r))
         | _ \<Rightarrow> Leave)
      else if rt = DeleteTrace \<and> status = 204 then Drop (org_id_from_context r) (url_param ''runID'' r)
      else Leave)"

definition run_at :: "string \<Rightarrow> string \<Rightarrow> world \<Rightarrow> run option" where
  "run_at org i w = List.find (\<lambda>q. r_org q = org \<and> r_id q = i) (runs (w_db w))"

definition kept_traces :: "world \<Rightarrow> trace_map" where
  "kept_traces w = (\<lambda>(org, i). case run_at org i w of None \<Rightarrow> None | Some q \<Rightarrow> w_blobs w (r_storage_key q))"

lemma kept_ext: "(\<And>org i. M (org, i) = N (org, i)) \<Longrightarrow> M = N" for M N :: trace_map
  by (metis ext prod.collapse)

lemma kept_same_store: "same_store w w' \<Longrightarrow> kept_traces w' = kept_traces w"
  by (rule kept_ext) (auto simp: same_world_def idle_def kept_traces_def run_at_def split: option.splits)

lemma run_at_backed:
  assumes "store_ok S w" "run_at org i w = Some q"
  shows "run_backed S (w_blobs w) q \<and> r_org q = org \<and> r_id q = i"
  using find_SomeD [OF assms(2) [unfolded run_at_def]] assms(1) by (simp add: store_ok_def)

lemma kept_some:
  assumes "store_ok S w"
  shows "kept_traces w (org, i) = None \<longleftrightarrow> run_at org i w = None"
  using run_at_backed [OF assms, of org i] by (auto simp: kept_traces_def run_backed_def split: option.splits)

section \<open>Uploads and deletions\<close>

lemma upload_puts:
  assumes "store_ok S w" "upload_of S r body (w_now w) q" "world_uploaded q body w w'"
  shows "kept_traces w' = (kept_traces w)((r_org q, r_id q) \<mapsto> body)" "kept_traces w (r_org q, r_id q) = None"
proof -
  have new: "\<not> list_ex (same_run q) (runs (w_db w))" and rows: "runs (w_db w') = runs (w_db w) @ [stored_run q]"
    and obj: "w_blobs w' = (w_blobs w)(r_storage_key q \<mapsto> body)" using assms(3) by (auto simp: world_uploaded_def)
  have none: "run_at (r_org q) (r_id q) w = None"
    using new by (auto simp: run_at_def find_None_iff list_ex_iff same_run_def)
  then show "kept_traces w (r_org q, r_id q) = None" by (simp add: kept_traces_def)
  have "kept_traces w' (org, i) = ((kept_traces w)((r_org q, r_id q) \<mapsto> body)) (org, i)" for org i
  proof (cases "org = r_org q \<and> i = r_id q")
    case True
    then show ?thesis
      using find_new_run [OF new] rows obj by (simp add: kept_traces_def run_at_def stored_run_def)
  next
    case False
    then have at: "run_at org i w' = run_at org i w"
      by (auto simp: run_at_def rows find_append stored_run_def split: option.splits)
    show ?thesis
    proof (cases "run_at org i w")
      case None
      with at False show ?thesis by (auto simp: kept_traces_def)
    next
      case (Some p)
      from run_at_backed [OF assms(1) Some] have b: "run_backed S (w_blobs w) p" "r_org p = org" "r_id p = i" by auto
      have "r_storage_key p \<noteq> r_storage_key q"
        using backed_key_inject [OF b(1) upload_backed [OF assms(2)]] b(2,3) False by (auto simp: stored_run_def)
      with at Some obj False show ?thesis by (auto simp: kept_traces_def)
    qed
  qed
  then show "kept_traces w' = (kept_traces w)((r_org q, r_id q) \<mapsto> body)" by (rule kept_ext)
qed

lemma find_filter_within: "(\<And>x. x \<in> set xs \<Longrightarrow> P x \<Longrightarrow> Q x) \<Longrightarrow> List.find P (filter Q xs) = List.find P xs"
  by (induction xs) auto

text \<open>Rows that go, with their objects at most, take exactly their own runs out of the map.\<close>

lemma removed_drops:
  assumes "store_ok S w" "runs (w_db w') = filter P (runs (w_db w))"
    and blobs: "\<And>k. w_blobs w' k = w_blobs w k \<or> (\<exists>q \<in> set (runs (w_db w)). \<not> P q \<and> k = r_storage_key q)"
    and same: "\<And>p q. P p \<Longrightarrow> r_org p = r_org q \<Longrightarrow> r_id p = r_id q \<Longrightarrow> P q"
  shows "kept_traces w' (g, j) =
    (if \<exists>q \<in> set (runs (w_db w)). \<not> P q \<and> r_org q = g \<and> r_id q = j then None else kept_traces w (g, j))"
proof (cases "\<exists>q \<in> set (runs (w_db w)). \<not> P q \<and> r_org q = g \<and> r_id q = j")
  case True
  then have "run_at g j w' = None" using same unfolding run_at_def assms(2) find_None_iff by auto
  with True show ?thesis by (simp add: kept_traces_def)
next
  case False
  have at: "run_at g j w' = run_at g j w"
    unfolding run_at_def assms(2) using False by (intro find_filter_within) auto
  show ?thesis
  proof (cases "run_at g j w")
    case None
    with at False show ?thesis by (simp add: kept_traces_def)
  next
    case (Some p)
    from run_at_backed [OF assms(1) Some] have b: "run_backed S (w_blobs w) p" "r_org p = g" "r_id p = j" by auto
    have "r_storage_key p \<noteq> r_storage_key q" if q: "q \<in> set (runs (w_db w))" "\<not> P q" for q
    proof -
      have "run_backed S (w_blobs w) q" using assms(1) q(1) by (simp add: store_ok_def)
      from backed_key_inject [OF b(1) this] q b(2,3) False show ?thesis by metis
    qed
    with blobs have "w_blobs w' (r_storage_key p) = w_blobs w (r_storage_key p)" by metis
    then have "kept_traces w' (g, j) = kept_traces w (g, j)" using at Some by (simp add: kept_traces_def)
    then show ?thesis unfolding if_not_P [OF False] .
  qed
qed

lemma deleted_drops:
  assumes "store_ok S w" "world_deleted org i w w'"
  shows "kept_traces w' = (kept_traces w)((org, i) := None)"
proof (rule kept_ext)
  fix g j
  let ?P = "\<lambda>q. \<not> (r_org q = org \<and> r_id q = i)"
  have "kept_traces w' (g, j) =
    (if \<exists>q \<in> set (runs (w_db w)). \<not> ?P q \<and> r_org q = g \<and> r_id q = j then None else kept_traces w (g, j))"
    using assms(2) by (intro removed_drops [OF assms(1)]) (auto simp: world_deleted_def)
  moreover have "kept_traces w (org, i) = None" if "\<not> (\<exists>q \<in> set (runs (w_db w)). r_org q = org \<and> r_id q = i)"
    using that by (auto simp: kept_traces_def run_at_def find_None_iff split: option.splits dest: find_SomeD)
  ultimately show "kept_traces w' (g, j) = ((kept_traces w)((org, i) := None)) (g, j)" by auto
qed

text \<open>A sweep forgets expired runs and changes nothing else.\<close>

lemma sweep_forgets:
  assumes "store_ok S w" "run_state (sweep locked wk) w = (wk', w')"
  shows "kept_traces w' \<subseteq>\<^sub>m kept_traces w"
proof -
  let ?ids = "reaped_ids locked (w_now w) (rc_batch_size (rw_cfg wk)) (runs (w_db w))"
  have nf: "db_faults (w_db w) = []" using assms(1) by (simp add: store_ok_def)
  have "kept_traces w' (g, j) =
    (if \<exists>q \<in> set (runs (w_db w)). \<not> r_id q \<notin> ?ids \<and> r_org q = g \<and> r_id q = j then None else kept_traces w (g, j))" for g j
    using sweep_effect [OF nf assms(2)] by (intro removed_drops [OF assms(1)]) (auto simp: objects_gone_def nf)
  then show ?thesis by (auto simp: map_le_def split: if_splits)
qed

section \<open>Answers\<close>

lemma get_run_at: "db_faults (w_db w) = [] \<Longrightarrow> get_run org i (w_db w) = (Inr (run_at org i w), w_db w)"
  by (cases "w_db w") (simp add: get_run_def with_ctx_def select_def stmt_def run_at_def)

lemma get_trace_answer:
  assumes "store_ok S w" "org_id_from_context r \<noteq> []"
  shows "rs_status (fst (run_state (handle_get_trace S r) w)) =
    (if kept_traces w (org_id_from_context r, url_param ''runID'' r) = None then 404 else 200)"
proof -
  have nf: "db_faults (w_db w) = []" using assms(1) by (simp add: store_ok_def)
  show ?thesis
    using assms(2) kept_some [OF assms(1)]
    by (auto simp: handle_get_trace_def require_org_def db_call_def get_run_at [OF nf] respond_def respond_error_def
        write_json_error_def reply_def split: option.splits)
qed

lemma get_events_answer:
  assumes "store_ok S w" "org_id_from_context r \<noteq> []" "query_get ''inline'' r = ''1''" "w_s3_faults w = []"
  shows "case kept_traces w (org_id_from_context r, url_param ''runID'' r) of
      None \<Rightarrow> rs_status (fst (run_state (handle_get_trace_events S r) w)) = 404
    | Some body \<Rightarrow> rs_status (fst (run_state (handle_get_trace_events S r) w)) = 200 \<and>
        rs_body (fst (run_state (handle_get_trace_events S r) w)) = JRaw body"
proof -
  have nf: "db_faults (w_db w) = []" using assms(1) by (simp add: store_ok_def)
  show ?thesis
  proof (cases "run_at (org_id_from_context r) (url_param ''runID'' r) w")
    case None
    then have "kept_traces w (org_id_from_context r, url_param ''runID'' r) = None" by (simp add: kept_traces_def)
    with None assms(2) show ?thesis
      by (simp add: handle_get_trace_events_def require_org_def db_call_def get_run_at [OF nf] respond_error_def
          write_json_error_def reply_def)
  next
    case (Some q)
    with run_at_backed [OF assms(1) Some] obtain body where b: "w_blobs w (r_storage_key q) = Some body"
      by (auto simp: run_backed_def)
    with Some have "kept_traces w (org_id_from_context r, url_param ''runID'' r) = Some body" by (simp add: kept_traces_def)
    with Some b assms(2-4) show ?thesis
      by (simp add: handle_get_trace_events_def require_org_def db_call_def get_run_at [OF nf] s3_download_def s3_call_def
          wrap_error_def)
  qed
qed

lemma delete_answer:
  assumes "store_ok S w" "org_id_from_context r \<noteq> []"
  shows "rs_status (fst (run_state (handle_delete_trace S r) w)) =
    (if kept_traces w (org_id_from_context r, url_param ''runID'' r) = None then 404 else 204)"
proof -
  let ?org = "org_id_from_context r" and ?i = "url_param ''runID'' r"
  have nf: "db_faults (w_db w) = []" using assms(1) by (simp add: store_ok_def)
  show ?thesis
  proof (cases "run_at ?org ?i w")
    case None
    with nf have "fst (delete_run ?org ?i (w_db w)) = Inr []"
      by (cases "w_db w") (auto simp: delete_run_def stmt_def run_at_def Let_def)
    with None assms(2) kept_some [OF assms(1)] show ?thesis
      by (auto simp: handle_delete_trace_def require_org_def db_call_def respond_error_def write_json_error_def reply_def
          split: prod.splits)
  next
    case (Some q)
    from run_at_backed [OF assms(1) Some] have key: "r_storage_key q \<noteq> []" by (auto simp: run_backed_def trace_key_def)
    from Some nf have "fst (delete_run ?org ?i (w_db w)) = Inr (r_storage_key q)"
      by (cases "w_db w") (auto simp: delete_run_def stmt_def run_at_def Let_def)
    with key Some assms(2) kept_some [OF assms(1)] show ?thesis
      by (auto simp: handle_delete_trace_def require_org_def db_call_def no_content_def split: prod.splits)
  qed
qed

text \<open>Each handler changes the map as its status reports.\<close>

lemma handler_refines:
  assumes "store_ok S w" "run_state (route_handler S rt r) w = (resp, w')"
  shows "kept_traces w' = apply_op (reported_op S rt r (w_now w) (rs_status resp)) (kept_traces w) \<and>
    (case reported_op S rt r (w_now w) (rs_status resp) of
       Put g j body \<Rightarrow> g = org_id_from_context r \<and> kept_traces w (g, j) = None
     | Drop g j \<Rightarrow> g = org_id_from_context r \<and> kept_traces w (g, j) \<noteq> None | Leave \<Rightarrow> True)"
proof -
  have nf: "db_faults (w_db w) = []" using assms(1) by (simp add: store_ok_def)
  consider "rt = UploadTrace" | "rt = DeleteTrace" | "rt \<noteq> UploadTrace" "rt \<noteq> DeleteTrace" by blast
  then show ?thesis
  proof cases
    case 1
    with assms(2) have run: "run_state (handle_upload_trace S r) w = (resp, w')" by simp
    show ?thesis
    proof (cases "rs_status resp = 201")
      case True
      with upload_effect [OF nf run] obtain q body where up: "upload_of S r body (w_now w) q" "world_uploaded q body w w'"
        by auto
      then have "reported_op S rt r (w_now w) (rs_status resp) = Put (r_org q) (r_id q) body"
        using 1 True by (auto simp: reported_op_def upload_of_def run_of_summary_def sanitize_identifier_def)
      moreover have "r_org q = org_id_from_context r" using up(1) by (auto simp: upload_of_def run_of_summary_def)
      ultimately show ?thesis using upload_puts [OF assms(1) up] by simp
    next
      case False
      with upload_effect [OF nf run] kept_same_store 1 show ?thesis by (simp add: reported_op_def)
    qed
  next
    case 2
    let ?org = "org_id_from_context r" and ?i = "url_param ''runID'' r"
    from 2 assms(2) have run: "run_state (handle_delete_trace S r) w = (resp, w')" by simp
    show ?thesis
    proof (cases "?org \<noteq> [] \<and> kept_traces w (?org, ?i) \<noteq> None")
      case True
      with delete_answer [OF assms(1), of r] run have "rs_status resp = 204" by auto
      then have op: "reported_op S rt r (w_now w) (rs_status resp) = Drop ?org ?i" using 2 by (simp add: reported_op_def)
      have "run_at ?org ?i w \<noteq> None" using True by (simp add: kept_some [OF assms(1)])
      then have "world_deleted ?org ?i w w'" using delete_effect [OF nf run] True by (simp add: run_at_def)
      from deleted_drops [OF assms(1) this] op True show ?thesis by simp
    next
      case False
      have ns: "rs_status resp \<noteq> 204"
      proof (cases "?org = []")
        case True
        with run show ?thesis by (auto simp: handle_delete_trace_def require_org_def write_json_error_def reply_def)
      next
        case org: False
        with False delete_answer [OF assms(1) org] run show ?thesis by simp
      qed
      have "?org = [] \<or> run_at ?org ?i w = None" using False by (simp add: kept_some [OF assms(1)])
      then have "same_store w w'" using delete_effect [OF nf run] by (auto simp: run_at_def)
      then have "kept_traces w' = kept_traces w" by (rule kept_same_store)
      with ns 2 show ?thesis by (simp add: reported_op_def)
    qed
  next
    case 3
    from same_store_run [OF stores.route_same [OF 3] assms(2)] kept_same_store 3 show ?thesis
      by (simp add: reported_op_def)
  qed
qed

section \<open>The whole interface\<close>

lemma authenticated_same:
  assumes "authenticated (api_validate S) (api_verify S) r w r' w1"
  shows "same_store w w1 \<and> w_now w1 = w_now w \<and> w_s3_faults w1 = w_s3_faults w"
  using assms
proof cases
  case (by_key scheme token org)
  then have "w1 = snd (api_validate S token w)" by simp
  moreover have "w_now (snd (api_validate S token w)) = w_now w \<and> w_s3_faults (snd (api_validate S token w)) = w_s3_faults w"
    by (simp add: api_validate_def db_call_def split: prod.splits)
  ultimately show ?thesis using stores.validate_same by metis
qed (simp add: same_world_def)


section \<open>Example\<close>


end
