(* ===== verification/Policy_Delivery.thy ===== *)
theory Policy_Delivery
  imports Trace_Store Simulate_Runner
begin

text \<open>
  A policy set from the request that writes it to the runtimes that enforce it: the upsert stores the
  set and publishes one notification per agent its selector resolves to, PostgreSQL's channel carries
  them, and the listener of \<open>internal/policyfeed\<close> hands each to the subscriptions of its agent.
\<close>

section \<open>What the handler puts on the channel\<close>

definition payloads_of :: "time_libs \<Rightarrow> int \<Rightarrow> notification list \<Rightarrow> string list" where
  "payloads_of T now ns =
     concat (map (\<lambda>n. case pf_publish T now None n of Inl e \<Rightarrow> [] | Inr payload \<Rightarrow> [payload]) ns)"

lemma publish_all_feed:
  "db_faults (w_db w) = [] \<Longrightarrow>
     snd (run_state (publish_all S note as) w) = w\<lparr>w_feed := w_feed w @ payloads_of (sv_times S) (w_now w) (map note as)\<rparr>"
proof (induction as arbitrary: w)
  case (Cons a as)
  have st: "stmt (\<lambda>s. Inr ((), s)) (w_db w) = (Inr (), w_db w)" using Cons.prems by (cases "w_db w") (simp add: stmt_def)
  obtain x where fp: "run_state (feed_publish S (note a)) w =
      (x, w\<lparr>w_feed := w_feed w @ payloads_of (sv_times S) (w_now w) [note a]\<rparr>)"
    by (cases "pf_publish (sv_times S) (w_now w) None (note a)") (simp_all add: feed_publish_def payloads_of_def st)
  let ?w1 = "w\<lparr>w_feed := w_feed w @ payloads_of (sv_times S) (w_now w) [note a]\<rparr>"
  from Cons.IH [of ?w1] Cons.prems fp show ?case by (auto simp: payloads_of_def split: prod.splits)
qed (simp add: payloads_of_def)

definition feed_rows :: "world \<Rightarrow> policy_set list \<times> string list" where
  "feed_rows w = (policy_sets (w_db w), w_feed w)"

lemma audit_log_feed: "feed_rows (snd (run_state (audit_log S r a res rid meta) w)) = feed_rows w"
proof -
  have "policy_sets (snd (insert_audit_event E g u ac rs i m s)) = policy_sets s" for E g u ac rs i m s
    by (auto simp: insert_audit_event_def stmt_def fresh_id_def Let_def split: option.splits sum.splits prod.splits list.splits if_splits)
  then show ?thesis
    by (auto simp: audit_log_def db_call_def feed_rows_def split: prod.splits) (metis snd_conv)
qed

text \<open>The row an upsert leaves, and what it returns of it.\<close>

lemma upsert_row:
  assumes "upsert_policy_set E p s = (Inr stored, s')" "db_faults s = []"
  shows "db_faults s' = [] \<and> set_hash stored = set_hash p \<and> set_name stored = set_name p \<and>
    (\<exists>row \<in> set (policy_sets s'). set_org row = set_org p \<and> set_name row = set_name p \<and> set_yaml row = set_yaml p \<and>
      set_hash row = set_hash p \<and> set_version row = set_version stored \<and> int4 (set_version row))"
proof -
  have same: "s\<lparr>db_faults := []\<rparr> = s" using assms(2) by (cases s) simp
  have "stmt (upsert_body E p) s = (case upsert_body E p s of Inl e \<Rightarrow> (Inl e, s) | Inr (x, s2) \<Rightarrow> (Inr x, s2))"
    by (simp add: stmt_def assms(2) same)
  with assms(1) have body': "upsert_body E p s = Inr (stored, s')"
    by (auto simp: upsert_policy_set_def split: sum.splits prod.splits)
  then obtain sel where j: "jsonb E (set_selector p) = Some sel"
    by (cases "jsonb E (set_selector p)") (simp_all add: upsert_body_def)
  show ?thesis
  proof (cases "List.find (is_set (set_org p) (set_name p)) (policy_sets s)")
    case (Some old)
    from find_SomeD [OF Some] have old: "old \<in> set (policy_sets s)" "is_set (set_org p) (set_name p) old" by auto
    from body' Some j have
      st: "int4 (set_version old + 1)" "stored = p\<lparr>set_id := set_id old, set_version := set_version old + 1,
        set_created_at := set_created_at old, set_updated_at := db_now s\<rparr>"
      and s': "s' = s\<lparr>policy_sets := update_where (is_set (set_org p) (set_name p))
        (\<lambda>_. old\<lparr>set_selector := sel, set_yaml := set_yaml p, set_hash := set_hash p,
          set_version := set_version old + 1, set_updated_at := db_now s\<rparr>) (policy_sets s)\<rparr>"
      by (simp_all add: upsert_body_def Let_def split: if_splits)
    let ?row = "old\<lparr>set_selector := sel, set_yaml := set_yaml p, set_hash := set_hash p,
          set_version := set_version old + 1, set_updated_at := db_now s\<rparr>"
    have "?row \<in> set (policy_sets s')"
      unfolding s' update_where_def using old by (auto intro!: image_eqI [of _ _ old])
    moreover have "set_org ?row = set_org p" "set_name ?row = set_name p" using old(2) by (simp_all add: is_set_def)
    moreover have "db_faults s' = []" using s' assms(2) by simp
    ultimately show ?thesis using st by (intro conjI bexI [of _ ?row]) simp_all
  next
    case None
    with body' j assms(2) show ?thesis
      by (auto simp: upsert_body_def Let_def fresh_id_def int4_def split: sum.splits prod.splits if_splits list.splits)
  qed
qed

section \<open>What the listener makes of it\<close>

lemma pf_dispatch_listening [simp]: "hub_listening (pf_dispatch n h) = hub_listening h"
  by (simp add: pf_dispatch_def hub_dispatch_def)

lemma payload_dispatched:
  assumes "\<And>t. read_time T (show_time T t) = Some t" "- (2 ^ 63) \<le> nt_version n" "nt_version n < 2 ^ 63"
    and "pf_publish T (nt_published_at n) None n = Inr payload" "hub_listening h"
  shows "pf_run_step T (Notified payload) h = pf_dispatch n h"
proof -
  have eq: "(if nt_published_at n = 0 then n\<lparr>nt_published_at := nt_published_at n\<rparr> else n) = n" by simp
  from assms(4) have "payload = pf_marshal T n"
    unfolding pf_publish_def eq Let_def by (simp split: if_splits)
  with pf_roundtrip [OF assms(1-3)] assms(5) show ?thesis by (simp add: pf_run_step_def hub_run_step_def)
qed

lemma payloads_dispatched:
  assumes "\<And>t. read_time T (show_time T t) = Some t"
    and "\<And>n. n \<in> set ns \<Longrightarrow> - (2 ^ 63) \<le> nt_version n \<and> nt_version n < 2 ^ 63 \<and> nt_published_at n = now"
  shows "hub_listening h \<Longrightarrow> fold (\<lambda>m. pf_run_step T (Notified m)) (payloads_of T now ns) h =
    fold pf_dispatch (filter (\<lambda>n. is_ok (pf_publish T now None n)) ns) h"
  using assms(2)
proof (induction ns arbitrary: h)
  case (Cons n ns)
  show ?case
  proof (cases "pf_publish T now None n")
    case (Inl e)
    with Cons show ?thesis by (simp add: payloads_of_def is_ok_def)
  next
    case (Inr payload)
    have "pf_run_step T (Notified payload) h = pf_dispatch n h"
      using Cons.prems Inr by (intro payload_dispatched [OF assms(1)]) auto
    with Cons Inr show ?thesis by (simp add: payloads_of_def is_ok_def)
  qed
qed (simp add: payloads_of_def)

section \<open>From the request to the subscriptions\<close>

lemma write_policy_set_effect:
  assumes "db_faults (w_db w) = []" "run_state (write_policy_set S r org p as) w = (resp, w')" "rs_status resp = 200"
  shows "\<exists>row \<in> set (policy_sets (w_db w')). set_org row = set_org p \<and> set_yaml row = set_yaml p \<and> set_hash row = set_hash p \<and>
    int4 (set_version row) \<and> w_feed w' = w_feed w @ payloads_of (sv_times S) (w_now w) (map (set_note org row (w_now w)) as)"
proof -
  obtain x d where up: "upsert_policy_set (sv_env S) p (w_db w) = (x, d)" by fastforce
  obtain stored where x: "x = Inr stored"
    using assms(2,3) up
    by (cases x) (auto simp: write_policy_set_def db_call_def respond_error_def write_json_error_def reply_def)
  from upsert_row [OF up [unfolded x] assms(1)] obtain row where nf: "db_faults d = []"
    and st: "set_hash stored = set_hash p" "set_name stored = set_name p"
    and row: "row \<in> set (policy_sets d)" "set_org row = set_org p" "set_name row = set_name p" "set_yaml row = set_yaml p"
      "set_hash row = set_hash p" "set_version row = set_version stored" "int4 (set_version row)" by blast
  have same_note: "set_note org stored t = set_note org row t" for t using st row by (simp add: set_note_def fun_eq_iff)
  let ?w1 = "w\<lparr>w_db := d\<rparr>"
  let ?w2 = "?w1\<lparr>w_feed := w_feed w @ payloads_of (sv_times S) (w_now w) (map (set_note org row (w_now w)) as)\<rparr>"
  obtain n where pa: "run_state (publish_all S (set_note org row (w_now w)) as) ?w1 = (n, ?w2)"
    using publish_all_feed [of ?w1 S "set_note org row (w_now w)" as] nf
    by (cases "run_state (publish_all S (set_note org row (w_now w)) as) ?w1") auto
  from assms(2) up x pa obtain meta where
    "run_state (audit_log S r ''policy_set.write'' ''policy_set'' (set_id stored) (Some meta)) ?w2 = ((), w')"
    by (auto simp: write_policy_set_def db_call_def clock_def same_note respond_def split: prod.splits)
  with audit_log_feed [of S r "''policy_set.write''" "''policy_set''" "set_id stored" "Some meta" ?w2]
  have "feed_rows w' = feed_rows ?w2" by simp
  with row show ?thesis by (intro bexI [of _ row]) (simp_all add: feed_rows_def)
qed

lemma upsert_handler_ok:
  assumes "run_state (handle_upsert_policy_set S r) w = (resp, w')" "rs_status resp = 200"
  shows "\<exists>nm selector yaml c matched d. policy_parse (sv_policy S) yaml = Inr c \<and> validate (sv_policy S) c False = [] \<and>
    resolve_selector (org_id_from_context r) selector (w_db w) = (Inr matched, d) \<and>
    run_state (write_policy_set S r (org_id_from_context r)
      \<lparr>set_id = [], set_org = org_id_from_context r, set_name = nm, set_selector = selector, set_yaml = yaml,
       set_hash = compute_policy_hash (sv_env S) yaml, set_version = 0, set_created_at = 0, set_updated_at = 0\<rparr> matched)
      (w\<lparr>w_db := d\<rparr>) = (resp, w')"
  using assms
  by (auto simp: handle_upsert_policy_set_def require_org_def check_policy_set_def db_call_def respond_error_def
      write_json_error_def reply_def split: if_splits option.splits sum.splits list.splits prod.splits)
    (intro exI conjI, assumption+)


section \<open>Example\<close>

definition feed_body :: string where
  "feed_body = jq ''{`name`:`n`,`policy_yaml`:`y`,`selector`:{`agent_name`:`bot`}}''"

definition feed_request :: request where
  "feed_request = bare_request\<lparr>rq_body := Some feed_body, rq_ctx_org := ''a''\<rparr>"

definition feed_server :: server where
  "feed_server = demo_server\<lparr>sv_policy := sim_libs\<rparr>"

definition bot_row :: agent_row where
  "bot_row = \<lparr>a_id = ''g1'', a_org = ''a'', a_name = ''bot'', a_version = [], a_manifest = [], a_capabilities_hash = [],
     a_policy_hash = [], a_registered_at = 0, a_last_seen = 0, a_applied_hash = None, a_applied_at = None,
     a_policy_yaml = None, a_policy_updated_at = None\<rparr>"

definition feed_world :: world where
  "feed_world = demo_world\<lparr>w_db := demo_db\<lparr>agents := [bot_row], db_ids := [''s1'', ''e1'']\<rparr>\<rparr>"

lemma feed_decoded:
  "\<exists>ms raws sel sms. unmarshal_struct feed_body = Some ms \<and> raw_members feed_body = Some raws \<and>
     field_string ''name'' ms = Some ''n'' \<and> field_string ''policy_yaml'' ms = Some ''y'' \<and>
     field_raw ''selector'' raws = sel \<and> sel \<noteq> [] \<and> unmarshal_struct sel = Some sms \<and>
     field_string ''agent_name'' sms = Some ''bot'' \<and> field_string_map ''match'' sms = Some []"
proof -
  let ?ms = "[(''name'', JStr ''n''), (''policy_yaml'', JStr ''y''), (''selector'', JObj [(''agent_name'', JStr ''bot'')])]"
  let ?raws = "the (raw_members feed_body)" let ?sel = "field_raw ''selector'' (the (raw_members feed_body))"
  let ?sms = "[(''agent_name'', JStr ''bot'')]"
  have "unmarshal_struct feed_body = Some ?ms" by code_simp
  moreover have "raw_members feed_body = Some ?raws" by code_simp
  moreover have "field_string ''name'' ?ms = Some ''n''" "field_string ''policy_yaml'' ?ms = Some ''y''" by code_simp+
  moreover have "?sel \<noteq> []" by code_simp
  moreover have "unmarshal_struct ?sel = Some ?sms" by code_simp
  moreover have "field_string ''agent_name'' ?sms = Some ''bot''" "field_string_map ''match'' ?sms = Some []" by code_simp+
  ultimately show ?thesis by blast
qed

lemma feed_answered: "rs_status (fst (run_state (handle_upsert_policy_set feed_server feed_request) feed_world)) = 200"
proof -
  obtain ms raws sel sms where d: "unmarshal_struct feed_body = Some ms" "raw_members feed_body = Some raws"
    "field_string ''name'' ms = Some ''n''" "field_string ''policy_yaml'' ms = Some ''y''"
    "field_raw ''selector'' raws = sel" "sel \<noteq> []" "unmarshal_struct sel = Some sms"
    "field_string ''agent_name'' sms = Some ''bot''" "field_string_map ''match'' sms = Some []"
    using feed_decoded by blast
  have len: "length feed_body \<le> max_policy_set_body_bytes" by code_simp
  have v: "validate sim_libs (demo_policy ''enforce'') False = []"
    by (simp add: sim_libs_def validate_empty well_formed_def demo_policy_def demo_rule_def rule_ok_def)
  have y: "policy_parse sim_libs ''y'' = Inr (demo_policy ''enforce'')" by (simp add: policy_parse_def sim_libs_def)
  have nf: "db_faults (w_db feed_world) = []" by (simp add: feed_world_def demo_db_def empty_db_def)
  have r: "resolve_selector ''a'' sel (w_db feed_world) = (Inr [agent_of bot_row], w_db feed_world)"
    by (simp add: resolve_selector_def d get_agent_def select_def stmt_def feed_world_def demo_db_def empty_db_def
        is_agent_def bot_row_def)
  let ?p = "\<lparr>set_id = [], set_org = ''a'', set_name = ''n'', set_selector = sel, set_yaml = ''y'',
    set_hash = compute_policy_hash demo_env ''y'', set_version = 0, set_created_at = 0, set_updated_at = 0\<rparr>"
  have "\<exists>stored. fst (upsert_policy_set demo_env ?p (w_db feed_world)) = Inr stored"
    by (simp add: upsert_policy_set_def stmt_def upsert_body_def demo_env_def feed_world_def demo_db_def empty_db_def
        fresh_id_def org_exists_def demo_org_def Let_def)
  then obtain stored d' where up: "upsert_policy_set demo_env ?p (w_db feed_world) = (Inr stored, d')" by (metis prod.collapse)
  have w: "feed_world\<lparr>w_db := w_db feed_world\<rparr> = feed_world" by simp
  have "rs_status (fst (run_state (write_policy_set feed_server feed_request ''a'' ?p [agent_of bot_row]) feed_world)) = 200"
    using up by (simp add: write_policy_set_def db_call_def clock_def respond_def reply_def feed_server_def demo_server_def
        del: publish_all.simps split: prod.splits)
  then show ?thesis
    using d len v y r w
    by (simp add: handle_upsert_policy_set_def require_org_def feed_request_def bare_request_def read_max_def
        check_policy_set_def db_call_def feed_server_def demo_server_def org_id_from_context_def)
qed


end
