(* ===== verification/Governance.thy ===== *)
theory Governance
  imports Router
begin

text \<open>
  \<open>internal/governance\<close>: the detector that counts denied tools over an organization's recent runs, the
  classifier that asks a language model whether a denial is a gap in the policy, the proposer and the
  polling worker. The order in which Go ranges over a map is a parameter of the definitions.
\<close>

section \<open>Reading a trace\<close>

record denial_event =
  de_type :: string
  de_type_alt :: string
  de_target :: string
  de_tool :: string
  de_auth :: string
  de_params :: string

definition tool_name :: "denial_event \<Rightarrow> string" where
  "tool_name e = (if de_target e \<noteq> [] then de_target e else de_tool e)"

definition is_action :: "denial_event \<Rightarrow> bool" where
  "is_action e \<longleftrightarrow> de_type e = ''action'' \<or> de_type_alt e = ''action''"

definition denied_event :: "denial_event \<Rightarrow> bool" where
  "denied_event e \<longleftrightarrow> de_auth e = ''deny''"

definition decode_denial :: "string \<Rightarrow> denial_event option" where
  "decode_denial line =
     (case (unmarshal_struct line, raw_members line) of
        (Some ms, Some raws) \<Rightarrow>
          (case (field_string ''t'' ms, field_string ''type'' ms, field_string ''target'' ms, field_string ''tool'' ms,
                 field_string ''auth'' ms) of
             (Some t, Some ty, Some tg, Some tn, Some au) \<Rightarrow>
               Some \<lparr>de_type = t, de_type_alt = ty, de_target = tg, de_tool = tn, de_auth = au,
                     de_params = field_raw ''params'' raws\<rparr>
           | _ \<Rightarrow> None)
      | _ \<Rightarrow> None)"

text \<open>The tool a line denies, if it denies one.\<close>

definition denied_tool :: "denial_event \<Rightarrow> string" where
  "denied_tool e = (if tool_name e = [] then ''unknown'' else tool_name e)"

definition denial_of_line :: "string \<Rightarrow> denial_event option" where
  "denial_of_line line =
     (if trim_space line = [] then None
      else case decode_denial (trim_space line) of
        None \<Rightarrow> None
      | Some e \<Rightarrow> if is_action e \<and> denied_event e then Some e else None)"

text \<open>\<open>toolCounts[tool]++\<close> on the map as an association list of distinct keys.\<close>

fun bump :: "string \<Rightarrow> (string \<times> int) list \<Rightarrow> (string \<times> int) list" where
  "bump t [] = [(t, 1)]"
| "bump t ((u, n) # cs) = (if u = t then (u, n + 1) # cs else (u, n) # bump t cs)"

definition sample_of :: "string \<Rightarrow> string" where
  "sample_of params = (if length params > 500 then take 500 params @ ''...'' else params)"

fun denied_loop :: "string list \<Rightarrow> (string \<times> int) list \<Rightarrow> string \<Rightarrow> ((string \<times> int) list \<times> string) \<times> bool" where
  "denied_loop [] cs sample = ((cs, sample), True)"
| "denied_loop (seg # segs) cs sample =
     (if length seg \<ge> max_event_size then ((cs, sample), False)
      else case denial_of_line (drop_cr seg) of
        None \<Rightarrow> denied_loop segs cs sample
      | Some e \<Rightarrow> denied_loop segs (bump (denied_tool e) cs)
          (if sample = [] \<and> de_params e \<noteq> [] then sample_of (de_params e) else sample))"

text \<open>\<open>rerr\<close> is the error the reader ends in, which the scanner reports after the last line.\<close>

definition parse_denied_tools :: "string \<Rightarrow> string option \<Rightarrow> ((string \<times> int) list \<times> string) res" where
  "parse_denied_tools content rerr =
     (case denied_loop (scan_segments content) [] [] of
        (r, False) \<Rightarrow> Inl (ErrText ''bufio.Scanner: token too long'')
      | (r, True) \<Rightarrow> (case rerr of None \<Rightarrow> Inr r | Some e \<Rightarrow> Inl (ErrText e)))"

definition denials_of_object :: "trace_libs \<Rightarrow> string \<Rightarrow> ((string \<times> int) list \<times> string) res" where
  "denials_of_object T body = (case gunzip T body of
     Inl e \<Rightarrow> Inl (ErrText e)
   | Inr (content, rerr) \<Rightarrow> parse_denied_tools content rerr)"

definition parse_trace_denials :: "server \<Rightarrow> string \<Rightarrow> ((string \<times> int) list \<times> string) res act" where
  "parse_trace_denials S key = do {
     d \<leftarrow> s3_download key;
     State_Monad.return (case d of Inl e \<Rightarrow> Inl e | Inr body \<Rightarrow> denials_of_object (sv_trace S) body) }"

section \<open>Patterns\<close>

record denial_pattern =
  dp_agent :: string
  dp_tool :: string
  dp_count :: int
  dp_run_ids :: "string list"
  dp_sample :: string

text \<open>
  One tool of one run entered into the patterns; a pattern's \<open>RunIDs\<close> are the ids \<open>runIDSeen\<close> holds.
\<close>

fun add_tool :: "run \<Rightarrow> string \<Rightarrow> string \<times> int \<Rightarrow> denial_pattern list \<Rightarrow> denial_pattern list" where
  "add_tool q sample (t, n) [] =
     [\<lparr>dp_agent = r_agent_name q, dp_tool = t, dp_count = n, dp_run_ids = [r_id q], dp_sample = sample\<rparr>]"
| "add_tool q sample (t, n) (p # ps) =
     (if dp_agent p = r_agent_name q \<and> dp_tool p = t
      then p\<lparr>dp_count := dp_count p + n,
             dp_run_ids := (if r_id q \<in> set (dp_run_ids p) then dp_run_ids p else dp_run_ids p @ [r_id q]),
             dp_sample := (if sample \<noteq> [] \<and> dp_sample p = [] then sample else dp_sample p)\<rparr> # ps
      else p # add_tool q sample (t, n) ps)"

text \<open>The tools of one run: from its object, or the row's count under \<open>unknown\<close>.\<close>

definition run_tools :: "server \<Rightarrow> bool \<Rightarrow> run \<Rightarrow> ((string \<times> int) list \<times> string) act" where
  "run_tools S has_s3 q =
     (if has_s3 \<and> r_storage_key q \<noteq> [] then do {
        d \<leftarrow> parse_trace_denials S (r_storage_key q);
        State_Monad.return (case d of
          Inl e \<Rightarrow> ([(''unknown'', r_actions_denied q)], [])
        | Inr r \<Rightarrow> r) }
      else State_Monad.return ([(''unknown'', r_actions_denied q)], []))"

text \<open>\<open>ranged\<close> is the order in which the two maps are ranged over.\<close>

fun pattern_loop :: "server \<Rightarrow> bool \<Rightarrow> ((string \<times> int) list \<Rightarrow> (string \<times> int) list) \<Rightarrow> run list \<Rightarrow>
    denial_pattern list \<Rightarrow> denial_pattern list act" where
  "pattern_loop S has_s3 ranged [] ps = State_Monad.return ps"
| "pattern_loop S has_s3 ranged (q # qs) ps =
     (if r_actions_denied q = 0 then pattern_loop S has_s3 ranged qs ps
      else do {
        tools \<leftarrow> run_tools S has_s3 q;
        pattern_loop S has_s3 ranged qs (fold (add_tool q (snd tools)) (ranged (fst tools)) ps) })"

definition detect_denial_patterns :: "server \<Rightarrow> bool \<Rightarrow> ((string \<times> int) list \<Rightarrow> (string \<times> int) list) \<Rightarrow>
    (denial_pattern list \<Rightarrow> denial_pattern list) \<Rightarrow> string \<Rightarrow> int \<Rightarrow> int \<Rightarrow> denial_pattern list res act" where
  "detect_denial_patterns S has_s3 ranged picked org window_days threshold = do {
     res \<leftarrow> db_call (list_runs org [] 500 0);
     case res of
       Inl e \<Rightarrow> State_Monad.return (Inl e)
     | Inr qs \<Rightarrow> do {
         ps \<leftarrow> pattern_loop S has_s3 ranged qs [];
         State_Monad.return (Inr (filter (\<lambda>p. dp_count p \<ge> threshold) (picked ps))) } }"

text \<open>\<open>json.Marshal\<close> of the two maps.\<close>

definition generate_proposal :: "string \<Rightarrow> denial_pattern \<Rightarrow> proposal" where
  "generate_proposal org p =
     \<lparr>pr_id = [], pr_org = org, pr_agent_name = dp_agent p, pr_status = [], pr_trigger = ''denial_pattern'',
      pr_evidence = object_text [(''denied_tool'', json_string (dp_tool p)), (''denial_count'', show_int (dp_count p)),
        (''run_ids'', ''['' @ join_with '','' (map json_string (dp_run_ids p)) @ '']'')],
      pr_rule = object_text [(''id'', json_string (''allow-'' @ dp_tool p)), (''protocol'', json_string ''mcp''),
        (''method'', json_string ''tool_call''), (''target'', json_string (dp_tool p)), (''action'', json_string ''allow'')],
      pr_created_at = 0, pr_decided_at = None, pr_decided_by = None\<rparr>"

section \<open>Classification\<close>

text \<open>The confidence is kept as the number's text; \<open>float_ok\<close> says whether it fits a \<open>float64\<close>.\<close>

record classification =
  cl_intent :: string
  cl_category :: string
  cl_is_gap :: bool
  cl_confidence :: string
  cl_reasoning :: string

record classifier =
  cf_key :: string
  cf_message :: "string \<Rightarrow> string + (string \<times> string) list"
  cf_float_ok :: "string \<Rightarrow> bool"

definition classify_prompt :: "string \<Rightarrow> string \<Rightarrow> int \<Rightarrow> string" where
  "classify_prompt tool params n = ''Classify this denied agent action:'' @ newline @ ''Tool: '' @ tool @ newline @
     ''Parameters: '' @ params @ newline @ ''Denial count (recent): '' @ show_int n @ newline @ newline @
     ''Is this likely a policy gap (user wants it allowed but hasn'' @ [CHR 0x27] @ ''t configured it) or a correct denial (user intentionally blocks this)?'' @
     newline @ newline @
     jq ''Respond with JSON only, no other text: {`intent`: `...`, `category`: `...`, `is_gap`: bool, `confidence`: 0.0-1.0, `reasoning`: `...`}''"

definition fallback :: "string \<Rightarrow> int \<Rightarrow> string \<Rightarrow> classification" where
  "fallback tool n why = \<lparr>cl_intent = tool, cl_category = ''pending_classification'', cl_is_gap = (n > 10),
     cl_confidence = ''0.5'', cl_reasoning = why\<rparr>"

text \<open>From the first brace on, up to the last closing one.\<close>

definition json_part :: "string \<Rightarrow> string" where
  "json_part text =
     (let s = (case index_of text ''{'' of Some i \<Rightarrow> drop i text | None \<Rightarrow> text)
      in case last_index_of s ''}'' of Some i \<Rightarrow> take (i + 1) s | None \<Rightarrow> s)"

definition dec_number :: "(string \<Rightarrow> bool) \<Rightarrow> string \<Rightarrow> json \<Rightarrow> string option" where
  "dec_number ok acc v = (case v of JNull \<Rightarrow> Some acc | JNum n \<Rightarrow> if ok n then Some n else None | _ \<Rightarrow> None)"

definition decode_classification :: "(string \<Rightarrow> bool) \<Rightarrow> string \<Rightarrow> classification option" where
  "decode_classification ok s = Option.bind (unmarshal_struct s) (\<lambda>ms.
     case (field_string ''intent'' ms, field_string ''category'' ms, field_bool ''is_gap'' ms,
           decode_field (dec_number ok) ''confidence'' ''0'' ms, field_string ''reasoning'' ms) of
       (Some i, Some c, Some g, Some n, Some w) \<Rightarrow>
         Some \<lparr>cl_intent = i, cl_category = c, cl_is_gap = g, cl_confidence = n, cl_reasoning = w\<rparr>
     | _ \<Rightarrow> None)"

definition response_text :: "(string \<times> string) list \<Rightarrow> string" where
  "response_text blocks = concat (map snd (filter (\<lambda>(k, t). k = ''text'' \<and> t \<noteq> []) blocks))"

definition classify_denial :: "classifier \<Rightarrow> string \<Rightarrow> string \<Rightarrow> int \<Rightarrow> classification res" where
  "classify_denial C tool params n =
     (if cf_key C = [] then Inr \<lparr>cl_intent = ''unknown'', cl_category = ''unclassified'', cl_is_gap = False,
        cl_confidence = ''0'', cl_reasoning = ''no LLM API key configured''\<rparr>
      else case cf_message C (classify_prompt tool params n) of
        Inl e \<Rightarrow> Inl (ErrText (''anthropic API call: '' @ e))
      | Inr blocks \<Rightarrow>
          let text = trim_space (response_text blocks) in
          if text = [] then Inr (fallback tool n (''empty LLM response '' @ em_dash @ '' fallback to threshold''))
          else case decode_classification (cf_float_ok C) (json_part text) of
            None \<Rightarrow> Inr (fallback tool n (''LLM response parse failed '' @ em_dash @ '' fallback to threshold''))
          | Some c \<Rightarrow> Inr c)"

section \<open>The proposer and the worker\<close>

fun propose_all :: "server \<Rightarrow> classifier \<Rightarrow> string \<Rightarrow> denial_pattern list \<Rightarrow> unit act" where
  "propose_all S C org [] = State_Monad.return ()"
| "propose_all S C org (p # ps) =
     (case classify_denial C (dp_tool p) (dp_sample p) (dp_count p) of
        Inl e \<Rightarrow> propose_all S C org ps
      | Inr c \<Rightarrow>
          if \<not> cl_is_gap c then propose_all S C org ps
          else do {
            _ \<leftarrow> db_call (insert_proposal (sv_env S) (generate_proposal org p));
            propose_all S C org ps })"

definition process_org :: "server \<Rightarrow> bool \<Rightarrow> ((string \<times> int) list \<Rightarrow> (string \<times> int) list) \<Rightarrow>
    (denial_pattern list \<Rightarrow> denial_pattern list) \<Rightarrow> classifier \<Rightarrow> string \<Rightarrow> unit res act" where
  "process_org S has_s3 ranged picked C org = do {
     res \<leftarrow> detect_denial_patterns S has_s3 ranged picked org 7 5;
     case res of
       Inl e \<Rightarrow> State_Monad.return (Inl e)
     | Inr ps \<Rightarrow> do { propose_all S C org ps; State_Monad.return (Inr ()) } }"

fun process_orgs :: "server \<Rightarrow> bool \<Rightarrow> ((string \<times> int) list \<Rightarrow> (string \<times> int) list) \<Rightarrow>
    (denial_pattern list \<Rightarrow> denial_pattern list) \<Rightarrow> classifier \<Rightarrow> string list \<Rightarrow> unit act" where
  "process_orgs S has_s3 ranged picked C [] = State_Monad.return ()"
| "process_orgs S has_s3 ranged picked C (org # gs) = do {
     _ \<leftarrow> process_org S has_s3 ranged picked C org;
     process_orgs S has_s3 ranged picked C gs }"

definition governance_poll :: "server \<Rightarrow> bool \<Rightarrow> ((string \<times> int) list \<Rightarrow> (string \<times> int) list) \<Rightarrow>
    (denial_pattern list \<Rightarrow> denial_pattern list) \<Rightarrow> classifier \<Rightarrow> unit res act" where
  "governance_poll S has_s3 ranged picked C = do {
     res \<leftarrow> db_call list_orgs;
     case res of
       Inl e \<Rightarrow> State_Monad.return (Inl e)
     | Inr gs \<Rightarrow> do { process_orgs S has_s3 ranged picked C gs; State_Monad.return (Inr ()) } }"

text \<open>\<open>Run\<close>: one poll per tick, whatever the last one returned, until the context ends.\<close>

fun governance_run :: "server \<Rightarrow> bool \<Rightarrow> ((string \<times> int) list \<Rightarrow> (string \<times> int) list) \<Rightarrow>
    (denial_pattern list \<Rightarrow> denial_pattern list) \<Rightarrow> classifier \<Rightarrow> bool list \<Rightarrow> unit act" where
  "governance_run S has_s3 ranged picked C [] = State_Monad.return ()"
| "governance_run S has_s3 ranged picked C (tick # ts) =
     (if tick then do { _ \<leftarrow> governance_poll S has_s3 ranged picked C; governance_run S has_s3 ranged picked C ts }
      else State_Monad.return ())"

section \<open>What the patterns count\<close>

definition pattern_key :: "denial_pattern \<Rightarrow> string \<times> string" where
  "pattern_key p = (dp_agent p, dp_tool p)"

definition entries :: "string \<times> string \<Rightarrow> denial_pattern list \<Rightarrow> int" where
  "entries k ps = sum_list (map dp_count (filter (\<lambda>p. pattern_key p = k) ps))"

definition tool_total :: "string \<Rightarrow> (string \<times> int) list \<Rightarrow> int" where
  "tool_total t cs = sum_list (map snd (filter (\<lambda>(u, n). u = t) cs))"

lemma tool_total_simps [simp]:
  "tool_total t [] = 0" "tool_total t ((u, n) # cs) = (if u = t then n else 0) + tool_total t cs"
  by (simp_all add: tool_total_def)

lemma tool_total_bump [simp]: "tool_total t (bump u cs) = tool_total t cs + (if u = t then 1 else 0)"
  by (induction u cs rule: bump.induct) auto

lemma tool_total_mset: "mset cs = mset cs' \<Longrightarrow> tool_total t cs = tool_total t cs'"
  unfolding tool_total_def by (metis (no_types, lifting) mset_filter mset_map sum_mset_sum_list)

lemma add_tool_entries:
  "entries k (add_tool q s (t, n) ps) = entries k ps + (if k = (r_agent_name q, t) then n else 0)"
  by (induction ps) (auto simp: entries_def pattern_key_def)

lemma add_tool_keys:
  "set (map pattern_key (add_tool q s (t, n) ps)) = insert (r_agent_name q, t) (set (map pattern_key ps))"
  "distinct (map pattern_key ps) \<Longrightarrow> distinct (map pattern_key (add_tool q s (t, n) ps))"
proof -
  show *: "set (map pattern_key (add_tool q s (t, n) ps)) = insert (r_agent_name q, t) (set (map pattern_key ps))" for ps
    by (induction ps) (auto simp: pattern_key_def)
  show "distinct (map pattern_key ps) \<Longrightarrow> distinct (map pattern_key (add_tool q s (t, n) ps))"
  proof (induction ps)
    case (Cons p ps)
    show ?case
    proof (cases "dp_agent p = r_agent_name q \<and> dp_tool p = t")
      case True
      with Cons.prems show ?thesis by (simp add: pattern_key_def)
    next
      case False
      then have "pattern_key p \<noteq> (r_agent_name q, t)" by (simp add: pattern_key_def)
      with False Cons * [of ps] show ?thesis by auto
    qed
  qed simp
qed

lemma add_tools:
  "entries (a, t) (fold (add_tool q s) cs ps) = entries (a, t) ps + (if a = r_agent_name q then tool_total t cs else 0)"
  "set (map pattern_key (fold (add_tool q s) cs ps)) = Pair (r_agent_name q) ` fst ` set cs \<union> set (map pattern_key ps)"
  "distinct (map pattern_key ps) \<Longrightarrow> distinct (map pattern_key (fold (add_tool q s) cs ps))"
proof (induction cs arbitrary: ps)
  case (Cons c cs)
  obtain u n where c: "c = (u, n)" by (cases c)
  { case 1 show ?case using Cons.IH(1) [of "add_tool q s c ps"] by (auto simp: c add_tool_entries) }
  { case 2 show ?case using Cons.IH(2) [of "add_tool q s c ps"] by (simp only: fold_Cons comp_apply c add_tool_keys) auto }
  { case 3 then show ?case using Cons.IH(3) [of "add_tool q s c ps"] by (simp only: fold_Cons comp_apply c add_tool_keys) }
qed auto

text \<open>The denials of one tool in one run, from the lines of its object or from the row.\<close>

definition denied_lines :: "string \<Rightarrow> string \<Rightarrow> nat" where
  "denied_lines t content = length (filter (\<lambda>seg. map_option denied_tool (denial_of_line (drop_cr seg)) = Some t) (scan_segments content))"

definition readable :: "server \<Rightarrow> bool \<Rightarrow> (string \<rightharpoonup> string) \<Rightarrow> run \<Rightarrow> string option" where
  "readable S has_s3 blobs q =
     (if has_s3 \<and> r_storage_key q \<noteq> [] then
        (case blobs (r_storage_key q) of
           None \<Rightarrow> None
         | Some body \<Rightarrow> (case gunzip (sv_trace S) body of
             Inr (content, None) \<Rightarrow> if \<exists>seg \<in> set (scan_segments content). length seg \<ge> max_event_size then None else Some content
           | _ \<Rightarrow> None))
      else None)"

definition tool_denials :: "server \<Rightarrow> bool \<Rightarrow> (string \<rightharpoonup> string) \<Rightarrow> string \<Rightarrow> run \<Rightarrow> int" where
  "tool_denials S has_s3 blobs t q = (case readable S has_s3 blobs q of
     Some content \<Rightarrow> int (denied_lines t content)
   | None \<Rightarrow> if t = ''unknown'' then r_actions_denied q else 0)"

lemma denied_loop_counts:
  "(\<exists>seg \<in> set segs. length seg \<ge> max_event_size) \<Longrightarrow> \<not> snd (denied_loop segs cs s)"
  "\<not> (\<exists>seg \<in> set segs. length seg \<ge> max_event_size) \<Longrightarrow> snd (denied_loop segs cs s) \<and>
     tool_total t (fst (fst (denied_loop segs cs s))) = tool_total t cs +
       int (length (filter (\<lambda>seg. map_option denied_tool (denial_of_line (drop_cr seg)) = Some t) segs)) \<and>
     (t \<in> fst ` set (fst (fst (denied_loop segs cs s))) \<longleftrightarrow> t \<in> fst ` set cs \<or>
       (\<exists>seg \<in> set segs. map_option denied_tool (denial_of_line (drop_cr seg)) = Some t))"
proof (induction segs arbitrary: cs s)
  case (Cons seg segs)
  have keys: "fst ` set (bump u xs) = insert u (fst ` set xs)" for u xs
    by (induction u xs rule: bump.induct) auto
  { case 1 show ?case using Cons.IH(1) 1 by (auto split: option.splits) }
  { case 2 show ?case using Cons.IH(2) 2 by (auto simp: keys split: option.splits) }
qed auto

lemma run_tools_ok:
  assumes "w_s3_faults w = []"
  shows "\<exists>cs s. run_state (run_tools S has_s3 q) w = ((cs, s), w) \<and>
    (\<forall>t. tool_total t cs = tool_denials S has_s3 (w_blobs w) t q) \<and>
    (\<forall>t. t \<in> fst ` set cs \<longrightarrow> tool_denials S has_s3 (w_blobs w) t q \<noteq> 0 \<or> r_actions_denied q = 0) \<and>
    (\<forall>t. tool_denials S has_s3 (w_blobs w) t q \<noteq> 0 \<longrightarrow> t \<in> fst ` set cs)"
proof (cases "has_s3 \<and> r_storage_key q \<noteq> []")
  case False
  then show ?thesis by (auto simp: run_tools_def tool_denials_def readable_def)
next
  case True
  have dl: "run_state (s3_download (r_storage_key q)) w =
      (case w_blobs w (r_storage_key q) of
         None \<Rightarrow> Inl (ErrWrap ''download from S3: '' (ErrText ''NoSuchKey'') [])
       | Some body \<Rightarrow> Inr body, w)"
    using assms by (cases w) (auto simp: s3_download_def s3_call_def wrap_error_def Let_def split: option.splits)
  show ?thesis
  proof (cases "readable S has_s3 (w_blobs w) q")
    case None
    then have "run_state (run_tools S has_s3 q) w = (([(''unknown'', r_actions_denied q)], []), w)"
      using True denied_loop_counts(1)
      by (auto simp: run_tools_def parse_trace_denials_def dl readable_def denials_of_object_def parse_denied_tools_def
          split: option.splits sum.splits prod.splits bool.splits if_splits) (metis snd_conv)+
    with None show ?thesis by (auto simp: tool_denials_def)
  next
    case (Some content)
    then obtain body where b: "w_blobs w (r_storage_key q) = Some body" "gunzip (sv_trace S) body = Inr (content, None)"
      and short: "\<not> (\<exists>seg \<in> set (scan_segments content). length seg \<ge> max_event_size)"
      by (auto simp: readable_def split: option.splits sum.splits prod.splits if_splits)
    obtain cs s ok where r: "denied_loop (scan_segments content) [] [] = ((cs, s), ok)" by (metis prod.exhaust)
    note c = denied_loop_counts(2) [OF short, of "[]" "[]", unfolded r]
    then have "run_state (run_tools S has_s3 q) w = ((cs, s), w)"
      using True b r by (simp add: run_tools_def parse_trace_denials_def dl denials_of_object_def parse_denied_tools_def)
    moreover have "tool_total t cs = tool_denials S has_s3 (w_blobs w) t q" for t
      using c [of t] Some by (simp add: tool_denials_def denied_lines_def)
    moreover have "t \<in> fst ` set cs \<longleftrightarrow> tool_denials S has_s3 (w_blobs w) t q \<noteq> 0" for t
      using c [of t] Some by (auto simp: tool_denials_def denied_lines_def filter_empty_conv)
    ultimately show ?thesis by blast
  qed
qed

definition counted :: "string \<Rightarrow> run \<Rightarrow> bool" where
  "counted a q \<longleftrightarrow> r_actions_denied q \<noteq> 0 \<and> r_agent_name q = a"

definition denials_over :: "server \<Rightarrow> bool \<Rightarrow> (string \<rightharpoonup> string) \<Rightarrow> run list \<Rightarrow> string \<times> string \<Rightarrow> int" where
  "denials_over S has_s3 blobs qs k = (\<Sum>q \<leftarrow> filter (counted (fst k)) qs. tool_denials S has_s3 blobs (snd k) q)"

lemma pattern_loop_ok:
  assumes "w_s3_faults w = []" "\<And>l. mset (ranged l) = mset l"
  shows "\<exists>ps'. run_state (pattern_loop S has_s3 ranged qs ps) w = (ps', w) \<and>
    (\<forall>k. entries k ps' = entries k ps + denials_over S has_s3 (w_blobs w) qs k) \<and>
    (\<forall>a t. (a, t) \<in> set (map pattern_key ps') \<longleftrightarrow> (a, t) \<in> set (map pattern_key ps) \<or>
       (\<exists>q \<in> set qs. counted a q \<and> tool_denials S has_s3 (w_blobs w) t q \<noteq> 0)) \<and>
    (distinct (map pattern_key ps) \<longrightarrow> distinct (map pattern_key ps'))"
proof (induction qs arbitrary: ps)
  case Nil
  show ?case by (simp add: denials_over_def)
next
  case (Cons q qs)
  show ?case
  proof (cases "r_actions_denied q = 0")
    case True
    with Cons.IH [of ps] show ?thesis by (simp add: denials_over_def counted_def)
  next
    case False
    from run_tools_ok [OF assms(1), of S has_s3 q] obtain cs s where rt: "run_state (run_tools S has_s3 q) w = ((cs, s), w)"
      and tot: "\<forall>t. tool_total t cs = tool_denials S has_s3 (w_blobs w) t q"
      and some: "\<forall>t. t \<in> fst ` set cs \<longrightarrow> tool_denials S has_s3 (w_blobs w) t q \<noteq> 0 \<or> r_actions_denied q = 0"
      and none: "\<forall>t. tool_denials S has_s3 (w_blobs w) t q \<noteq> 0 \<longrightarrow> t \<in> fst ` set cs"
      by (elim exE conjE)
    have key: "t \<in> fst ` set cs \<longleftrightarrow> tool_denials S has_s3 (w_blobs w) t q \<noteq> 0" for t
      using some none False by metis
    let ?ps = "fold (add_tool q s) (ranged cs) ps"
    have sr: "set (ranged cs) = set cs" using assms(2) by (metis set_mset_mset)
    have e: "entries (a, t) ?ps = entries (a, t) ps + (if a = r_agent_name q then tool_denials S has_s3 (w_blobs w) t q else 0)" for a t
      using add_tools(1) [of a t q s "ranged cs" ps] tot tool_total_mset [OF assms(2)] by simp
    have k: "(a, t) \<in> set (map pattern_key ?ps) \<longleftrightarrow> (a, t) \<in> set (map pattern_key ps) \<or>
        a = r_agent_name q \<and> tool_denials S has_s3 (w_blobs w) t q \<noteq> 0" for a t
      unfolding add_tools(2) using key [of t] sr by auto
    have run: "run_state (pattern_loop S has_s3 ranged (q # qs) ps) w = run_state (pattern_loop S has_s3 ranged qs ?ps) w"
      using False rt by simp
    obtain ps' where ih: "run_state (pattern_loop S has_s3 ranged qs ?ps) w = (ps', w)"
      "\<forall>k. entries k ps' = entries k ?ps + denials_over S has_s3 (w_blobs w) qs k"
      "\<forall>a t. (a, t) \<in> set (map pattern_key ps') \<longleftrightarrow> (a, t) \<in> set (map pattern_key ?ps) \<or>
         (\<exists>q \<in> set qs. counted a q \<and> tool_denials S has_s3 (w_blobs w) t q \<noteq> 0)"
      "distinct (map pattern_key ?ps) \<longrightarrow> distinct (map pattern_key ps')"
      using Cons.IH [of ?ps] by (elim exE conjE)
    have "entries k ps' = entries k ps + denials_over S has_s3 (w_blobs w) (q # qs) k" for k
      using spec [OF ih(2), of k] e [of "fst k" "snd k"] False by (simp add: denials_over_def counted_def)
    moreover have "(a, t) \<in> set (map pattern_key ps') \<longleftrightarrow> (a, t) \<in> set (map pattern_key ps) \<or>
         (\<exists>q \<in> set (q # qs). counted a q \<and> tool_denials S has_s3 (w_blobs w) t q \<noteq> 0)" for a t
      using ih(3) k [of a t] False by (auto simp: counted_def)
    moreover have "distinct (map pattern_key ps) \<longrightarrow> distinct (map pattern_key ps')"
      using ih(4) add_tools(3) by blast
    ultimately show ?thesis unfolding run ih(1) by blast
  qed
qed

lemma entries_none: "k \<notin> pattern_key ` set ps \<Longrightarrow> entries k ps = 0"
  by (induction ps) (auto simp: entries_def)

lemma entries_one:
  assumes "distinct (map pattern_key ps)" "p \<in> set ps"
  shows "entries (pattern_key p) ps = dp_count p"
  using assms
proof (induction ps)
  case (Cons r ps)
  then have r: "entries (pattern_key r) ps = 0" by (intro entries_none) auto
  show ?case
  proof (cases "p = r")
    case True
    with r show ?thesis by (simp add: entries_def)
  next
    case False
    with Cons.prems have "p \<in> set ps" "pattern_key r \<noteq> pattern_key p" by auto
    with Cons show ?thesis by (simp add: entries_def)
  qed
qed simp

text \<open>
  C35. The detector counts denials exactly: while the bucket answers, and in whatever order Go ranges
  over its maps, the patterns it reports are those agent and tool pairs, each once, whose denials over
  the runs listed reach the threshold, with that number as their count: the denied action lines that
  name the tool, or the row's own count under \<open>unknown\<close> for a run whose object cannot be read.
\<close>

theorem denial_patterns_exact:
  assumes "w_s3_faults w = []" and "list_runs org [] 500 0 (w_db w) = (Inr qs, d)"
    and "\<And>l. mset (ranged l) = mset l" and "\<And>l. mset (picked l) = mset l" and "0 < threshold"
  shows "\<exists>ps. fst (run_state (detect_denial_patterns S has_s3 ranged picked org window threshold) w) = Inr ps \<and>
    distinct (map pattern_key ps) \<and>
    (\<forall>p \<in> set ps. dp_count p = denials_over S has_s3 (w_blobs w) qs (pattern_key p)) \<and>
    (\<forall>k. k \<in> pattern_key ` set ps \<longleftrightarrow> denials_over S has_s3 (w_blobs w) qs k \<ge> threshold)"
proof -
  let ?w = "w\<lparr>w_db := d\<rparr>" and ?D = "denials_over S has_s3 (w_blobs w) qs"
  have "w_s3_faults ?w = []" using assms(1) by simp
  from pattern_loop_ok [OF this assms(3), of S has_s3 qs "[]"] obtain ps where
    run: "run_state (pattern_loop S has_s3 ranged qs []) ?w = (ps, ?w)"
    and e: "\<And>k. entries k ps = ?D k"
    and k: "\<And>a t. (a, t) \<in> set (map pattern_key ps) \<longleftrightarrow>
       (\<exists>q \<in> set qs. counted a q \<and> tool_denials S has_s3 (w_blobs w) t q \<noteq> 0)"
    and dis: "distinct (map pattern_key ps)"
    by (auto simp: entries_def)
  have sp: "set (picked ps) = set ps" using assms(4) by (metis set_mset_mset)
  have dp: "distinct (map pattern_key (picked ps))"
    using dis assms(4) by (metis mset_eq_imp_distinct_iff mset_map)
  have cnt: "dp_count p = ?D (pattern_key p)" if "p \<in> set ps" for p
    using entries_one [OF dis that] e by simp
  have in_ps: "k \<in> pattern_key ` set ps" if "?D k \<noteq> 0" for k
    using that e entries_none [of k ps] by metis
  let ?ps = "filter (\<lambda>p. dp_count p \<ge> threshold) (picked ps)"
  have "fst (run_state (detect_denial_patterns S has_s3 ranged picked org window threshold) w) = Inr ?ps"
    using run assms(2) by (simp add: detect_denial_patterns_def db_call_def)
  moreover have "distinct (map pattern_key ?ps)" using dp by (rule distinct_map_filter)
  moreover have "\<forall>p \<in> set ?ps. dp_count p = ?D (pattern_key p)" using cnt sp by auto
  moreover have "k \<in> pattern_key ` set ?ps \<longleftrightarrow> ?D k \<ge> threshold" for k
  proof
    assume "?D k \<ge> threshold"
    with in_ps [of k] assms(5) obtain p where "p \<in> set ps" "pattern_key p = k" by auto
    with cnt [of p] sp \<open>?D k \<ge> threshold\<close> show "k \<in> pattern_key ` set ?ps" by auto
  qed (use cnt sp in auto)
  ultimately show ?thesis by blast
qed

text \<open>
  Two runs of one agent: the first one's object denies \<open>mail\<close> once, the second one has none.
\<close>

definition denied_line :: string where
  "denied_line = jq ''{`t`:`action`,`target`:`mail`,`auth`:`deny`}''"

definition denied_runs :: "run list" where
  "denied_runs = [demo_run ''a'' ''r1'' 0, demo_run ''a'' ''r2'' 0]"

definition denied_world :: world where
  "denied_world = demo_world\<lparr>w_db := demo_db\<lparr>runs := denied_runs\<rparr>, w_blobs := [''a/r1'' \<mapsto> denied_line]\<rparr>"

lemma denial_patterns_exact_witness:
  "denials_over demo_server True (w_blobs denied_world) denied_runs (''bot'', ''mail'') = 1 \<and>
   denials_over demo_server True (w_blobs denied_world) denied_runs (''bot'', ''unknown'') = 1 \<and>
   (\<exists>ps. fst (run_state (detect_denial_patterns demo_server True rev id ''a'' 7 1) denied_world) = Inr ps \<and>
      {(''bot'', ''mail''), (''bot'', ''unknown'')} \<subseteq> pattern_key ` set ps)"
proof -
  have line: "length denied_line = 44" "map_option denied_tool (denial_of_line (drop_cr denied_line)) = Some ''mail''"
    "scan_segments denied_line = [denied_line]"
    by code_simp+
  have r: "readable demo_server True (w_blobs denied_world) (demo_run ''a'' ''r1'' 0) = Some denied_line"
    "readable demo_server True (w_blobs denied_world) (demo_run ''a'' ''r2'' 0) = None"
    by (simp_all add: readable_def denied_world_def demo_run_def demo_server_def demo_traces_def line max_event_size_def)
  have c: "denials_over demo_server True (w_blobs denied_world) denied_runs (''bot'', ''mail'') = 1"
    "denials_over demo_server True (w_blobs denied_world) denied_runs (''bot'', ''unknown'') = 1"
    using line(2) by (auto simp: denials_over_def denied_runs_def counted_def tool_denials_def denied_lines_def r line(3))
      (auto simp: demo_run_def)
  have l: "list_runs ''a'' [] 500 0 (w_db denied_world) = (Inr denied_runs, w_db denied_world)" by code_simp
  have "\<exists>ps. fst (run_state (detect_denial_patterns demo_server True rev id ''a'' 7 1) denied_world) = Inr ps \<and>
    distinct (map pattern_key ps) \<and>
    (\<forall>p \<in> set ps. dp_count p = denials_over demo_server True (w_blobs denied_world) denied_runs (pattern_key p)) \<and>
    (\<forall>k. k \<in> pattern_key ` set ps \<longleftrightarrow> denials_over demo_server True (w_blobs denied_world) denied_runs k \<ge> 1)"
    by (rule denial_patterns_exact [OF _ l]) (simp_all add: denied_world_def demo_world_def)
  with c show ?thesis by fastforce
qed

end
