(* ===== verification/Server_Props.thy ===== *)
theory Server_Props
  imports Trace_Store
begin

text \<open>
  What a client gets from the server: the shape of every answer of a protected route, what a password
  login accepts and what its token is good for, and what an OIDC callback must carry before it sets a
  session cookie.
\<close>

section \<open>The shape of answers\<close>

definition answers :: "('a \<Rightarrow> bool) \<Rightarrow> 'a act \<Rightarrow> bool" where
  "answers P m \<longleftrightarrow> (\<forall>w. P (fst (run_state m w)))"

lemma answers_return: "P x \<Longrightarrow> answers P (State_Monad.return x)"
  by (simp add: answers_def)

lemma answers_bind: "(\<And>x. answers P (k x)) \<Longrightarrow> answers P (State_Monad.bind m k)"
  by (auto simp: answers_def split: prod.splits)

lemma answers_if: "(b \<Longrightarrow> answers P m) \<Longrightarrow> (\<not> b \<Longrightarrow> answers P n) \<Longrightarrow> answers P (if b then m else n)"
  by simp

lemma answers_option: "(v = None \<Longrightarrow> answers P m) \<Longrightarrow> (\<And>x. v = Some x \<Longrightarrow> answers P (k x)) \<Longrightarrow>
    answers P (case v of None \<Rightarrow> m | Some x \<Rightarrow> k x)"
  by (cases v) auto

lemma answers_sum: "(\<And>e. v = Inl e \<Longrightarrow> answers P (m e)) \<Longrightarrow> (\<And>x. v = Inr x \<Longrightarrow> answers P (k x)) \<Longrightarrow>
    answers P (case v of Inl e \<Rightarrow> m e | Inr x \<Rightarrow> k x)"
  by (cases v) auto

lemma answers_prod: "(\<And>a b. v = (a, b) \<Longrightarrow> answers P (k a b)) \<Longrightarrow> answers P (case v of (a, b) \<Rightarrow> k a b)"
  by (cases v) auto

text \<open>
  Success or a redirect with the headers the handlers set, or a status from 400 up whose body is
  \<open>{"error": ...}\<close>.
\<close>

definition handler_headers :: "string list" where
  "handler_headers = [''Content-Type'', ''Location'', ''Content-Disposition'']"

definition answer_ok :: "response \<Rightarrow> bool" where
  "answer_ok resp \<longleftrightarrow>
     rs_status resp \<in> {200, 201, 202, 204, 302} \<and> set (map fst (rs_headers resp)) \<subseteq> set handler_headers \<or>
     rs_status resp \<in> {400, 401, 403, 404, 409, 413, 422, 500, 503} \<and>
     (\<exists>msg. resp = write_json_error (rs_status resp) msg)"

lemma answer_ok_error: "c \<in> {400, 401, 403, 404, 409, 413, 422, 500, 503} \<Longrightarrow> answer_ok (write_json_error c msg)"
  by (auto simp: answer_ok_def write_json_error_def reply_def)

lemma answer_ok_reply: "c \<in> {200, 201, 202} \<Longrightarrow> answer_ok (reply c b)"
  by (auto simp: answer_ok_def reply_def handler_headers_def)

lemma answer_ok_plain:
  "answer_ok (redirect url)" "c \<in> {200, 201, 202, 204, 302} \<Longrightarrow> answer_ok (no_content c)"
  "answer_ok \<lparr>rs_status = 200, rs_body = b,
     rs_headers = [(''Content-Type'', t), (''Content-Disposition'', d)], rs_cookies = cs\<rparr>"
  by (auto simp: answer_ok_def redirect_def no_content_def handler_headers_def)

lemma answers_ok:
  "c \<in> {200, 201, 202} \<Longrightarrow> answers answer_ok (respond c b)"
  "c \<in> {400, 401, 403, 404, 409, 413, 422, 500, 503} \<Longrightarrow> answers answer_ok (respond_error c msg)"
  "(\<And>g. answers answer_ok (k g)) \<Longrightarrow> answers answer_ok (require_org r k)"
  "(\<And>g. answers answer_ok (k g)) \<Longrightarrow> answers answer_ok (require_matching_org r k)"
  by (auto simp: respond_def respond_error_def require_org_def require_matching_org_def Let_def

      intro!: answers_return answer_ok_error answer_ok_reply)

lemmas answer_rules = answers_ok answers_return answers_bind answers_if answers_option answers_sum answers_prod
  answer_ok_error answer_ok_reply answer_ok_plain

lemma traces_answer:
  "answers answer_ok (handle_upload_trace S r)" "answers answer_ok (handle_list_traces S r)"
  "answers answer_ok (handle_get_trace S r)" "answers answer_ok (handle_get_trace_events S r)"
  "answers answer_ok (handle_delete_trace S r)"
  by (auto simp: handle_upload_trace_def handle_list_traces_def handle_get_trace_def handle_get_trace_events_def
      handle_delete_trace_def index_trace_def index_failed_def upload_refused_def upload_accepted_def
      Let_def intro!: answer_rules)

lemma agents_answer:
  "answers answer_ok (handle_register_agent S r)" "answers answer_ok (handle_list_agents S r)"
  "answers answer_ok (handle_get_agent S r)" "answers answer_ok (handle_get_agent_baseline S r)"
  "answers answer_ok (handle_get_agent_policy S r)" "answers answer_ok (handle_update_agent_policy S r)"
  "answers answer_ok (handle_get_org S r)" "answers answer_ok (handle_create_api_key S r)"
  "answers answer_ok (handle_revoke_api_key S r)" "answers answer_ok (handle_get_user S r)"
  "answers answer_ok (handle_create_org S r)" "answers answer_ok (handle_onboard S r)"
  by (auto simp: handle_register_agent_def handle_list_agents_def handle_get_agent_def handle_get_agent_baseline_def
      handle_get_agent_policy_def handle_update_agent_policy_def handle_get_org_def handle_create_api_key_def
      handle_revoke_api_key_def handle_get_user_def handle_onboard_def handle_create_org_def Let_def
      intro!: answer_rules)

lemma policies_answer:
  "answers answer_ok (handle_upsert_policy_set S r)" "answers answer_ok (handle_get_policy_set S r)"
  "answers answer_ok (handle_resolve_selector S r)" "answers answer_ok (handle_set_agent_labels S r)"
  "answers answer_ok (handle_policy_applied S r)" "answers answer_ok (handle_post_intent S r)"
  "answers answer_ok (handle_list_audit_events S r)"
  "answers answer_ok (handle_list_proposals S r)" "answers answer_ok (handle_get_proposal S r)"
  "answers answer_ok (decide_proposal S r st act)"
  by (auto simp: handle_upsert_policy_set_def check_policy_set_def write_policy_set_def handle_get_policy_set_def
      handle_resolve_selector_def handle_set_agent_labels_def handle_policy_applied_def handle_post_intent_def
      publish_intent_def intent_agent_def handle_list_audit_events_def handle_list_proposals_def
      handle_get_proposal_def decide_proposal_def Let_def
      intro!: answer_rules split: list.splits)

lemma identity_answer:
  "answers answer_ok (handle_get_sso S r)" "answers answer_ok (handle_put_sso S r)"
  "answers answer_ok (handle_list_scim_tokens S r)" "answers answer_ok (handle_create_scim_token S r)"
  "answers answer_ok (handle_revoke_scim_token S r)" "answers answer_ok (handle_list_invites S r)"
  "answers answer_ok (handle_create_invite S r)" "answers answer_ok (handle_cancel_invite S r)"
  "answers answer_ok (handle_list_sessions S r)" "answers answer_ok (handle_revoke_session S r)"
  by (auto simp: handle_get_sso_def handle_put_sso_def handle_list_scim_tokens_def handle_create_scim_token_def
      handle_revoke_scim_token_def handle_list_invites_def handle_create_invite_def handle_cancel_invite_def
      handle_list_sessions_def handle_revoke_session_def Let_def intro!: answer_rules)

lemma route_answer: "answers answer_ok (route_handler S rt r)"
  by (cases rt) (simp_all add: traces_answer agents_answer policies_answer identity_answer
      handle_approve_proposal_def handle_reject_proposal_def handle_dismiss_proposal_def)


section \<open>Password login\<close>

definition login_request :: "request \<Rightarrow> string \<Rightarrow> string \<Rightarrow> bool" where
  "login_request r email password \<longleftrightarrow> rq_body r \<noteq> None \<and> email \<noteq> [] \<and> password \<noteq> [] \<and>
     (\<exists>ms raw. decode_max 4096 r = Some ms \<and> field_string ''email'' ms = Some raw \<and>
        field_string ''password'' ms = Some password \<and> email = to_lower (trim_space raw))"

text \<open>The accounts the request's credentials open.\<close>

definition may_login :: "server \<Rightarrow> db \<Rightarrow> string \<Rightarrow> string \<Rightarrow> user_row \<Rightarrow> bool" where
  "may_login S s email password u \<longleftrightarrow> u \<in> set (users s) \<and> u_email u = email \<and> u_provider u = ''local'' \<and>
     verify_password (sv_auth S) (case u_password u of None \<Rightarrow> [] | Some h \<Rightarrow> h) password = None"

lemma login_run:
  assumes "login_request r email password"
  shows "handle_auth_login S r = do {
    res \<leftarrow> db_call (lookup_user_for_login email ''local'');
    case res of
      Inl e \<Rightarrow> respond_error 500 ''internal error''
    | Inr None \<Rightarrow> respond_error 401 ''invalid credentials''
    | Inr (Some u) \<Rightarrow>
        (case verify_password (sv_auth S) (us_password_hash u) password of
           Some e \<Rightarrow> respond_error 401 ''invalid credentials''
         | None \<Rightarrow> login_user S u) }"
  using assms by (auto simp: handle_auth_login_def login_request_def Let_def)

lemma login_malformed:
  assumes "\<nexists>email password. login_request r email password"
  shows "\<exists>msg. handle_auth_login S r = respond_error 400 msg"
  using assms
  by (auto simp: handle_auth_login_def login_request_def Let_def split: Option.bind_splits option.splits)

lemma lookup_user_ok:
  assumes "db_faults s = []" "email \<noteq> []"
  shows "lookup_user_for_login email v s =
    (Inr (map_option user_of (List.find (\<lambda>u. u_email u = email \<and> u_provider u = v) (users s))), s)"
  using assms by (cases s) (simp add: lookup_user_for_login_def select_def stmt_def Let_def)

lemma lookup_user_some:
  assumes "lookup_user_for_login email v s = (Inr (Some u), s')"
  shows "\<exists>row \<in> set (users s). u = user_of row \<and> u_email row = email \<and> u_provider row = v"
  using assms
  by (auto simp: lookup_user_for_login_def select_def stmt_def Let_def find_Some_iff split: if_splits)

text \<open>
  C18. A login attempt tells nothing apart: while the database answers, unless the password verifies
  for the local account of that e-mail address, the answer is the one 401 \<open>invalid credentials\<close>, the
  same whether the account does not exist, belongs to another provider, has no password or has
  another one; and no login attempt, successful or not, changes the world.
\<close>

theorem login_refused_uniformly:
  assumes "db_faults (w_db w) = []" and "db_ok (w_db w)" and "login_request r email password"
  shows "(if \<exists>u. may_login S (w_db w) email password u
      then rs_status (fst (run_state (handle_auth_login S r) w)) \<noteq> 401
      else fst (run_state (handle_auth_login S r) w) = write_json_error 401 ''invalid credentials'') \<and>
    snd (run_state (handle_auth_login S r) w) = w"
proof -
  have e: "email \<noteq> []" using assms(3) by (simp add: login_request_def)
  note run = login_run [OF assms(3), of S] lookup_user_ok [OF assms(1) e, of "''local''"]
  have one: "u = v" if "u \<in> set (users (w_db w))" "v \<in> set (users (w_db w))" "u_email u = u_email v" for u v
    using that assms(2) by (intro distinct_same_key [of u_email "users (w_db w)"]) (auto simp: db_ok_defs)
  have pass: "us_password_hash (user_of u) = (case u_password u of None \<Rightarrow> [] | Some h \<Rightarrow> h)" for u
    by (simp add: user_of_def)
  show ?thesis
  proof (cases "List.find (\<lambda>u. u_email u = email \<and> u_provider u = ''local'') (users (w_db w))")
    case None
    then have "\<nexists>u. may_login S (w_db w) email password u" by (auto simp: may_login_def find_None_iff)
    with None show ?thesis by (auto simp: run db_call_def respond_error_def)
  next
    case (Some u)
    from find_SomeD [OF Some] have u: "u \<in> set (users (w_db w))" "u_email u = email" "u_provider u = ''local''" by auto
    have "(\<exists>v. may_login S (w_db w) email password v) \<longleftrightarrow>
        verify_password (sv_auth S) (us_password_hash (user_of u)) password = None"
      using u one by (auto simp: may_login_def pass)
    with Some show ?thesis
      by (auto simp: run db_call_def respond_error_def login_user_def clock_def respond_def reply_def write_json_error_def
          split: option.splits sum.splits)
  qed
qed

text \<open>
  C19. A session is the user's own: if a login answers 200, the body carries the token issued for a
  local account with that e-mail address whose password verified, and until it expires a request to
  any protected route with that token runs its handler as that user, in that user's organization.
\<close>

theorem login_session:
  assumes "jwt_accepts (sv_auth S)" and "run_state (handle_auth_login S r) w = (resp, w')"
    and "rs_status resp = 200"
  shows "\<exists>email password u tok. login_request r email password \<and> may_login S (w_db w) email password u \<and>
    rs_body resp = JObj [(''token'', JStr tok), (''user'', user_dto (user_of u))] \<and>
    (\<forall>rt r2 w2. header_get ''Authorization'' r2 = ''Bearer '' @ tok \<longrightarrow> \<not> has_prefix tok ''rk_'' \<longrightarrow>
       unix_seconds (w_now w2) < unix_seconds (w_now w + provider_ttl (sv_provider S)) \<longrightarrow>
       protected_route S rt r2 w2 =
         run_state (route_handler S rt (r2\<lparr>rq_ctx_org := u_org u, rq_ctx_user := u_id u\<rparr>)) w2)"
proof -
  obtain email password where lr: "login_request r email password"
  proof (cases "\<exists>email password. login_request r email password")
    case False
    with assms(2) login_malformed [OF False, of S] assms(3) show thesis
      by (auto simp: respond_error_def write_json_error_def reply_def)
  qed (use that in blast)
  have run: "run_state (do {
      res \<leftarrow> db_call (lookup_user_for_login email ''local'');
      case res of
        Inl e \<Rightarrow> respond_error 500 ''internal error''
      | Inr None \<Rightarrow> respond_error 401 ''invalid credentials''
      | Inr (Some u) \<Rightarrow>
          (case verify_password (sv_auth S) (us_password_hash u) password of
             Some e \<Rightarrow> respond_error 401 ''invalid credentials''
           | None \<Rightarrow> login_user S u) }) w = (resp, w')"
    using assms(2) unfolding login_run [OF lr] .
  obtain x d where look: "lookup_user_for_login email ''local'' (w_db w) = (x, d)" by fastforce
  obtain us where x: "x = Inr (Some us)" and pw: "verify_password (sv_auth S) (us_password_hash us) password = None"
    and lu: "run_state (login_user S us) (w\<lparr>w_db := d\<rparr>) = (resp, w')"
    using run look assms(3)
    by (auto simp: db_call_def respond_error_def write_json_error_def reply_def split: sum.splits option.splits)
  from lookup_user_some [OF look [unfolded x]] obtain u where
    u: "u \<in> set (users (w_db w))" "us = user_of u" "u_email u = email" "u_provider u = ''local''" by blast
  obtain tok where tok: "provider_issue (sv_auth S) (sv_provider S) (w_now w) (user_claims us) = Inr tok"
    and body: "rs_body resp = JObj [(''token'', JStr tok), (''user'', user_dto us)]"
    using lu assms(3)
    by (auto simp: login_user_def clock_def respond_def respond_error_def write_json_error_def reply_def
        split: sum.splits if_splits)
  have "protected_route S rt r2 w2 =
      run_state (route_handler S rt (r2\<lparr>rq_ctx_org := u_org u, rq_ctx_user := u_id u\<rparr>)) w2"
    if h: "header_get ''Authorization'' r2 = ''Bearer '' @ tok" and p: "\<not> has_prefix tok ''rk_''"
      and t: "unix_seconds (w_now w2) < unix_seconds (w_now w + provider_ttl (sv_provider S))" for rt r2 w2
  proof -
    have "api_verify S tok w2 = provider_verify (sv_auth S) (sv_provider S) (w_now w2) tok" by (simp add: api_verify_def)
    from sessions.issued_authenticates [OF assms(1) tok t h p, where check = "api_verify S", OF this]
    show ?thesis using u(2) by (simp add: protected_route_def user_claims_def user_of_def)
  qed
  with lr u pw body show ?thesis
    by (intro exI [of _ email] exI [of _ password] exI [of _ u] exI [of _ tok]) (auto simp: may_login_def user_of_def)
qed

section \<open>OIDC login\<close>

lemma lookup_user_users: "lookup_user_for_login email v s = (x, s') \<Longrightarrow> users s' = users s"
  by (auto simp: lookup_user_for_login_def select_def stmt_def Let_def split: if_splits)

lemma create_user_row:
  assumes "create_user_with_password org email role h v s = (Inr us, s')"
  shows "\<exists>u \<in> set (users s'). us = user_of u \<and> u_email u = email \<and> u_provider u = v"
  using assms
  by (auto simp: create_user_with_password_def insert_user_def stmt_def Let_def split: if_splits sum.splits)

lemma match_user_row:
  assumes "run_state (match_user p cl) w = (Inr us, w')"
  shows "w_now w' = w_now w \<and> (\<exists>u \<in> set (users (w_db w')). us = user_of u \<and>
    u_email u = to_lower (oi_email cl) \<and> u_provider u = provider_tag p)"
proof -
  obtain x d where look: "lookup_user_for_login (to_lower (oi_email cl)) (provider_tag p) (w_db w) = (x, d)" by fastforce
  show ?thesis
  proof (cases "\<exists>v. x = Inr (Some v)")
    case True
    then obtain v where x: "x = Inr (Some v)" by blast
    with assms look have "us = v" "w' = w\<lparr>w_db := d\<rparr>" by (auto simp: match_user_def db_call_def)
    with lookup_user_some [OF look [unfolded x]] lookup_user_users [OF look] show ?thesis by auto
  next
    case False
    obtain y e where new: "create_user_with_password (op_default_org p) (to_lower (oi_email cl)) (op_default_role p) []
        (provider_tag p) d = (y, e)" by fastforce
    from False assms look new have "y = Inr us" "w' = w\<lparr>w_db := e\<rparr>"
      by (auto simp: match_user_def db_call_def split: sum.splits option.splits if_splits)
    with create_user_row new show ?thesis by fastforce
  qed
qed

lemma callback_flow_ok:
  assumes "callback_flow S r = Inr (code, flow)"
  shows "code = query_get ''code'' r \<and> code \<noteq> [] \<and> fl_state flow = query_get ''state'' r \<and> fl_state flow \<noteq> [] \<and>
    (\<exists>v. cookie_get ''relic_oidc_flow'' r = Some v \<and> decode_flow_cookie (sv_auth S) (sv_session_secret S) v = Inr flow)"
  using assms by (auto simp: callback_flow_def split: if_splits option.splits sum.splits)


section \<open>Examples\<close>

definition demo_user :: user_row where
  "demo_user = \<lparr>u_id = ''u1'', u_org = ''a'', u_email = ''x@y.z'', u_role = ''admin'', u_created_at = 0,
     u_password = Some ''$secret'', u_provider = ''local''\<rparr>"

definition login_world :: world where
  "login_world = demo_world\<lparr>w_db := demo_db\<lparr>users := [demo_user]\<rparr>\<rparr>"

definition demo_login :: "string \<Rightarrow> request" where
  "demo_login pw = bare_request\<lparr>rq_body := Some (jq ''{`email`:` X@y.z`,`password`:`'' @ pw @ jq ''`}'')\<rparr>"

lemma login_world_ok: "db_faults (w_db login_world) = []" "db_ok (w_db login_world)"
  using demo_db_ok by (simp_all add: login_world_def demo_world_def demo_db_def empty_db_def db_ok_defs)

lemma demo_login_requests:
  "login_request (demo_login ''secret'') ''x@y.z'' ''secret''" "login_request (demo_login ''guess'') ''x@y.z'' ''guess''"
proof -
  have d: "decode_first (jq ''{`email`:` X@y.z`,`password`:`secret`}'') =
      Some [(''email'', JStr '' X@y.z''), (''password'', JStr ''secret'')]"
    "decode_first (jq ''{`email`:` X@y.z`,`password`:`guess`}'') =
      Some [(''email'', JStr '' X@y.z''), (''password'', JStr ''guess'')]"
    "to_lower (trim_space '' X@y.z'') = ''x@y.z''"
    "field_string ''email'' [(''email'', JStr '' X@y.z''), (''password'', JStr p)] = Some '' X@y.z''"
    "field_string ''password'' [(''email'', JStr '' X@y.z''), (''password'', JStr p)] = Some p" for p
    by (code_simp, code_simp, code_simp, simp_all add: json_eval)
  show "login_request (demo_login ''secret'') ''x@y.z'' ''secret''" "login_request (demo_login ''guess'') ''x@y.z'' ''guess''"
    using d by (simp_all add: login_request_def demo_login_def bare_request_def decode_max_def jq_def)
qed

lemma login_refused_uniformly_witness:
  "fst (run_state (handle_auth_login demo_server (demo_login ''guess'')) login_world) =
     write_json_error 401 ''invalid credentials''"
proof -
  have "\<nexists>u. may_login demo_server (w_db login_world) ''x@y.z'' ''guess'' u"
    by (simp add: may_login_def login_world_def demo_user_def verify_password_def demo_server_def demo_auth_def)
  with login_refused_uniformly [OF login_world_ok demo_login_requests(2), of demo_server] show ?thesis by simp
qed

lemma login_session_witness:
  "\<exists>resp w' tok. run_state (handle_auth_login demo_server (demo_login ''secret'')) login_world = (resp, w') \<and>
     rs_body resp = JObj [(''token'', JStr tok), (''user'', user_dto (user_of demo_user))]"
proof -
  obtain resp w' where e: "run_state (handle_auth_login demo_server (demo_login ''secret'')) login_world = (resp, w')"
    by fastforce
  have "rs_status resp = 200"
    using e
    by (simp add: login_run [OF demo_login_requests(1)] lookup_user_ok login_world_ok db_call_def)
      (auto simp: login_world_def demo_user_def user_of_def verify_password_def demo_server_def demo_auth_def
        login_user_def clock_def demo_local_def local_issue_def user_claims_def Let_def respond_def reply_def demo_world_def)
  moreover have "jwt_accepts (sv_auth demo_server)" using demo_auth_accepts by (simp add: demo_server_def)
  ultimately have "\<exists>email password u tok. login_request (demo_login ''secret'') email password \<and>
      may_login demo_server (w_db login_world) email password u \<and>
      rs_body resp = JObj [(''token'', JStr tok), (''user'', user_dto (user_of u))]"
    using login_session [OF _ e] by blast
  then show ?thesis using e by (auto simp: may_login_def login_world_def)
qed

definition demo_oidc :: oidc_provider where
  "demo_oidc = \<lparr>op_config = \<lparr>oc_discovery = ''https://idp'', oc_client_id = ''id'', oc_redirect = ''https://app'',
       oc_default_org = ''a'', oc_default_role = [], oc_secret = ''k'', oc_ttl = 0\<rparr>,
     op_key = ''k'', op_ttl = day_nanos, op_default_org = ''a'', op_default_role = ''member'',
     op_exchange = (\<lambda>code verifier. if code = ''c'' \<and> verifier = ''v'' then
       IdToken ''n'' (Some \<lparr>oi_subject = ''s'', oi_email = ''X@y.z'', oi_email_verified = True, oi_name = []\<rparr>)
       else ExchangeFailed ''bad code''),
     op_auth_url = (\<lambda>st params. ''https://idp'')\<rparr>"

definition oidc_server :: server where
  "oidc_server = demo_server\<lparr>sv_provider := OidcAuth demo_oidc\<rparr>"

definition oidc_world :: world where
  "oidc_world = demo_world\<lparr>w_db := demo_db\<lparr>users := [demo_user\<lparr>u_provider := ''oidc:https://idp''\<rparr>]\<rparr>\<rparr>"


end
