(* ===== verification/Json_Write.thy ===== *)
theory Json_Write
  imports Handlers_Policy
begin

text \<open>
  \<open>json.Marshal\<close> and \<open>json.MarshalIndent\<close> of a whole value, and the theorem that what they write is read
  back: \<open>nl\<close> is the line break and indentation at a depth, empty in the compact form, \<open>co\<close> the colon.
\<close>

fun write_val :: "time_libs \<Rightarrow> (nat \<Rightarrow> string) \<Rightarrow> string \<Rightarrow> nat \<Rightarrow> json \<Rightarrow> string"
  and write_mems :: "time_libs \<Rightarrow> (nat \<Rightarrow> string) \<Rightarrow> string \<Rightarrow> nat \<Rightarrow> (string \<times> json) list \<Rightarrow> string"
  and write_elems :: "time_libs \<Rightarrow> (nat \<Rightarrow> string) \<Rightarrow> string \<Rightarrow> nat \<Rightarrow> json list \<Rightarrow> string" where
  "write_val T nl co d JNull = ''null''"
| "write_val T nl co d (JBool b) = (if b then ''true'' else ''false'')"
| "write_val T nl co d (JNum n) = n"
| "write_val T nl co d (JStr s) = json_string s"
| "write_val T nl co d (JTime t) = json_string (show_time T t)"
| "write_val T nl co d (JRaw r) = r"
| "write_val T nl co d (JArr es) =
     (if es = [] then ''[]'' else ''['' @ write_elems T nl co (Suc d) es @ nl d @ '']'')"
| "write_val T nl co d (JObj ms) =
     (if ms = [] then ''{}'' else ''{'' @ write_mems T nl co (Suc d) ms @ nl d @ ''}'')"
| "write_mems T nl co d [] = []"
| "write_mems T nl co d ((k, v) # ms) =
     nl d @ json_string k @ co @ write_val T nl co d v @ (if ms = [] then [] else '','' @ write_mems T nl co d ms)"
| "write_elems T nl co d [] = []"
| "write_elems T nl co d (v # es) =
     nl d @ write_val T nl co d v @ (if es = [] then [] else '','' @ write_elems T nl co d es)"

definition marshal_json :: "time_libs \<Rightarrow> json \<Rightarrow> string" where
  "marshal_json T v = write_val T (\<lambda>_. []) '':'' 0 v"

definition marshal_indent :: "time_libs \<Rightarrow> json \<Rightarrow> string" where
  "marshal_indent T v = write_val T (\<lambda>d. newline @ concat (replicate d ''  '')) '': '' 0 v"

section \<open>Reading back\<close>

text \<open>What is read for a value: instants are strings.\<close>

fun as_read :: "time_libs \<Rightarrow> json \<Rightarrow> json" where
  "as_read T (JTime t) = JStr (show_time T t)"
| "as_read T (JArr es) = JArr (map (as_read T) es)"
| "as_read T (JObj ms) = JObj (map (\<lambda>(k, v). (k, as_read T v)) ms)"
| "as_read T v = v"

text \<open>Values whose numbers are integers and that hold no raw text.\<close>

inductive plain_json :: "json \<Rightarrow> bool" where
  "plain_json JNull"
| "plain_json (JBool b)"
| "plain_json (JInt i)"
| "plain_json (JStr s)"
| "plain_json (JTime t)"
| "(\<And>v. v \<in> set es \<Longrightarrow> plain_json v) \<Longrightarrow> plain_json (JArr es)"
| "(\<And>v. v \<in> snd ` set ms \<Longrightarrow> plain_json v) \<Longrightarrow> plain_json (JObj ms)"

inductive_simps plain_json_arr: "plain_json (JArr es)"
inductive_simps plain_json_obj: "plain_json (JObj ms)"

lemma plain_json_rules [simp]:
  "plain_json JNull" "plain_json (JBool b)" "plain_json (JInt i)" "plain_json (JStr s)" "plain_json (JTime t)"
  "plain_json (JArr es) \<longleftrightarrow> (\<forall>v \<in> set es. plain_json v)"
  "plain_json (JObj ms) \<longleftrightarrow> (\<forall>m \<in> set ms. plain_json (snd m))"
  using plain_json.intros(3) by (auto intro: plain_json.intros(1,2,4,5) simp: plain_json_arr plain_json_obj JInt_def)

text \<open>White space before a token is skipped.\<close>

definition blank :: "string \<Rightarrow> bool" where
  "blank s \<longleftrightarrow> list_all is_ws s"

lemma skip_blank: "blank s \<Longrightarrow> skip_ws (s @ r) = skip_ws r"
  by (induction s) (auto simp: blank_def skip_ws_def)

lemma blank_simps [simp]: "blank []" "blank (c # s) \<longleftrightarrow> is_ws c \<and> blank s" "blank (s @ t) \<longleftrightarrow> blank s \<and> blank t"
  by (simp_all add: blank_def)

lemma p_val_blank: "blank s \<Longrightarrow> p_val n (s @ r) = p_val n r"
  by (cases n) (simp_all add: skip_blank)

lemma p_key_written:
  assumes "blank s" "blank co'" "co = '':'' @ co'" "\<not> is_ws c"
  shows "p_key (s @ json_string k @ co @ c # r) = Some (k, c # r)"
  using p_str_quote [of k "co @ c # r"] assms(2-4)
  by (simp add: p_key_def skip_blank [OF assms(1)] json_string_def) (simp add: skip_ws_def is_ws_def skip_blank [unfolded skip_ws_def])

text \<open>Whatever follows a number in a document ends it.\<close>

definition ends_num :: "string \<Rightarrow> bool" where
  "ends_num r \<longleftrightarrow> (case r of [] \<Rightarrow> True | c # t \<Rightarrow> \<not> is_num_char c)"

lemma ends_num_simps [simp]: "ends_num []" "ends_num (c # r) \<longleftrightarrow> \<not> is_num_char c"
  by (simp_all add: ends_num_def)

lemma blank_ends_num: "blank s \<Longrightarrow> ends_num r \<Longrightarrow> ends_num (s @ r)"
  by (cases s) (auto simp: is_ws_def is_num_char_def is_digit_def)

lemma p_val_num:
  assumes "ends_num r"
  shows "p_val (Suc n) (show_int i @ r) = Some (JNum (show_int i), r)"
proof (cases r)
  case (Cons d t)
  with assms p_val_int [of d n i t] show ?thesis by simp
next
  case Nil
  obtain c s where cs: "show_int i = c # s"
    using show_nat_not_Nil by (cases "show_int i") (auto simp: show_int_def split: if_splits)
  with show_int_num_chars [of i] have "is_num_char c" by simp
  then have c: "\<not> is_ws c" "c \<noteq> CHR ''{''" "c \<noteq> CHR ''[''" "c \<noteq> CHR 0x22" "c \<noteq> CHR ''t''" "c \<noteq> CHR ''f''" "c \<noteq> CHR ''n''"
    by (auto simp: is_num_char_def is_digit_def is_ws_def)
  have "takeWhile is_num_char (show_int i) = show_int i" "dropWhile is_num_char (show_int i) = []"
    using show_int_num_chars [of i] by (simp_all add: list_all_iff)
  then have "p_literal (show_int i) = Some (JNum (show_int i), [])"
    using valid_show_int [of i] c cs by (simp add: p_literal_def)
  with Nil c cs show ?thesis by (simp add: skip_ws_head)
qed

lemma write_val_head:
  assumes "plain_json v"
  obtains c t where "write_val T nl co d v = c # t" "\<not> is_ws c" "c \<noteq> CHR '']''"
proof -
  have "\<exists>c t. write_val T nl co d v = c # t \<and> \<not> is_ws c \<and> c \<noteq> CHR '']''"
    using assms
  proof (cases rule: plain_json.cases)
    case (3 i)
    obtain c t where cs: "show_int i = c # t"
      using show_nat_not_Nil by (cases "show_int i") (auto simp: show_int_def split: if_splits)
    with show_int_num_chars [of i] have "is_num_char c" by simp
    with cs 3 show ?thesis by (auto simp: JInt_def is_num_char_def is_digit_def is_ws_def)
  qed (auto simp: json_string_def is_ws_def)
  with that show thesis by blast
qed

definition layout_ok :: "(nat \<Rightarrow> string) \<Rightarrow> string \<Rightarrow> bool" where
  "layout_ok nl co \<longleftrightarrow> (\<forall>d. blank (nl d)) \<and> (\<exists>b. co = '':'' @ b \<and> blank b)"

lemma write_val_obj: "ms \<noteq> [] \<Longrightarrow> write_val T nl co d (JObj ms) = CHR ''{'' # write_mems T nl co (Suc d) ms @ nl d @ [CHR ''}'']"
  by simp

lemma p_mems_written:
  assumes "layout_ok nl co"
    and "\<And>v n r. v \<in> snd ` set ms \<Longrightarrow> length (write_val T nl co d v) \<le> n \<Longrightarrow> ends_num r \<Longrightarrow>
      p_val n (write_val T nl co d v @ r) = Some (as_read T v, r)"
    and "\<And>v. v \<in> snd ` set ms \<Longrightarrow> plain_json v"
    and "ms \<noteq> []" "length (write_mems T nl co d ms) \<le> n" "blank e"
  shows "p_mems n (write_mems T nl co d ms @ e @ CHR ''}'' # r) = Some (map (\<lambda>(k, v). (k, as_read T v)) ms, r)"
  using assms(2-5)
proof (induction ms arbitrary: n)
  case (Cons m ms)
  obtain k v where m: "m = (k, v)" by (cases m)
  obtain b where b: "co = '':'' @ b" "blank b" and nl: "blank (nl d)" using assms(1) by (auto simp: layout_ok_def)
  have len: "length (write_val T nl co d v) + length (write_mems T nl co d ms) + 2 \<le> n"
    using Cons.prems(4) by (cases "ms = []") (auto simp: m b json_string_def)
  then obtain n' where n: "n = Suc n'" "length (write_val T nl co d v) \<le> n'" "length (write_mems T nl co d ms) \<le> n'"
    by (cases n) auto
  let ?rest = "(if ms = [] then [] else '','' @ write_mems T nl co d ms) @ e @ CHR ''}'' # r"
  have en: "ends_num ?rest"
    using assms(6) by (auto intro!: blank_ends_num simp: is_num_char_def is_digit_def)
  have pv: "plain_json v" using Cons.prems(2) [of v] m by simp
  obtain c t where ct: "write_val T nl co d v = c # t" "\<not> is_ws c" by (rule write_val_head [OF pv])
  have key: "p_key (nl d @ json_string k @ co @ write_val T nl co d v @ ?rest) = Some (k, write_val T nl co d v @ ?rest)"
    using p_key_written [OF nl b(2,1) ct(2)] by (simp add: ct(1))
  have val: "p_val n' (write_val T nl co d v @ ?rest) = Some (as_read T v, ?rest)"
    using Cons.prems(1) [of v] m n(2) en by simp
  show ?case
  proof (cases "ms = []")
    case True
    with key val skip_blank [OF assms(6), of "CHR ''}'' # r"] show ?thesis
      by (simp add: m n(1) skip_ws_def is_ws_def)
  next
    case False
    have "p_mems n' (write_mems T nl co d ms @ e @ CHR ''}'' # r) = Some (map (\<lambda>(k, v). (k, as_read T v)) ms, r)"
      using Cons.prems(1,2) n(3) False by (intro Cons.IH) auto
    with key val False show ?thesis by (simp add: m n(1) skip_ws_def is_ws_def)
  qed
qed simp

lemma p_elems_written:
  assumes "layout_ok nl co"
    and "\<And>v n r. v \<in> set es \<Longrightarrow> length (write_val T nl co d v) \<le> n \<Longrightarrow> ends_num r \<Longrightarrow>
      p_val n (write_val T nl co d v @ r) = Some (as_read T v, r)"
    and "es \<noteq> []" "length (write_elems T nl co d es) < n" "blank e"
  shows "p_elems n (write_elems T nl co d es @ e @ CHR '']'' # r) = Some (map (as_read T) es, r)"
  using assms(2-4)
proof (induction es arbitrary: n)
  case (Cons v es)
  have nl: "blank (nl d)" using assms(1) by (auto simp: layout_ok_def)
  obtain n' where n: "n = Suc n'" "length (write_val T nl co d v) \<le> n'"
      "es \<noteq> [] \<longrightarrow> length (write_elems T nl co d es) < n'"
    using Cons.prems(3) by (cases n; cases "es = []") auto
  let ?rest = "(if es = [] then [] else '','' @ write_elems T nl co d es) @ e @ CHR '']'' # r"
  have en: "ends_num ?rest"
    using assms(5) by (auto intro!: blank_ends_num simp: is_num_char_def is_digit_def)
  have val: "p_val n' (nl d @ write_val T nl co d v @ ?rest) = Some (as_read T v, ?rest)"
    using Cons.prems(1) [of v] n(2) en by (simp add: p_val_blank [OF nl])
  show ?case
  proof (cases "es = []")
    case True
    with val skip_blank [OF assms(5), of "CHR '']'' # r"] show ?thesis
      by (simp add: n(1) skip_ws_def is_ws_def)
  next
    case False
    have "p_elems n' (write_elems T nl co d es @ e @ CHR '']'' # r) = Some (map (as_read T) es, r)"
      using Cons.prems(1) n(3) False by (intro Cons.IH) auto
    with val False show ?thesis by (simp add: n(1) skip_ws_def is_ws_def)
  qed
qed simp


text \<open>The three literals.\<close>

lemma p_val_literal:
  "0 < n \<Longrightarrow> p_val n (''null'' @ r) = Some (JNull, r)" "0 < n \<Longrightarrow> p_val n (''true'' @ r) = Some (JBool True, r)"
  "0 < n \<Longrightarrow> p_val n (''false'' @ r) = Some (JBool False, r)"
  by (cases n, simp_all add: skip_ws_def is_ws_def p_literal_def)+

lemma p_val_written:
  assumes "layout_ok nl co" "plain_json v"
  shows "length (write_val T nl co d v) \<le> n \<Longrightarrow> ends_num r \<Longrightarrow>
    p_val n (write_val T nl co d v @ r) = Some (as_read T v, r)"
  using assms(2)
proof (induction v arbitrary: d n r)
  case (3 i)
  then obtain n' where "n = Suc n'" using show_int_head [of i] by (cases n) (auto simp: JInt_def)
  with 3 p_val_num [of r n' i] show ?case by (simp add: JInt_def)
next
  case (4 s)
  then obtain n' where "n = Suc n'" by (cases n) (auto simp: json_string_def)
  then show ?case by (simp only: write_val.simps as_read.simps p_val_string)
next
  case (5 t)
  then obtain n' where "n = Suc n'" by (cases n) (auto simp: json_string_def)
  then show ?case by (simp only: write_val.simps as_read.simps p_val_string)
next
  case (6 es)
  show ?case
  proof (cases es)
    case Nil
    with 6 show ?thesis by (cases n) (simp_all add: skip_ws_def is_ws_def)
  next
    case (Cons v vs)
    obtain n' where n: "n = Suc n'" "length (write_elems T nl co (Suc d) es) < n'"
      using 6(3) Cons by (cases n) auto
    have nl: "blank (nl d)" "blank (nl (Suc d))" using assms(1) by (auto simp: layout_ok_def)
    have pv: "plain_json v" using 6(1) Cons by simp
    obtain c t where ct: "write_val T nl co (Suc d) v = c # t" "\<not> is_ws c" "c \<noteq> CHR '']''"
      by (rule write_val_head [OF pv])
    have "p_elems n' (write_elems T nl co (Suc d) es @ nl d @ CHR '']'' # r) = Some (map (as_read T) es, r)"
      using 6(2) n(2) Cons nl(1) by (intro p_elems_written [OF assms(1)]) auto
    moreover have "\<exists>z. skip_ws (write_elems T nl co (Suc d) es @ nl d @ CHR '']'' # r) = c # z"
      using ct(1,2) by (simp add: Cons skip_blank [OF nl(2)] skip_ws_head)
    ultimately show ?thesis using Cons ct(3) by (auto simp: n(1) skip_ws_head is_ws_def)
  qed
next
  case (7 ms)
  show ?case
  proof (cases ms)
    case Nil
    with 7 show ?thesis by (cases n) (simp_all add: skip_ws_def is_ws_def)
  next
    case (Cons m rest)
    obtain n' where n: "n = Suc n'" "length (write_mems T nl co (Suc d) ms) \<le> n'"
      using 7(3) Cons by (cases n) auto
    have nl: "blank (nl d)" "blank (nl (Suc d))" using assms(1) by (auto simp: layout_ok_def)
    have "p_mems n' (write_mems T nl co (Suc d) ms @ nl d @ CHR ''}'' # r) = Some (map (\<lambda>(k, v). (k, as_read T v)) ms, r)"
      using 7(1,2) n(2) Cons nl(1) by (intro p_mems_written [OF assms(1)]) auto
    moreover have "\<exists>z. skip_ws (write_mems T nl co (Suc d) ms @ nl d @ CHR ''}'' # r) = CHR 0x22 # z"
      by (cases m) (simp add: Cons skip_blank [OF nl(2)] json_string_def skip_ws_head is_ws_def)
    ultimately show ?thesis using Cons by (auto simp: n(1) skip_ws_head is_ws_def)
  qed
next
  case 1
  then show ?case using p_val_literal(1) [of n r] by simp
next
  case (2 b)
  then show ?case using p_val_literal(2,3) [of n r] by (cases b) simp_all
qed

text \<open>What the encoder writes is one JSON document, and it reads back as the value written.\<close>

lemma written_parses:
  assumes "layout_ok nl co" "plain_json v"
  shows "json_parse (write_val T nl co d v) = Some (as_read T v)"
  using p_val_written [OF assms, of T d "json_fuel (write_val T nl co d v)" "[]"]
  by (simp add: json_parse_def json_fuel_def skip_ws_def)

lemma layouts: "layout_ok (\<lambda>_. []) '':''" "layout_ok (\<lambda>d. newline @ concat (replicate d ''  '')) '': ''"
proof -
  have "blank (concat (replicate d ''  ''))" for d by (induction d) (simp_all add: is_ws_def)
  then show "layout_ok (\<lambda>d. newline @ concat (replicate d ''  '')) '': ''"
    by (auto simp: layout_ok_def newline_def is_ws_def)
qed (simp add: layout_ok_def)

lemma marshal_parses:
  assumes "plain_json v"
  shows "json_parse (marshal_json T v) = Some (as_read T v)" "json_parse (marshal_indent T v) = Some (as_read T v)"
  using assms by (simp_all add: marshal_json_def marshal_indent_def written_parses layouts)

end
