(* ===== verification/Archive.thy ===== *)
theory Archive
  imports Json_Write
begin

text \<open>
  What the subcommands of \<open>cmd/relic-api\<close> and the evidence packs share: slash paths, the entries of a
  gzipped tar archive, and the outcome of a command. The tar and gzip codecs are parameters.
\<close>

section \<open>Paths\<close>

text \<open>\<open>filepath.Clean\<close>: \<open>kept\<close> holds the kept elements, the last one first.\<close>

fun clean_parts :: "bool \<Rightarrow> string list \<Rightarrow> string list \<Rightarrow> string list" where
  "clean_parts rooted kept [] = rev kept"
| "clean_parts rooted kept (p # ps) =
     (if p = [] \<or> p = ''.'' then clean_parts rooted kept ps
      else if p = ''..'' then
        (case kept of
           [] \<Rightarrow> clean_parts rooted (if rooted then [] else [p]) ps
         | k # ks \<Rightarrow> if k = ''..'' then clean_parts rooted (p # kept) ps else clean_parts rooted ks ps)
      else clean_parts rooted (p # kept) ps)"

definition path_clean :: "string \<Rightarrow> string" where
  "path_clean s =
     (let rooted = (s \<noteq> [] \<and> hd s = CHR ''/'');
          body = join_with ''/'' (clean_parts rooted [] (split_on (CHR ''/'') s))
      in if rooted then CHR ''/'' # body else if body = [] then ''.'' else body)"

definition path_join :: "string list \<Rightarrow> string" where
  "path_join es = (case dropWhile (\<lambda>e. e = []) es of
     [] \<Rightarrow> []
   | fs \<Rightarrow> path_clean (join_with ''/'' fs))"

text \<open>\<open>filepath.Base\<close>.\<close>

definition path_base :: "string \<Rightarrow> string" where
  "path_base s =
     (if s = [] then ''.''
      else let t = rev (dropWhile (\<lambda>c. c = CHR ''/'') (rev s)) in
        if t = [] then ''/'' else rev (takeWhile (\<lambda>c. c \<noteq> CHR ''/'') (rev t)))"

section \<open>Archives\<close>

record tar_entry =
  te_name :: string
  te_mode :: nat
  te_mtime :: int
  te_size :: nat
  te_body :: string

text \<open>
  Reading: the error of the gzip header, or the entries met with the body of each or the error of
  reading it, and the error that ends them (none at the end of the archive).
\<close>

record archive_libs =
  ar_write :: "tar_entry list \<Rightarrow> string"
  ar_read :: "string \<Rightarrow> string + (string \<times> (string + string)) list \<times> string option"

text \<open>
  What is relied on: an archive of regular files (names not empty, without NUL and not ending in a
  slash, sizes those of the bodies) is read back entry by entry.
\<close>

definition tar_entry_ok :: "tar_entry \<Rightarrow> bool" where
  "tar_entry_ok e \<longleftrightarrow> te_size e = length (te_body e) \<and> te_name e \<noteq> [] \<and> CHR 0x00 \<notin> set (te_name e) \<and>
     last (te_name e) \<noteq> CHR ''/''"

definition archive_ok :: "archive_libs \<Rightarrow> bool" where
  "archive_ok A \<longleftrightarrow> (\<forall>es. list_all tar_entry_ok es \<longrightarrow>
     ar_read A (ar_write A es) = Inr (map (\<lambda>e. (te_name e, Inr (te_body e))) es, None))"

definition tar_of :: "int \<Rightarrow> string \<Rightarrow> string \<Rightarrow> tar_entry" where
  "tar_of now name body = \<lparr>te_name = name, te_mode = 384, te_mtime = now, te_size = length body, te_body = body\<rparr>"

text \<open>
  Entries written one after another, each of whose writes may fail (\<open>fs\<close>, none failing when the list
  is used up): those written before the first failure, and its error.
\<close>

fun write_entries :: "string option list \<Rightarrow> tar_entry list \<Rightarrow> tar_entry list \<times> string option" where
  "write_entries fs [] = ([], None)"
| "write_entries fs (e # es) =
     (case fs of
        Some err # gs \<Rightarrow> ([], Some err)
      | _ \<Rightarrow> (case write_entries (tl fs) es of (ws, err) \<Rightarrow> (e # ws, err)))"

lemma write_entries_all: "write_entries fs es = (ws, None) \<Longrightarrow> ws = es"
proof (induction es arbitrary: fs ws)
  case (Cons e es)
  then show ?case by (auto split: list.splits option.splits prod.splits)
qed simp

section \<open>Commands\<close>

record outcome =
  oc_code :: nat
  oc_out :: string
  oc_err :: string

definition finished :: "string \<Rightarrow> outcome" where
  "finished out = \<lparr>oc_code = 0, oc_out = out, oc_err = []\<rparr>"

definition exit_with :: "nat \<Rightarrow> string \<Rightarrow> outcome" where
  "exit_with n msg = \<lparr>oc_code = n, oc_out = [], oc_err = msg\<rparr>"

text \<open>
  The process: its environment, its files (the bytes or the error of reading one, the error of
  creating one), the error of connecting to a database URL, and the build's identity.
\<close>

record process =
  ps_env :: "string \<Rightarrow> string"
  ps_file :: "string \<Rightarrow> string + string"
  ps_create :: "string \<Rightarrow> string option"
  ps_connect :: "string \<Rightarrow> string option"
  ps_abs :: "string \<Rightarrow> string"
  ps_build :: string
  ps_commit :: string

section \<open>A concrete archive\<close>

definition toy_write :: "tar_entry list \<Rightarrow> string" where
  "toy_write es = concat (map (\<lambda>e. toy_field (te_name e) @ toy_field (te_body e)) es)"

fun toy_entries :: "nat \<Rightarrow> string \<Rightarrow> (string \<times> (string + string)) list" where
  "toy_entries 0 s = []"
| "toy_entries (Suc n) s = (case p_str s of
     None \<Rightarrow> []
   | Some (a, r) \<Rightarrow> (case p_str r of None \<Rightarrow> [] | Some (b, t) \<Rightarrow> (a, Inr b) # toy_entries n t))"

definition toy_archive :: archive_libs where
  "toy_archive = \<lparr>ar_write = toy_write, ar_read = (\<lambda>s. Inr (toy_entries (length s) s, None))\<rparr>"

lemma toy_entries_written:
  "length (toy_write es) \<le> n \<Longrightarrow> toy_entries n (toy_write es) = map (\<lambda>e. (te_name e, Inr (te_body e))) es"
proof (induction es arbitrary: n)
  case Nil
  then show ?case by (cases n) (simp_all add: toy_write_def)
next
  case (Cons e es)
  then obtain m where "n = Suc m" "length (toy_write es) \<le> m"
    by (cases n) (auto simp: toy_write_def toy_field_def)
  with Cons.IH [of m] show ?case by (simp add: toy_write_def toy_field_def p_str_quote)
qed

lemma toy_archive_ok: "archive_ok toy_archive"
  by (simp add: archive_ok_def toy_archive_def toy_entries_written)

end
