(* ===== verification/Compliance.thy ===== *)
theory Compliance
  imports Archive Router
begin

text \<open>
  \<open>internal/compliance\<close> and the evidence subcommands of \<open>cmd/relic-api\<close>: the framework mappings and
  their validation, the HMAC signer, and the evidence pack with its signed manifest.
\<close>

section \<open>Mappings (\<open>loader.go\<close>)\<close>

definition coverage_valid :: "string \<Rightarrow> bool" where
  "coverage_valid c \<longleftrightarrow> c = ''complete'' \<or> c = ''partial'' \<or> c = ''gap'' \<or> c = ''not_applicable''"

definition kind_valid :: "string \<Rightarrow> bool" where
  "kind_valid k \<longleftrightarrow> k = ''code'' \<or> k = ''docs'' \<or> k = ''metric'' \<or> k = ''process''"

record evidence =
  vd_kind :: string
  vd_path :: string

record satisfaction =
  sat_capability :: string
  sat_evidence :: "evidence list"
  sat_notes :: string

record control =
  ct_id :: string
  ct_name :: string
  ct_satisfies :: "satisfaction list"
  ct_coverage :: string

record mapping_doc =
  mp_framework :: string
  mp_version :: string
  mp_controls :: "control list"

text \<open>\<open>exists\<close> is \<open>os.Stat\<close> without error.\<close>

definition evidence_file :: "string \<Rightarrow> string \<Rightarrow> string" where
  "evidence_file base path = path_join [base, case index_of path ''#'' of Some i \<Rightarrow> take i path | None \<Rightarrow> path]"

definition check_evidence :: "(string \<Rightarrow> bool) \<Rightarrow> string \<Rightarrow> string \<Rightarrow> nat \<Rightarrow> evidence \<Rightarrow> string option" where
  "check_evidence exists base cid i e =
     (if \<not> kind_valid (vd_kind e) then
        Some (''control '' @ cid @ '', evidence['' @ show_nat i @ '']: invalid kind '' @ go_quote (vd_kind e))
      else if trim_space (vd_path e) = [] then
        Some (''control '' @ cid @ '', evidence['' @ show_nat i @ '']: path is required'')
      else if base = [] then None
      else if exists (evidence_file base (vd_path e)) then None
      else Some (''control '' @ cid @ '', evidence path '' @ go_quote (vd_path e) @ '' does not exist (looked at '' @
        evidence_file base (vd_path e) @ '')''))"

fun check_evidences :: "(string \<Rightarrow> bool) \<Rightarrow> string \<Rightarrow> string \<Rightarrow> nat \<Rightarrow> evidence list \<Rightarrow> string option" where
  "check_evidences exists base cid i [] = None"
| "check_evidences exists base cid i (e # es) =
     (case check_evidence exists base cid i e of
        Some err \<Rightarrow> Some err
      | None \<Rightarrow> check_evidences exists base cid (Suc i) es)"

fun check_satisfactions :: "(string \<Rightarrow> bool) \<Rightarrow> string \<Rightarrow> string \<Rightarrow> nat \<Rightarrow> satisfaction list \<Rightarrow> string option" where
  "check_satisfactions exists base cid i [] = None"
| "check_satisfactions exists base cid i (sa # sas) =
     (if trim_space (sat_capability sa) = [] then
        Some (''control '' @ cid @ '', satisfaction['' @ show_nat i @ '']: capability is required'')
      else case check_evidences exists base cid 0 (sat_evidence sa) of
        Some err \<Rightarrow> Some err
      | None \<Rightarrow> check_satisfactions exists base cid (Suc i) sas)"

definition check_control :: "(string \<Rightarrow> bool) \<Rightarrow> string \<Rightarrow> string list \<Rightarrow> nat \<Rightarrow> control \<Rightarrow> string option" where
  "check_control exists base seen i c =
     (if trim_space (ct_id c) = [] then Some (''control['' @ show_nat i @ '']: id is required'')
      else if ct_id c \<in> set seen then Some (''control['' @ show_nat i @ '']: duplicate id '' @ go_quote (ct_id c))
      else if \<not> coverage_valid (ct_coverage c) then
        Some (''control '' @ ct_id c @ '': invalid coverage '' @ go_quote (ct_coverage c) @
          '' (complete|partial|gap|not_applicable)'')
      else check_satisfactions exists base (ct_id c) 0 (ct_satisfies c))"

fun check_controls :: "(string \<Rightarrow> bool) \<Rightarrow> string \<Rightarrow> string list \<Rightarrow> nat \<Rightarrow> control list \<Rightarrow> string option" where
  "check_controls exists base seen i [] = None"
| "check_controls exists base seen i (c # cs) =
     (case check_control exists base seen i c of
        Some err \<Rightarrow> Some err
      | None \<Rightarrow> check_controls exists base (ct_id c # seen) (Suc i) cs)"

definition validate_mapping :: "(string \<Rightarrow> bool) \<Rightarrow> mapping_doc \<Rightarrow> string \<Rightarrow> string option" where
  "validate_mapping exists m base =
     (if trim_space (mp_framework m) = [] then Some ''framework is required''
      else if trim_space (mp_version m) = [] then Some ''version is required''
      else if mp_controls m = [] then Some ''controls must be non-empty''
      else check_controls exists base [] 0 (mp_controls m))"

text \<open>\<open>yaml\<close> is \<open>yaml.Unmarshal\<close>; opening and reading the file are one step.\<close>

definition load_mapping :: "(string \<Rightarrow> string + mapping_doc) \<Rightarrow> (string \<Rightarrow> string + string) \<Rightarrow> (string \<Rightarrow> bool) \<Rightarrow>
    string \<Rightarrow> string \<Rightarrow> mapping_doc res" where
  "load_mapping yaml file exists path base =
     (case file path of
        Inl e \<Rightarrow> Inl (ErrWrap (''open '' @ path @ '': '') (ErrText e) [])
      | Inr body \<Rightarrow> (case yaml body of
          Inl e \<Rightarrow> Inl (ErrWrap (''parse '' @ path @ '': '') (ErrText e) [])
        | Inr m \<Rightarrow> (case validate_mapping exists m base of
            Some e \<Rightarrow> Inl (ErrWrap (''validate '' @ path @ '': '') (ErrText e) [])
          | None \<Rightarrow> Inr m)))"

text \<open>A directory is its entries' names, with whether each is a directory.\<close>

fun load_entries :: "(string \<Rightarrow> string + mapping_doc) \<Rightarrow> (string \<Rightarrow> string + string) \<Rightarrow> (string \<Rightarrow> bool) \<Rightarrow>
    string \<Rightarrow> string \<Rightarrow> (string \<times> bool) list \<Rightarrow> (string \<rightharpoonup> mapping_doc) \<Rightarrow> (string \<rightharpoonup> mapping_doc) res" where
  "load_entries yaml file exists dir base [] out = Inr out"
| "load_entries yaml file exists dir base ((name, is_dir) # es) out =
     (if is_dir \<or> \<not> has_suffix name ''.yaml'' then load_entries yaml file exists dir base es out
      else case load_mapping yaml file exists (path_join [dir, name]) base of
        Inl e \<Rightarrow> Inl e
      | Inr m \<Rightarrow> load_entries yaml file exists dir base es (out(trim_suffix name ''.yaml'' \<mapsto> m)))"

definition load_all :: "(string \<Rightarrow> string + mapping_doc) \<Rightarrow> (string \<Rightarrow> string + string) \<Rightarrow> (string \<Rightarrow> bool) \<Rightarrow>
    (string \<Rightarrow> string + (string \<times> bool) list) \<Rightarrow> string \<Rightarrow> string \<Rightarrow> (string \<rightharpoonup> mapping_doc) res" where
  "load_all yaml file exists read_dir dir base = (case read_dir dir of
     Inl e \<Rightarrow> Inl (ErrText e)
   | Inr es \<Rightarrow> load_entries yaml file exists dir base es Map.empty)"

section \<open>Signers (\<open>sign.go\<close>)\<close>

record signer =
  sg_kind :: string
  sg_key_id :: string
  sg_sign :: "string \<Rightarrow> string res"
  sg_verify :: "string \<Rightarrow> string \<Rightarrow> go_error option"

definition hmac_key_id :: "hmac_fun \<Rightarrow> string \<Rightarrow> string" where
  "hmac_key_id H key = hex_encode (take 4 (H key ''key-id-derivation''))"

definition hmac_verify :: "hmac_fun \<Rightarrow> string \<Rightarrow> string \<Rightarrow> string \<Rightarrow> go_error option" where
  "hmac_verify H key payload sig = (if H key payload = sig then None else Some (ErrText ''signature mismatch''))"

definition hmac_signer :: "hmac_fun \<Rightarrow> string \<Rightarrow> signer" where
  "hmac_signer H key = \<lparr>sg_kind = ''hmac'', sg_key_id = hmac_key_id H key,
     sg_sign = (\<lambda>payload. Inr (H key payload)), sg_verify = hmac_verify H key\<rparr>"

text \<open>The text of \<open>hex.DecodeString\<close>'s error is the parameter \<open>hex_error\<close>.\<close>

definition new_hmac_signer :: "hmac_fun \<Rightarrow> (string \<Rightarrow> string) \<Rightarrow> string \<Rightarrow> signer res" where
  "new_hmac_signer H hex_error key_hex =
     (if key_hex = [] then Inl (ErrText ''hmac signer: empty key'')
      else case hex_decode key_hex of
        None \<Rightarrow> Inl (ErrWrap ''hmac signer: invalid hex key: '' (ErrText (hex_error key_hex)) [])
      | Some key \<Rightarrow> if length key < 16 then Inl (ErrText ''hmac signer: key must be at least 16 bytes (32 hex chars)'')
                    else Inr (hmac_signer H key))"

section \<open>The evidence pack (\<open>evidence.go\<close>)\<close>

record pack_request =
  pq_org :: string
  pq_framework :: string
  pq_period :: string
  pq_start :: int
  pq_end :: int
  pq_generator :: string
  pq_mappings_dir :: string
  pq_signer :: "signer option"

record manifest =
  mf_format :: string
  mf_org :: string
  mf_framework :: string
  mf_period :: string
  mf_start :: int
  mf_end :: int
  mf_generated_at :: int
  mf_generator :: string
  mf_kind :: string
  mf_key_id :: string
  mf_audit_events :: int
  mf_policy_changes :: int
  mf_runs :: int
  mf_rbac_changes :: int

definition is_policy_change :: "audit_event \<Rightarrow> bool" where
  "is_policy_change e \<longleftrightarrow> ev_action e = ''agent.policy_update'' \<or> ev_action e = ''policy_set.write'' \<or>
     ev_action e = ''policy.simulate''"

definition filter_policy_changes :: "audit_event list \<Rightarrow> audit_event list" where
  "filter_policy_changes es = filter is_policy_change es"

definition is_rbac_change :: "audit_event \<Rightarrow> bool" where
  "is_rbac_change e \<longleftrightarrow> has_prefix (ev_action e) ''identity.'' \<or> ev_action e = ''org.create'' \<or>
     ev_action e = ''apikey.create'' \<or> ev_action e = ''apikey.revoke''"

definition filter_rbac_changes :: "audit_event list \<Rightarrow> audit_event list" where
  "filter_rbac_changes es = filter is_rbac_change es"

definition manifest_json :: "manifest \<Rightarrow> json" where
  "manifest_json m = JObj
     [(''format_version'', JStr (mf_format m)), (''org_id'', JStr (mf_org m)), (''framework'', JStr (mf_framework m)),
      (''period'', JStr (mf_period m)), (''start'', JTime (mf_start m)), (''end'', JTime (mf_end m)),
      (''generated_at'', JTime (mf_generated_at m)), (''generator'', JStr (mf_generator m)),
      (''signature'', JObj [(''kind'', JStr (mf_kind m)), (''key_id'', JStr (mf_key_id m))]),
      (''counts'', JObj [(''audit_events'', JInt (mf_audit_events m)), (''policy_changes'', JInt (mf_policy_changes m)),
        (''runs'', JInt (mf_runs m)), (''rbac_changes'', JInt (mf_rbac_changes m))])]"

text \<open>The \<open>json\<close> tags of \<open>storage.AuditEvent\<close>: its metadata is a \<open>[]byte\<close>, and so base64.\<close>

definition event_json :: "audit_event \<Rightarrow> json" where
  "event_json e = JObj
     [(''id'', JStr (ev_id e)), (''org_id'', JStr (ev_org e)), (''user_id'', JStr (ev_user e)),
      (''action'', JStr (ev_action e)), (''resource'', JStr (ev_resource e)), (''resource_id'', JStr (ev_resource_id e)),
      (''metadata'', if ev_metadata e = [] then JNull else JStr (b64_std (ev_metadata e))),
      (''created_at'', JTime (ev_created_at e))]"

definition encode_ndjson :: "time_libs \<Rightarrow> ('a \<Rightarrow> json) \<Rightarrow> 'a list \<Rightarrow> string" where
  "encode_ndjson T enc xs = concat (map (\<lambda>x. marshal_json T (enc x) @ newline) xs)"

definition encode_runs_ndjson :: "time_libs \<Rightarrow> run list \<Rightarrow> string" where
  "encode_runs_ndjson T qs = encode_ndjson T run_json qs"

definition chain_entry :: "run \<Rightarrow> json" where
  "chain_entry q = JObj [(''run_id'', JStr (r_id q)), (''agent_name'', JStr (r_agent_name q)),
     (''has_chain'', JBool (r_integrity_chain q)), (''chain_verified'', JBool (r_chain_verified q))]"

definition build_chain_status :: "run list \<Rightarrow> json" where
  "build_chain_status qs = JArr (map chain_entry qs)"

text \<open>\<open>rfc\<close> is \<open>Format(time.RFC3339)\<close>.\<close>

definition section_sign :: string where
  "section_sign = [CHR 0xC2, CHR 0xA7]"

definition build_readme :: "(int \<Rightarrow> string) \<Rightarrow> manifest \<Rightarrow> string" where
  "build_readme rfc m = concat (map (\<lambda>l. l @ newline)
    [''The Relic Evidence Pack'',
     ''======================='',
     [],
     ''Framework:    '' @ mf_framework m,
     ''Period:       '' @ mf_period m,
     ''Start:        '' @ rfc (mf_start m),
     ''End:          '' @ rfc (mf_end m),
     ''Generated:    '' @ rfc (mf_generated_at m),
     ''Generator:    '' @ mf_generator m,
     ''Signature:    '' @ mf_kind m @ '' (key id: '' @ mf_key_id m @ '')'',
     [],
     ''Format:       '' @ mf_format m @ '' (see https://therelic.dev/docs/evidence-pack)'',
     [],
     ''Files:'',
     ''  manifest.json          '' @ em_dash @ '' Top-of-pack summary + counts. Signed.'',
     ''  manifest.json.sig      '' @ em_dash @ '' Detached signature over manifest.json bytes.'',
     ''  controls.yaml          '' @ em_dash @ '' Snapshot of the framework-to-capability map'',
     ''                           in force at generation time.'',
     ''  audit-log.ndjson       '' @ em_dash @ '' All audit events within the period.'',
     ''  policy-history.ndjson  '' @ em_dash @ '' Subset of audit events: policy mutations.'',
     ''  rbac-changes.ndjson    '' @ em_dash @ '' Subset of audit events: identity / api-key'',
     ''                           / org changes.'',
     ''  runs.ndjson            '' @ em_dash @ '' Agent runs within the period (storage keys'',
     ''                           omitted; trace bodies are accessible through'',
     ''                           the API with the customer'' @ [CHR 0x27] @ ''s credentials).'',
     ''  chain-verification.json '' @ em_dash @ '' Per-run HMAC chain status.'',
     [],
     ''Verification:'',
     ''  $ relic-api evidence-verify <this-file.tar.gz>'',
     [],
     ''  Or with the reference verifier:'',
     ''  $ pip install therelic-evidence-verifier'',
     ''  $ relic-evidence-verify <this-file.tar.gz> --key=<hmac-key-hex>'',
     [],
     ''Audit trail:'',
     ''  Every line in audit-log.ndjson includes user_id, action, resource,'',
     ''  resource_id, metadata, and created_at. The trace HMAC chain is'',
     ''  documented separately in docs/THREAT_MODEL.md '' @ section_sign @ ''4.''])"

text \<open>The entries of a pack, in order.\<close>

definition pack_entries :: "server \<Rightarrow> int \<Rightarrow> manifest \<Rightarrow> string \<Rightarrow> string \<Rightarrow> audit_event list \<Rightarrow> run list \<Rightarrow> tar_entry list" where
  "pack_entries S now m sig mapping es qs =
     map (\<lambda>(name, body). tar_of now name body)
       [(''manifest.json'', marshal_indent (sv_times S) (manifest_json m)), (''manifest.json.sig'', sig),
        (''controls.yaml'', mapping), (''audit-log.ndjson'', encode_ndjson (sv_times S) event_json es),
        (''policy-history.ndjson'', encode_ndjson (sv_times S) event_json (filter_policy_changes es)),
        (''rbac-changes.ndjson'', encode_ndjson (sv_times S) event_json (filter_rbac_changes es)),
        (''runs.ndjson'', encode_runs_ndjson (sv_times S) qs),
        (''chain-verification.json'', marshal_indent (sv_times S) (build_chain_status qs)),
        (''README.txt'', build_readme (sv_rfc3339 S) m)]"

definition manifest_of :: "pack_request \<Rightarrow> signer \<Rightarrow> int \<Rightarrow> audit_event list \<Rightarrow> run list \<Rightarrow> manifest" where
  "manifest_of q sg now es qs =
     \<lparr>mf_format = ''v0'', mf_org = pq_org q, mf_framework = pq_framework q, mf_period = pq_period q,
      mf_start = pq_start q, mf_end = pq_end q, mf_generated_at = now, mf_generator = pq_generator q,
      mf_kind = sg_kind sg, mf_key_id = sg_key_id sg, mf_audit_events = int (length es),
      mf_policy_changes = int (length (filter_policy_changes es)), mf_runs = int (length qs),
      mf_rbac_changes = int (length (filter_rbac_changes es))\<rparr>"

text \<open>
  The manifest or the error, and the entries the archive then holds; \<open>file\<close> reads a file, \<open>fs\<close> are
  the failures of the output. The deferred closing of the archive reports nothing.
\<close>

definition build_pack :: "server \<Rightarrow> (string \<Rightarrow> string + string) \<Rightarrow> string option list \<Rightarrow> pack_request \<Rightarrow>
    (manifest res \<times> tar_entry list) act" where
  "build_pack S file fs q =
     (let failed = (\<lambda>e. State_Monad.return (Inl e, [])) in
      if pq_org q = [] then failed (ErrText ''OrgID required'')
      else if pq_framework q = [] then failed (ErrText ''Framework required'')
      else if pq_end q \<le> pq_start q then failed (ErrText ''End must be after Start'')
      else case pq_signer q of
        None \<Rightarrow> failed (ErrText ''Signer required'')
      | Some sg \<Rightarrow>
          let path = path_join [pq_mappings_dir q, pq_framework q @ ''.yaml''] in
          (case file path of
             Inl e \<Rightarrow> failed (ErrWrap (''read mapping '' @ path @ '': '') (ErrText e) [])
           | Inr mapping \<Rightarrow> do {
               events \<leftarrow> db_call (list_audit_events_in_window (pq_org q) (pq_start q) (pq_end q));
               case events of
                 Inl e \<Rightarrow> failed (ErrWrap ''audit window: '' e [])
               | Inr es \<Rightarrow> do {
                   res \<leftarrow> db_call (list_runs_in_window (pq_org q) (pq_start q) (pq_end q));
                   case res of
                     Inl e \<Rightarrow> failed (ErrWrap ''runs window: '' e [])
                   | Inr qs \<Rightarrow> do {
                       now \<leftarrow> clock;
                       let m = manifest_of q sg now es qs;
                       case sg_sign sg (marshal_indent (sv_times S) (manifest_json m)) of
                         Inl e \<Rightarrow> failed e
                       | Inr sig \<Rightarrow> State_Monad.return (case write_entries fs (pack_entries S now m sig mapping es qs) of
                           (ws, Some err) \<Rightarrow> (Inl (ErrText err), ws)
                         | (ws, None) \<Rightarrow> (Inr m, ws)) } } }))"

text \<open>\<open>json.Unmarshal\<close> into a \<open>Manifest\<close>.\<close>

definition dec_signature :: "string \<times> string \<Rightarrow> json \<Rightarrow> (string \<times> string) option" where
  "dec_signature acc v = Option.bind (as_members v) (\<lambda>ms.
     case (decode_field dec_string ''kind'' (fst acc) ms, decode_field dec_string ''key_id'' (snd acc) ms) of
       (Some k, Some i) \<Rightarrow> Some (k, i)
     | _ \<Rightarrow> None)"

definition dec_counts :: "int \<times> int \<times> int \<times> int \<Rightarrow> json \<Rightarrow> (int \<times> int \<times> int \<times> int) option" where
  "dec_counts acc v = Option.bind (as_members v) (\<lambda>ms. case acc of (a, p, r, b) \<Rightarrow>
     (case (decode_field dec_int ''audit_events'' a ms, decode_field dec_int ''policy_changes'' p ms,
            decode_field dec_int ''runs'' r ms, decode_field dec_int ''rbac_changes'' b ms) of
       (Some a', Some p', Some r', Some b') \<Rightarrow> Some (a', p', r', b')
     | _ \<Rightarrow> None))"

definition manifest_unmarshal :: "time_libs \<Rightarrow> string \<Rightarrow> manifest option" where
  "manifest_unmarshal T s = Option.bind (unmarshal_struct s) (\<lambda>ms.
     case (field_string ''format_version'' ms, field_string ''org_id'' ms, field_string ''framework'' ms,
           field_string ''period'' ms, decode_field (dec_time T) ''start'' zero_time ms,
           decode_field (dec_time T) ''end'' zero_time ms, decode_field (dec_time T) ''generated_at'' zero_time ms,
           field_string ''generator'' ms, decode_field dec_signature ''signature'' ([], []) ms,
           decode_field dec_counts ''counts'' (0, 0, 0, 0) ms) of
       (Some fo, Some og, Some fr, Some pe, Some st, Some en, Some ge, Some gr, Some (ki, ke), Some (au, po, ru, rb)) \<Rightarrow>
         Some \<lparr>mf_format = fo, mf_org = og, mf_framework = fr, mf_period = pe, mf_start = st, mf_end = en,
           mf_generated_at = ge, mf_generator = gr, mf_kind = ki, mf_key_id = ke, mf_audit_events = au,
           mf_policy_changes = po, mf_runs = ru, mf_rbac_changes = rb\<rparr>
     | _ \<Rightarrow> None)"

text \<open>The loop of \<open>VerifyPack\<close>: the last manifest and the last signature among the entries.\<close>

fun find_manifest :: "(string \<times> (string + string)) list \<Rightarrow> string option \<times> string option \<Rightarrow> (string option \<times> string option) res" where
  "find_manifest [] acc = Inr acc"
| "find_manifest ((name, body) # es) (m, sig) =
     (if name = ''manifest.json'' then
        (case body of Inl e \<Rightarrow> Inl (ErrText e) | Inr b \<Rightarrow> find_manifest es (Some b, sig))
      else if name = ''manifest.json.sig'' then
        (case body of Inl e \<Rightarrow> Inl (ErrText e) | Inr b \<Rightarrow> find_manifest es (m, Some b))
      else find_manifest es (m, sig))"

text \<open>The text of the decoder's error is the parameter \<open>json_error\<close>.\<close>

definition verify_pack :: "time_libs \<Rightarrow> archive_libs \<Rightarrow> (string \<Rightarrow> string) \<Rightarrow> string \<Rightarrow> signer \<Rightarrow> manifest res" where
  "verify_pack T A json_error raw sg =
     (case ar_read A raw of
        Inl e \<Rightarrow> Inl (ErrWrap ''gunzip: '' (ErrText e) [])
      | Inr (es, ending) \<Rightarrow>
          (case find_manifest es (None, None) of
             Inl e \<Rightarrow> Inl e
           | Inr acc \<Rightarrow>
               (case ending of
                  Some e \<Rightarrow> Inl (ErrText e)
                | None \<Rightarrow>
                    (case acc of
                       (Some m, Some sig) \<Rightarrow>
                         (case sg_verify sg m sig of
                            Some e \<Rightarrow> Inl (ErrWrap ''signature verify: '' e [])
                          | None \<Rightarrow> (case manifest_unmarshal T m of
                              None \<Rightarrow> Inl (ErrWrap ''parse manifest: '' (ErrText (json_error m)) [])
                            | Some mf \<Rightarrow> Inr mf))
                     | _ \<Rightarrow> Inl (ErrText ''pack missing manifest or signature'')))))"


section \<open>What a pack certifies\<close>

lemma manifest_roundtrip:
  assumes "\<And>t. read_time T (show_time T t) = Some t"
    and "0 \<le> mf_audit_events m" "mf_audit_events m < 2 ^ 63" "0 \<le> mf_policy_changes m" "mf_policy_changes m < 2 ^ 63"
    and "0 \<le> mf_runs m" "mf_runs m < 2 ^ 63" "0 \<le> mf_rbac_changes m" "mf_rbac_changes m < 2 ^ 63"
  shows "manifest_unmarshal T (marshal_indent T (manifest_json m)) = Some m"
proof -
  have "plain_json (manifest_json m)" by (simp add: manifest_json_def)
  then have u: "unmarshal_struct (marshal_indent T (manifest_json m)) = as_members (as_read T (manifest_json m))"
    by (simp add: unmarshal_struct_def marshal_parses)
  have a: "atoi (show_int (mf_audit_events m)) = Some (mf_audit_events m)"
    "atoi (show_int (mf_policy_changes m)) = Some (mf_policy_changes m)"
    "atoi (show_int (mf_runs m)) = Some (mf_runs m)" "atoi (show_int (mf_rbac_changes m)) = Some (mf_rbac_changes m)"
    using assms(2-) by (simp_all add: atoi_show_int)
  show ?thesis
    unfolding manifest_unmarshal_def u
    by (simp add: manifest_json_def as_members_def field_string_def dec_string_def dec_time_def dec_signature_def
        dec_counts_def dec_int_def JInt_def a assms(1) equal_fold_def to_lower_def lower_char_def)
qed

text \<open>A line of the pack's files is one record: the encoder escapes the line breaks of strings.\<close>

lemma quote_one_line: "CHR 0x0A \<notin> set (quote_json s)"
proof -
  have u: "CHR 0x0A \<notin> set (u00 c)" for c
  proof -
    have "hex_val (CHR 0x0A) = None" by (simp add: hex_val_def)
    then have d: "hex_digit n \<noteq> CHR 0x0A" if "n < 16" for n using hex_val_hex_digit [OF that] by auto
    have "(of_char c :: nat) < 256" by (rule of_char_less_256)
    then have "(of_char c :: nat) div 16 < 16" "(of_char c :: nat) mod 16 < 16" by linarith+
    then show ?thesis using d [THEN not_sym] by (simp add: u00_def)
  qed
  have "CHR 0x0A \<notin> set (quote_json_char c)" for c
    using u by (auto simp: quote_json_char_def)
  then show ?thesis by (induction s rule: quote_json.induct) auto
qed

lemma write_one_line:
  assumes "plain_json v"
  shows "CHR 0x0A \<notin> set (write_val T (\<lambda>_. []) '':'' d v)"
  using assms
proof (induction v arbitrary: d)
  case (3 i)
  have "\<not> is_num_char (CHR 0x0A)" by (simp add: is_num_char_def is_digit_def)
  with show_int_num_chars [of i] show ?case by (auto simp: JInt_def list_all_iff)
next
  case (6 es)
  have "CHR 0x0A \<notin> set (write_elems T (\<lambda>_. []) '':'' n xs)" if "set xs \<subseteq> set es" for n xs
    using that 6(2) by (induction xs) (auto simp: )
  then show ?case by simp
next
  case (7 ms)
  have "CHR 0x0A \<notin> set (write_mems T (\<lambda>_. []) '':'' n xs)" if "set xs \<subseteq> set ms" for n xs
    using that
  proof (induction xs)
    case (Cons x xs)
    then have "CHR 0x0A \<notin> set (write_val T (\<lambda>_. []) '':'' n (snd x))" using 7(2) [of "snd x"] by auto
    with Cons quote_one_line show ?case by (cases x) (auto simp: json_string_def)
  qed simp
  then show ?case by simp
qed (auto simp: json_string_def quote_one_line)

definition line_count :: "string \<Rightarrow> nat" where
  "line_count s = length (filter (\<lambda>c. c = CHR 0x0A) s)"

lemma ndjson_lines:
  assumes "\<And>x. x \<in> set xs \<Longrightarrow> plain_json (enc x)"
  shows "line_count (encode_ndjson T enc xs) = length xs"
  using assms
proof (induction xs)
  case (Cons x xs)
  have "filter (\<lambda>c. c = CHR 0x0A) (marshal_json T (enc x)) = []"
    using write_one_line [of "enc x" T 0] Cons.prems by (auto simp: marshal_json_def filter_empty_conv)
  with Cons show ?case by (simp add: encode_ndjson_def line_count_def newline_def)
qed (simp add: encode_ndjson_def line_count_def)

lemma plain_records [simp]: "plain_json (event_json e)" "plain_json (run_json q)"
  by (auto simp: event_json_def run_json_def opt_member_def split: option.splits)

text \<open>The contract of a \<open>Signer\<close>: it can sign anything, and accepts exactly its own signatures.\<close>

locale pack_signer =
  fixes sg :: signer
  assumes can_sign: "\<exists>sig. sg_sign sg payload = Inr sig"
    and accepts_own: "sg_verify sg payload sig = None \<longleftrightarrow> sg_sign sg payload = Inr sig"
begin

lemma built_verifies:
  assumes "archive_ok A" "sg_sign sg (marshal_indent (sv_times S) (manifest_json m)) = Inr sig"
    and "manifest_unmarshal (sv_times S) (marshal_indent (sv_times S) (manifest_json m)) = Some m"
  shows "verify_pack (sv_times S) A je (ar_write A (pack_entries S now m sig mapping es qs)) sg = Inr m"
proof -
  have "ar_read A (ar_write A (pack_entries S now m sig mapping es qs)) =
      Inr (map (\<lambda>e. (te_name e, Inr (te_body e))) (pack_entries S now m sig mapping es qs), None)"
    using assms(1) by (simp add: archive_ok_def pack_entries_def tar_of_def tar_entry_ok_def)
  moreover have "find_manifest (map (\<lambda>e. (te_name e, Inr (te_body e))) (pack_entries S now m sig mapping es qs)) (None, None) =
      Inr (Some (marshal_indent (sv_times S) (manifest_json m)), Some sig)"
    by (simp add: pack_entries_def tar_of_def)
  moreover have "sg_verify sg (marshal_indent (sv_times S) (manifest_json m)) sig = None"
    using assms(2) accepts_own by simp
  ultimately show ?thesis using assms(3) by (simp add: verify_pack_def)
qed

lemma verified_signed:
  assumes "verify_pack T A je raw sg = Inr m"
  shows "\<exists>es body sig. ar_read A raw = Inr (es, None) \<and> (''manifest.json'', Inr body) \<in> set es \<and>
    (''manifest.json.sig'', Inr sig) \<in> set es \<and> sg_sign sg body = Inr sig \<and> manifest_unmarshal T body = Some m"
proof -
  have found: "(b = acc_b \<or> (\<exists>x. b = Some x \<and> (''manifest.json'', Inr x) \<in> set es)) \<and>
      (s = acc_s \<or> (\<exists>x. s = Some x \<and> (''manifest.json.sig'', Inr x) \<in> set es))"
    if "find_manifest es (acc_b, acc_s) = Inr (b, s)" for es acc_b acc_s b s
    using that by (induction es "(acc_b, acc_s)" arbitrary: acc_b acc_s rule: find_manifest.induct)
      (auto split: if_splits sum.splits)
  from assms obtain es b s where r: "ar_read A raw = Inr (es, None)"
    "find_manifest es (None, None) = Inr (Some b, Some s)" "sg_verify sg b s = None" "manifest_unmarshal T b = Some m"
    by (auto simp: verify_pack_def split: sum.splits prod.splits option.splits)
  from found [OF r(2)] r accepts_own show ?thesis by auto
qed

end

interpretation hmac: pack_signer "hmac_signer H key" for H key
  by unfold_locales (auto simp: hmac_signer_def hmac_verify_def)

text \<open>What \<open>BuildPack\<close> did when it succeeded.\<close>

lemma build_pack_ok:
  assumes "run_state (build_pack S file fs q) w = ((Inr m, es), w')"
  shows "\<exists>sg mapping sig evs qs d1 d2. pq_signer q = Some sg \<and>
    list_audit_events_in_window (pq_org q) (pq_start q) (pq_end q) (w_db w) = (Inr evs, d1) \<and>
    list_runs_in_window (pq_org q) (pq_start q) (pq_end q) d1 = (Inr qs, d2) \<and>
    sg_sign sg (marshal_indent (sv_times S) (manifest_json m)) = Inr sig \<and>
    m = manifest_of q sg (w_now w) evs qs \<and> es = pack_entries S (w_now w) m sig mapping evs qs"
  using assms
  by (auto simp: build_pack_def Let_def clock_def db_call_def dest!: write_entries_all
      split: if_splits option.splits sum.splits prod.splits)

text \<open>The records a pack is about, and the lines of one of its files.\<close>

definition pack_event :: "pack_request \<Rightarrow> audit_event \<Rightarrow> bool" where
  "pack_event q e \<longleftrightarrow> ev_org e = pq_org q \<and> micros (pq_start q) \<le> ev_created_at e \<and> ev_created_at e < micros (pq_end q)"

definition pack_run :: "pack_request \<Rightarrow> run \<Rightarrow> bool" where
  "pack_run q p \<longleftrightarrow> r_org p = pq_org q \<and> micros (pq_start q) \<le> r_started_at p \<and> r_started_at p < micros (pq_end q)"

definition pack_lines :: "string \<Rightarrow> tar_entry list \<Rightarrow> nat option" where
  "pack_lines name es = map_option line_count (map_of (map (\<lambda>e. (te_name e, te_body e)) es) name)"

lemma window_rows:
  assumes "list_audit_events_in_window org a b s = (Inr evs, s')"
  shows "mset evs = mset (filter (\<lambda>e. ev_org e = org \<and> micros a \<le> ev_created_at e \<and> ev_created_at e < micros b) (audits s))"
    and "runs s' = runs s"
  using assms by (auto simp: list_audit_events_in_window_def select_def stmt_def Let_def with_ctx_def order_by_mset
      split: if_splits)

lemma window_run_rows:
  assumes "list_runs_in_window org a b s = (Inr qs, s')"
  shows "mset qs = mset (filter (\<lambda>p. r_org p = org \<and> micros a \<le> r_started_at p \<and> r_started_at p < micros b) (runs s))"
  using assms by (auto simp: list_runs_in_window_def select_def stmt_def Let_def with_ctx_def order_by_mset
      split: if_splits)

lemma pack_line_counts:
  "pack_lines ''audit-log.ndjson'' (pack_entries S now m sig mapping evs qs) = Some (length evs)"
  "pack_lines ''runs.ndjson'' (pack_entries S now m sig mapping evs qs) = Some (length qs)"
  "pack_lines ''policy-history.ndjson'' (pack_entries S now m sig mapping evs qs) = Some (length (filter is_policy_change evs))"
  "pack_lines ''rbac-changes.ndjson'' (pack_entries S now m sig mapping evs qs) = Some (length (filter is_rbac_change evs))"
  by (simp_all add: pack_lines_def pack_entries_def tar_of_def encode_runs_ndjson_def ndjson_lines
      filter_policy_changes_def filter_rbac_changes_def)

text \<open>
  C32. An evidence pack is what its manifest says: when the pack is built, the archive written verifies
  under the signer it was built with and yields that manifest, whose counts are the number of the
  organization's audit events and runs of the period, and of lines in the pack's files.
\<close>

theorem evidence_pack_verifies:
  assumes "archive_ok A" and "\<And>t. read_time (sv_times S) (show_time (sv_times S) t) = Some t"
    and "pq_signer q = Some (hmac_signer H key)"
    and "length (audits (w_db w)) < 2 ^ 63" and "length (runs (w_db w)) < 2 ^ 63"
    and "run_state (build_pack S file fs q) w = ((Inr m, es), w')"
  shows "verify_pack (sv_times S) A je (ar_write A es) (hmac_signer H key) = Inr m \<and>
    mf_audit_events m = int (length (filter (pack_event q) (audits (w_db w)))) \<and>
    mf_runs m = int (length (filter (pack_run q) (runs (w_db w)))) \<and>
    pack_lines ''audit-log.ndjson'' es = Some (nat (mf_audit_events m)) \<and>
    pack_lines ''policy-history.ndjson'' es = Some (nat (mf_policy_changes m)) \<and>
    pack_lines ''rbac-changes.ndjson'' es = Some (nat (mf_rbac_changes m)) \<and>
    pack_lines ''runs.ndjson'' es = Some (nat (mf_runs m))"
proof -
  from build_pack_ok [OF assms(6)] assms(3) obtain mapping sig evs qs d1 d2 where
    ev: "list_audit_events_in_window (pq_org q) (pq_start q) (pq_end q) (w_db w) = (Inr evs, d1)"
    and rn: "list_runs_in_window (pq_org q) (pq_start q) (pq_end q) d1 = (Inr qs, d2)"
    and sig: "sg_sign (hmac_signer H key) (marshal_indent (sv_times S) (manifest_json m)) = Inr sig"
    and m: "m = manifest_of q (hmac_signer H key) (w_now w) evs qs"
    and es: "es = pack_entries S (w_now w) m sig mapping evs qs" by auto
  have le: "length evs = length (filter (pack_event q) (audits (w_db w)))"
    using window_rows(1) [OF ev] unfolding pack_event_def by (metis size_mset)
  have lr: "length qs = length (filter (pack_run q) (runs (w_db w)))"
    using window_run_rows [OF rn] window_rows(2) [OF ev] unfolding pack_run_def by (metis size_mset)
  have "length evs < 2 ^ 63" "length qs < 2 ^ 63"
    using le lr assms(4,5) length_filter_le [of "pack_event q" "audits (w_db w)"]
      length_filter_le [of "pack_run q" "runs (w_db w)"] by linarith+
  moreover have "length (filter_policy_changes evs) \<le> length evs" "length (filter_rbac_changes evs) \<le> length evs"
    by (simp_all add: filter_policy_changes_def filter_rbac_changes_def)
  ultimately have "manifest_unmarshal (sv_times S) (marshal_indent (sv_times S) (manifest_json m)) = Some m"
    by (intro manifest_roundtrip [OF assms(2)]) (simp_all add: m manifest_of_def)
  from hmac.built_verifies [OF assms(1) sig this] le lr show ?thesis
    by (simp add: es pack_line_counts) (simp add: m manifest_of_def filter_policy_changes_def filter_rbac_changes_def)
qed

definition demo_event :: "string \<Rightarrow> string \<Rightarrow> int \<Rightarrow> audit_event" where
  "demo_event org action t = \<lparr>ev_id = ''e'', ev_org = org, ev_user = ''u'', ev_action = action, ev_resource = ''r'',
     ev_resource_id = [], ev_metadata = [], ev_created_at = t\<rparr>"

definition pack_world :: world where
  "pack_world = demo_world\<lparr>w_db := demo_db\<lparr>
     audits := [demo_event ''a'' ''org.create'' 1, demo_event ''b'' ''org.create'' 2, demo_event ''a'' ''agent.register'' 3],
     runs := [demo_run ''a'' ''r1'' 9]\<rparr>\<rparr>"

definition demo_pack :: pack_request where
  "demo_pack = \<lparr>pq_org = ''a'', pq_framework = ''soc2-cc'', pq_period = ''Q3'', pq_start = 0, pq_end = 5000,
     pq_generator = ''relic-api'', pq_mappings_dir = ''m'', pq_signer = Some (hmac_signer (\<lambda>k m. k @ m) ''key'')\<rparr>"

lemma evidence_pack_verifies_witness:
  "\<exists>m es. fst (run_state (build_pack demo_server (\<lambda>p. Inr ''controls'') [] demo_pack) pack_world) = (Inr m, es) \<and>
     verify_pack demo_times toy_archive id (ar_write toy_archive es) (hmac_signer (\<lambda>k m. k @ m) ''key'') = Inr m \<and>
     mf_audit_events m = 2 \<and> mf_runs m = 1 \<and> pack_lines ''rbac-changes.ndjson'' es = Some (nat (mf_rbac_changes m))"
proof -
  have ev: "list_audit_events_in_window ''a'' 0 5000 (w_db pack_world) =
      (Inr [demo_event ''a'' ''org.create'' 1, demo_event ''a'' ''agent.register'' 3], w_db pack_world)"
    by code_simp
  have rn: "list_runs_in_window ''a'' 0 5000 (w_db pack_world) = (Inr [demo_run ''a'' ''r1'' 9], w_db pack_world)"
    by code_simp
  have size: "length (audits (w_db pack_world)) = 3" "length (runs (w_db pack_world)) = 1"
    by (simp_all add: pack_world_def)
  have count: "length (filter (pack_event demo_pack) (audits (w_db pack_world))) = 2"
    "length (filter (pack_run demo_pack) (runs (w_db pack_world))) = 1"
    by code_simp+
  obtain m es w' where run: "run_state (build_pack demo_server (\<lambda>p. Inr ''controls'') [] demo_pack) pack_world = ((Inr m, es), w')"
    using ev rn by (simp add: build_pack_def demo_pack_def Let_def clock_def db_call_def hmac_signer_def pack_entries_def)
  have "verify_pack (sv_times demo_server) toy_archive id (ar_write toy_archive es) (hmac_signer (\<lambda>k m. k @ m) ''key'') = Inr m \<and>
    mf_audit_events m = int (length (filter (pack_event demo_pack) (audits (w_db pack_world)))) \<and>
    mf_runs m = int (length (filter (pack_run demo_pack) (runs (w_db pack_world)))) \<and>
    pack_lines ''audit-log.ndjson'' es = Some (nat (mf_audit_events m)) \<and>
    pack_lines ''policy-history.ndjson'' es = Some (nat (mf_policy_changes m)) \<and>
    pack_lines ''rbac-changes.ndjson'' es = Some (nat (mf_rbac_changes m)) \<and>
    pack_lines ''runs.ndjson'' es = Some (nat (mf_runs m))"
    by (rule evidence_pack_verifies [OF toy_archive_ok _ _ _ _ run])
      (simp_all add: size demo_pack_def demo_server_def demo_times_roundtrip)
  with run count show ?thesis by (simp add: demo_server_def)
qed

text \<open>
  The signature covers the manifest alone: the same pack with another audit log verifies as before.
\<close>

definition with_body :: "string \<Rightarrow> string \<Rightarrow> tar_entry list \<Rightarrow> tar_entry list" where
  "with_body name body es = map (\<lambda>e. if te_name e = name then e\<lparr>te_body := body, te_size := length body\<rparr> else e) es"

lemma pack_contents_unsigned:
  assumes "archive_ok A" "name \<noteq> ''manifest.json''" "name \<noteq> ''manifest.json.sig''"
    and "list_all tar_entry_ok es"
  shows "verify_pack T A je (ar_write A (with_body name body es)) sg = verify_pack T A je (ar_write A es) sg"
proof -
  have "find_manifest (map (\<lambda>e. (te_name e, Inr (te_body e))) (with_body name body es)) acc =
      find_manifest (map (\<lambda>e. (te_name e, Inr (te_body e))) es) acc" for acc
    using assms(2,3) by (induction es arbitrary: acc) (auto simp: with_body_def)
  moreover have "list_all tar_entry_ok (with_body name body es)"
    using assms(4) by (auto simp: with_body_def list_all_iff tar_entry_ok_def)
  ultimately show ?thesis using assms(1,4) by (simp add: verify_pack_def archive_ok_def)
qed

section \<open>What a mapping that validates is\<close>

definition evidence_ok :: "(string \<Rightarrow> bool) \<Rightarrow> string \<Rightarrow> evidence \<Rightarrow> bool" where
  "evidence_ok exists base e \<longleftrightarrow> kind_valid (vd_kind e) \<and> trim_space (vd_path e) \<noteq> [] \<and>
     (base = [] \<or> exists (evidence_file base (vd_path e)))"

definition control_ok :: "(string \<Rightarrow> bool) \<Rightarrow> string \<Rightarrow> control \<Rightarrow> bool" where
  "control_ok exists base c \<longleftrightarrow> trim_space (ct_id c) \<noteq> [] \<and> coverage_valid (ct_coverage c) \<and>
     list_all (\<lambda>sa. trim_space (sat_capability sa) \<noteq> [] \<and> list_all (evidence_ok exists base) (sat_evidence sa)) (ct_satisfies c)"

definition mapping_ok :: "(string \<Rightarrow> bool) \<Rightarrow> string \<Rightarrow> mapping_doc \<Rightarrow> bool" where
  "mapping_ok exists base m \<longleftrightarrow> trim_space (mp_framework m) \<noteq> [] \<and> trim_space (mp_version m) \<noteq> [] \<and>
     mp_controls m \<noteq> [] \<and> distinct (map ct_id (mp_controls m)) \<and> list_all (control_ok exists base) (mp_controls m)"

lemma first_error_none: "(case x of None \<Rightarrow> y | Some e \<Rightarrow> Some e) = None \<longleftrightarrow> x = None \<and> y = None"
  by (cases x) auto

lemma check_evidences_iff: "check_evidences exists base cid i es = None \<longleftrightarrow> list_all (evidence_ok exists base) es"
  by (induction es arbitrary: i) (auto simp: check_evidence_def evidence_ok_def first_error_none)

lemma check_satisfactions_iff:
  "check_satisfactions exists base cid i sas = None \<longleftrightarrow>
     list_all (\<lambda>sa. trim_space (sat_capability sa) \<noteq> [] \<and> list_all (evidence_ok exists base) (sat_evidence sa)) sas"
  by (induction sas arbitrary: i) (auto simp: check_evidences_iff first_error_none)

lemma check_controls_iff:
  "check_controls exists base seen i cs = None \<longleftrightarrow>
     distinct (map ct_id cs) \<and> ct_id ` set cs \<inter> set seen = {} \<and> list_all (control_ok exists base) cs"
  by (induction cs arbitrary: seen i)
    (auto simp: check_control_def check_satisfactions_iff control_ok_def first_error_none)

text \<open>
  A mapping validates exactly when it is one a pack may carry: framework and version named, controls
  with distinct ids and a known coverage, and for every capability claimed, evidence of a known kind
  whose file exists (unless no repository root is given).
\<close>

lemma mapping_validated_exactly:
  "validate_mapping exists m base = None \<longleftrightarrow> mapping_ok exists base m"
  by (auto simp: validate_mapping_def mapping_ok_def check_controls_iff)

end
