(* ===== verification/Backup.thy ===== *)
theory Backup
  imports Compliance
begin

text \<open>
  \<open>cmd/relic-api/backup.go\<close>: the backup bundle and its restoration. \<open>pg_dump\<close>, \<open>psql\<close>, gzip, the pages in
  which the bucket lists its keys and the files of the machine are parameters.
\<close>

record backup_libs =
  bk_archive :: archive_libs
  bk_gzip :: "string \<Rightarrow> string"
  bk_has :: "string \<Rightarrow> bool"
  bk_temp :: "string option"
  bk_pg_dump :: "string \<Rightarrow> db \<Rightarrow> string + string"
  bk_psql :: "string \<Rightarrow> string \<Rightarrow> db \<Rightarrow> db \<times> string option"
  bk_new_s3 :: "string option"
  bk_pages :: "(string \<rightharpoonup> string) \<Rightarrow> string list list"
  bk_float :: "string \<Rightarrow> bool \<times> int"

section \<open>The bucket as the backup reads it (\<open>storage/s3.go\<close>)\<close>

fun list_pages :: "string list list \<Rightarrow> string list \<Rightarrow> string list res act" where
  "list_pages [] out = State_Monad.return (Inr out)"
| "list_pages (p # ps) out = do {
     r \<leftarrow> s3_call (\<lambda>b. Inr ((), b));
     case r of
       Inl e \<Rightarrow> State_Monad.return (Inl (ErrWrap ''list S3 keys: '' e []))
     | Inr _ \<Rightarrow> list_pages ps (out @ p) }"

definition s3_list_keys :: "((string \<rightharpoonup> string) \<Rightarrow> string list list) \<Rightarrow> string list res act" where
  "s3_list_keys pages = State (\<lambda>w. run_state (list_pages (pages (w_blobs w)) []) w)"

definition s3_stream_object :: "string \<Rightarrow> (string \<times> nat) res act" where
  "s3_stream_object key = do {
     d \<leftarrow> s3_download key;
     State_Monad.return (map_sum id (\<lambda>b. (b, length b)) d) }"

section \<open>URLs\<close>

definition scrub_url :: "string \<Rightarrow> string" where
  "scrub_url u =
     (case (index_of u ''@'', index_of u ''://'') of
        (Some _, Some colon) \<Rightarrow>
          let pre = take (colon + 3) u; rest = drop (colon + 3) u in
          (case index_of rest ''@'' of
             None \<Rightarrow> u
           | Some i \<Rightarrow>
               (case index_of (take i rest) '':'' of
                  None \<Rightarrow> pre @ take i rest @ drop i rest
                | Some c \<Rightarrow> pre @ take c rest @ '':***'' @ drop i rest))
      | _ \<Rightarrow> ''<scrubbed>'')"

section \<open>The bundle\<close>

definition blobs_prefix :: string where
  "blobs_prefix = ''relic-backup/blobs/''"

text \<open>\<open>writeTarEntryStream\<close>.\<close>

definition tar_stream :: "int \<Rightarrow> string \<Rightarrow> string \<Rightarrow> nat \<Rightarrow> tar_entry" where
  "tar_stream now name body n = \<lparr>te_name = name, te_mode = 384, te_mtime = now, te_size = n, te_body = body\<rparr>"

text \<open>The copy of the blobs: an object that cannot be read is skipped, a failed write ends it.\<close>

fun write_blobs :: "int \<Rightarrow> string option list \<Rightarrow> string list \<Rightarrow> (tar_entry list \<times> string option) act" where
  "write_blobs now fs [] = State_Monad.return ([], None)"
| "write_blobs now fs (k # ks) = do {
     r \<leftarrow> s3_stream_object k;
     case r of
       Inl e \<Rightarrow> write_blobs now fs ks
     | Inr (body, n) \<Rightarrow>
         (case fs of
            Some err # _ \<Rightarrow> State_Monad.return ([], Some err)
          | _ \<Rightarrow> do {
              es \<leftarrow> write_blobs now (tl fs) ks;
              State_Monad.return (tar_stream now (blobs_prefix @ k) body n # fst es, snd es) }) }"

text \<open>
  \<open>create\<close> is the error of creating the output, \<open>dump\<close> the dump file read back, \<open>fs\<close> the failures of the
  output's writes. The entries written are kept with the error that stopped the rest.
\<close>

definition write_backup_bundle :: "int \<Rightarrow> string option list \<Rightarrow> string option \<Rightarrow> string + string \<Rightarrow> string \<Rightarrow>
    string list \<Rightarrow> bool \<Rightarrow> (tar_entry list \<times> string option) act" where
  "write_backup_bundle now fs create dump manifest keys include_blobs =
     (case create of
        Some e \<Rightarrow> State_Monad.return ([], Some e)
      | None \<Rightarrow>
          (case write_entries fs [tar_of now ''relic-backup/manifest.json'' manifest] of
             (ws, Some e) \<Rightarrow> State_Monad.return (ws, Some e)
           | (ws, None) \<Rightarrow>
               (case dump of
                  Inl e \<Rightarrow> State_Monad.return (ws, Some e)
                | Inr d \<Rightarrow>
                    (case write_entries (drop 1 fs) [tar_of now ''relic-backup/database.sql.gz'' d,
                        tar_of now ''relic-backup/blobs.txt'' (join_with newline keys)] of
                       (ws2, Some e) \<Rightarrow> State_Monad.return (ws @ ws2, Some e)
                     | (ws2, None) \<Rightarrow>
                         if include_blobs then do {
                           bs \<leftarrow> write_blobs now (drop 3 fs) keys;
                           State_Monad.return (ws @ ws2 @ fst bs, snd bs) }
                         else State_Monad.return (ws @ ws2, None)))))"

section \<open>\<open>backup\<close>\<close>

text \<open>The arguments: help asked for, or whether blobs are included and the positional ones.\<close>

fun backup_args :: "string list \<Rightarrow> bool \<Rightarrow> string list \<Rightarrow> (bool \<times> string list) option" where
  "backup_args [] inc pos = Some (inc, pos)"
| "backup_args (a # args) inc pos =
     (if a = ''--include-blobs'' then backup_args args True pos
      else if a = ''-h'' \<or> a = ''--help'' then None
      else backup_args args inc (pos @ [a]))"

definition backup_usage :: string where
  "backup_usage = ''usage: relic-api backup [--include-blobs] OUT_FILE.tar.gz'' @ newline"

text \<open>The keys listed, with whether there is a client: a bucket that is not configured or fails gives none.\<close>

definition backup_keys :: "backup_libs \<Rightarrow> process \<Rightarrow> (string list \<times> bool) act" where
  "backup_keys B P =
     (if ps_env P ''S3_BUCKET'' = [] \<or> bk_new_s3 B \<noteq> None then State_Monad.return ([], False)
      else do {
        ks \<leftarrow> s3_list_keys (bk_pages B);
        State_Monad.return (case ks of Inl e \<Rightarrow> ([], True) | Inr keys \<Rightarrow> (keys, True)) })"

text \<open>\<open>json.MarshalIndent\<close> of the manifest, a map: its members are sorted by key.\<close>

definition backup_manifest :: "server \<Rightarrow> process \<Rightarrow> string \<Rightarrow> int \<Rightarrow> nat \<Rightarrow> bool \<Rightarrow> json" where
  "backup_manifest S P sv now n inc = JObj
     [(''blob_count'', JInt (int n)), (''build'', JStr (ps_build P)), (''commit'', JStr (ps_commit P)),
      (''includes_blobs'', JBool inc), (''schema_version'', JStr sv), (''taken_at'', JStr (sv_rfc3339 S now))]"

text \<open>
  The outcome, and the output file with the entries in it; \<open>sv\<close> is the schema version, \<open>tmp\<close> the error of
  writing and closing the temporary dump, \<open>reread\<close> the error of reading it.
\<close>

definition run_backup :: "server \<Rightarrow> backup_libs \<Rightarrow> process \<Rightarrow> string \<Rightarrow> string option \<Rightarrow> string option \<Rightarrow> string option list \<Rightarrow>
    string list \<Rightarrow> (outcome \<times> (string \<times> tar_entry list) option) act" where
  "run_backup S B P sv tmp reread fs args =
     (let stop = (\<lambda>n msg. State_Monad.return (exit_with n msg, None)) in
      case backup_args args False [] of
        None \<Rightarrow> State_Monad.return (finished backup_usage, None)
      | Some (inc, []) \<Rightarrow> stop 2 backup_usage
      | Some (inc, out # _) \<Rightarrow>
          let url = ps_env P ''DATABASE_URL'' in
          if url = [] then stop 1 (''DATABASE_URL is required for backup'' @ newline)
          else if \<not> bk_has B ''pg_dump'' then stop 1 (''pg_dump not found in PATH. Install postgresql-client.'' @ newline)
          else (case bk_temp B of
            Some e \<Rightarrow> stop 1 (''create temp: '' @ e @ newline)
          | None \<Rightarrow> do {
              d \<leftarrow> State (\<lambda>w. (bk_pg_dump B url (w_db w), w));
              case d of
                Inl e \<Rightarrow> stop 1 (''pg_dump: '' @ e @ newline)
              | Inr text \<Rightarrow>
                  (case tmp of
                     Some e \<Rightarrow> stop 1 (''close temp: '' @ e @ newline)
                   | None \<Rightarrow>
                       (case ps_connect P url of
                          Some e \<Rightarrow> stop 1 (''connect db: '' @ e @ newline)
                        | None \<Rightarrow> do {
                            ks \<leftarrow> backup_keys B P;
                            now \<leftarrow> clock;
                            let keys = fst ks;
                            let inc = (inc \<and> snd ks \<and> keys \<noteq> []);
                            let note = (if inc then ''--include-blobs: copying '' @ show_nat (length keys) @
                                  '' S3 objects into archive (this may take a while)'' @ newline else []);
                            let dump = (case reread of Some e \<Rightarrow> Inl e | None \<Rightarrow> Inr (bk_gzip B text));
                            let manifest = marshal_indent (sv_times S) (backup_manifest S P sv now (length keys) inc);
                            es \<leftarrow> write_backup_bundle now fs (ps_create P out) dump manifest keys inc;
                            State_Monad.return (case snd es of
                                Some e \<Rightarrow> (\<lparr>oc_code = 1, oc_out = note, oc_err = ''write bundle: '' @ e @ newline\<rparr>,
                                  if ps_create P out = None then Some (out, fst es) else None)
                              | None \<Rightarrow> (finished (note @ ''Backup written: '' @ out @ newline @
                                  ''  schema_version: '' @ sv @ newline @
                                  (if inc then ''  blobs:          '' @ show_nat (length keys) @ '' (copied into archive)''
                                   else ''  blob keys:      '' @ show_nat (length keys) @
                                     '' (S3 objects NOT copied; mirror your bucket separately or use --include-blobs)'') @
                                  newline), Some (out, fst es))) })) }))"

section \<open>\<open>restore\<close>\<close>

text \<open>What \<open>extractBundle\<close> accumulates; \<open>put_blob\<close> is an assignment to the map, kept as a list of its pairs.\<close>

record backup_bundle =
  bn_dump :: string
  bn_manifest :: "(string \<times> json) list"
  bn_blobs :: "(string \<times> string) list"

fun put_blob :: "string \<Rightarrow> string \<Rightarrow> (string \<times> string) list \<Rightarrow> (string \<times> string) list" where
  "put_blob k b [] = [(k, b)]"
| "put_blob k b ((l, c) # bs) = (if l = k then (k, b) # bs else (l, c) # put_blob k b bs)"

text \<open>\<open>json.Unmarshal\<close> into the manifest map adds to it; a body that does not parse is ignored.\<close>

definition read_manifest :: "string \<Rightarrow> (string \<times> json) list \<Rightarrow> (string \<times> json) list" where
  "read_manifest body m = (case json_parse body of
     Some (JObj ms) \<Rightarrow> dedup_keys (m @ ms)
   | Some JNull \<Rightarrow> []
   | _ \<Rightarrow> m)"

fun extract_entries :: "(string \<times> (string + string)) list \<Rightarrow> backup_bundle \<Rightarrow> backup_bundle res" where
  "extract_entries [] bn = Inr bn"
| "extract_entries ((name, body) # es) bn =
     (if name = ''relic-backup/manifest.json'' then
        extract_entries es (case body of Inl _ \<Rightarrow> bn | Inr b \<Rightarrow> bn\<lparr>bn_manifest := read_manifest b (bn_manifest bn)\<rparr>)
      else if name = ''relic-backup/database.sql.gz'' then
        (case body of
           Inl e \<Rightarrow> Inl (ErrText e)
         | Inr b \<Rightarrow> extract_entries es (bn\<lparr>bn_dump := bn_dump bn @ b\<rparr>))
      else if has_prefix name blobs_prefix then
        (case body of
           Inl e \<Rightarrow> Inl (ErrText e)
         | Inr b \<Rightarrow> extract_entries es (bn\<lparr>bn_blobs := put_blob (drop (length blobs_prefix) name) b (bn_blobs bn)\<rparr>))
      else extract_entries es bn)"

definition extract_bundle :: "backup_libs \<Rightarrow> process \<Rightarrow> string \<Rightarrow> backup_bundle res" where
  "extract_bundle B P path =
     (case ps_file P path of
        Inl e \<Rightarrow> Inl (ErrText e)
      | Inr raw \<Rightarrow>
          (case ar_read (bk_archive B) raw of
             Inl e \<Rightarrow> Inl (ErrText e)
           | Inr (es, ending) \<Rightarrow>
               (case bk_temp B of
                  Some e \<Rightarrow> Inl (ErrText e)
                | None \<Rightarrow>
                    (case extract_entries es \<lparr>bn_dump = [], bn_manifest = [], bn_blobs = []\<rparr> of
                       Inl e \<Rightarrow> Inl e
                     | Inr bn \<Rightarrow> (case ending of Some e \<Rightarrow> Inl (ErrText e) | None \<Rightarrow> Inr bn)))))"

text \<open>The uploads; one that fails is only logged.\<close>

fun restore_blobs :: "(string \<times> string) list \<Rightarrow> unit act" where
  "restore_blobs [] = State_Monad.return ()"
| "restore_blobs ((k, b) # bs) = do { _ \<leftarrow> s3_upload_bytes k b; restore_blobs bs }"

text \<open>
  \<open>ranged\<close> is the order in which Go ranges over the blobs; \<open>psql\<close> gives
  the database it leaves behind and its error; a dump whose compression is damaged reaches it as far as
  it goes.
\<close>

definition run_restore :: "server \<Rightarrow> backup_libs \<Rightarrow> process \<Rightarrow> ((string \<times> string) list \<Rightarrow> (string \<times> string) list) \<Rightarrow>
    string list \<Rightarrow> outcome act" where
  "run_restore S B P ranged args =
     (let stop = (\<lambda>n msg. State_Monad.return (exit_with n msg)); url = ps_env P ''DATABASE_URL'' in
      case args of
        [] \<Rightarrow> stop 2 (''usage: relic-api restore IN_FILE.tar.gz'' @ newline)
      | path # _ \<Rightarrow>
          if url = [] then stop 1 (''DATABASE_URL is required for restore'' @ newline)
          else if \<not> bk_has B ''psql'' then stop 1 (''psql not found in PATH. Install postgresql-client.'' @ newline)
          else (case extract_bundle B P path of
            Inl e \<Rightarrow> stop 1 (''extract: '' @ error_text e @ newline)
          | Inr bn \<Rightarrow>
              (case gunzip (sv_trace S) (bn_dump bn) of
                 Inl e \<Rightarrow> stop 1 (''gunzip: '' @ e @ newline)
               | Inr (script, damaged) \<Rightarrow> do {
                   r \<leftarrow> State (\<lambda>w. case bk_psql B url script (w_db w) of
                     (d, e) \<Rightarrow> (case e of None \<Rightarrow> damaged | _ \<Rightarrow> e, w\<lparr>w_db := d\<rparr>));
                   case r of
                     Some e \<Rightarrow> stop 1 (''psql: '' @ e @ newline)
                   | None \<Rightarrow>
                       let out = ''Restore (database) complete.'' @ newline in
                       if bn_blobs bn \<noteq> [] then
                         (if ps_env P ''S3_BUCKET'' = [] then State_Monad.return (finished (out @ ''Bundle contains '' @
                            show_nat (length (bn_blobs bn)) @ '' blob(s) but S3_BUCKET is unset; skipping blob restore.'' @ newline))
                          else case bk_new_s3 B of
                            Some e \<Rightarrow> State_Monad.return \<lparr>oc_code = 1, oc_out = out, oc_err = ''s3 init: '' @ e @ newline\<rparr>
                          | None \<Rightarrow> do {
                              restore_blobs (ranged (bn_blobs bn));
                              State_Monad.return (finished (out @ ''Restoring '' @ show_nat (length (bn_blobs bn)) @ '' blob(s) to '' @
                                ps_env P ''S3_BUCKET'' @ '' ...'' @ newline @ ''Restore (blobs) complete.'' @ newline)) })
                       else State_Monad.return (finished (out @ (case map_of (bn_manifest bn) ''blob_count'' of
                         Some (JNum n) \<Rightarrow> (case bk_float B n of (positive, bc) \<Rightarrow> if positive then ''Note: '' @ show_int bc @
                           '' blob keys were referenced by the backup. Ensure your S3 bucket contains those objects.'' @ newline else [])
                       | _ \<Rightarrow> []))) })))"

section \<open>A backup restores\<close>

lemma no_faults_left: "w_s3_faults w = [] \<Longrightarrow> w\<lparr>w_s3_faults := []\<rparr> = w"
  by (cases w) simp

lemma list_pages_ok: "w_s3_faults w = [] \<Longrightarrow> run_state (list_pages ps out) w = (Inr (out @ concat ps), w)"
  by (induction ps arbitrary: out) (simp_all add: s3_call_def Let_def no_faults_left)

lemma stream_ok:
  "w_s3_faults w = [] \<Longrightarrow> \<exists>e. run_state (s3_stream_object k) w =
     (case w_blobs w k of None \<Rightarrow> Inl e | Some b \<Rightarrow> Inr (b, length b), w)"
  by (cases w) (auto simp: s3_stream_object_def s3_download_def s3_call_def wrap_error_def Let_def split: option.splits)

definition blob_entries :: "int \<Rightarrow> (string \<rightharpoonup> string) \<Rightarrow> string list \<Rightarrow> tar_entry list" where
  "blob_entries now blobs ks = concat (map (\<lambda>k. case blobs k of None \<Rightarrow> []
     | Some b \<Rightarrow> [tar_stream now (blobs_prefix @ k) b (length b)]) ks)"

lemma write_blobs_ok:
  assumes "w_s3_faults w = []"
  shows "\<exists>es err. run_state (write_blobs now fs ks) w = ((es, err), w) \<and> (err = None \<longrightarrow> es = blob_entries now (w_blobs w) ks)"
proof (induction ks arbitrary: fs)
  case Nil
  then show ?case by (simp add: blob_entries_def)
next
  case (Cons k ks)
  obtain e where st: "run_state (s3_stream_object k) w =
      (case w_blobs w k of None \<Rightarrow> Inl e | Some b \<Rightarrow> Inr (b, length b), w)" using stream_ok [OF assms] by blast
  show ?case
  proof (cases "w_blobs w k")
    case None
    with st Cons.IH [of fs] show ?thesis by (simp add: blob_entries_def)
  next
    case (Some b)
    from Cons.IH [of "tl fs"] obtain es err where
      "run_state (write_blobs now (tl fs) ks) w = ((es, err), w)" "err = None \<longrightarrow> es = blob_entries now (w_blobs w) ks" by blast
    with st Some show ?thesis
      by (cases fs; cases "hd fs") (auto simp: blob_entries_def split: option.splits)
  qed
qed

lemma backup_args_flag: "backup_args args inc pos = Some (i, p) \<Longrightarrow> i \<longleftrightarrow> inc \<or> ''--include-blobs'' \<in> set args"
  by (induction args inc pos rule: backup_args.induct) (auto split: if_splits)

text \<open>The entries of a bundle that was written whole.\<close>

lemma bundle_written:
  assumes "w_s3_faults w = []" "run_state (write_backup_bundle now fs create (Inr d) m ks inc) w = ((es, None), w')"
  shows "w' = w \<and> es = [tar_of now ''relic-backup/manifest.json'' m, tar_of now ''relic-backup/database.sql.gz'' d,
    tar_of now ''relic-backup/blobs.txt'' (join_with newline ks)] @ (if inc then blob_entries now (w_blobs w) ks else [])"
proof -
  obtain bs err where wb: "run_state (write_blobs now (drop 3 fs) ks) w = ((bs, err), w)"
    "err = None \<longrightarrow> bs = blob_entries now (w_blobs w) ks" using write_blobs_ok [OF assms(1)] by blast
  from assms(2) wb show ?thesis
    by (auto simp del: write_entries.simps simp: write_backup_bundle_def dest!: write_entries_all
        split: option.splits prod.splits if_splits)
qed

lemma backup_written:
  assumes "w_s3_faults w = []" "run_state (run_backup S B P sv tmp None fs args) w = ((oc, Some (out, es)), w')"
    and "oc_code oc = 0" "''--include-blobs'' \<in> set args" "ps_env P ''S3_BUCKET'' \<noteq> []" "bk_new_s3 B = None"
  shows "\<exists>script m. bk_pg_dump B (ps_env P ''DATABASE_URL'') (w_db w) = Inr script \<and>
    es = [tar_of (w_now w) ''relic-backup/manifest.json'' m, tar_of (w_now w) ''relic-backup/database.sql.gz'' (bk_gzip B script),
      tar_of (w_now w) ''relic-backup/blobs.txt'' (join_with newline (concat (bk_pages B (w_blobs w))))] @
      blob_entries (w_now w) (w_blobs w) (concat (bk_pages B (w_blobs w)))"
proof -
  let ?ks = "concat (bk_pages B (w_blobs w))"
  have keys: "run_state (backup_keys B P) w = ((?ks, True), w)"
    using assms(5,6) list_pages_ok [OF assms(1)] by (simp add: backup_keys_def s3_list_keys_def)
  from assms(2) obtain inc pos where args: "backup_args args False [] = Some (inc, pos)"
    by (cases "backup_args args False []") (auto simp: run_backup_def Let_def)
  with backup_args_flag [OF args] assms(4) have inc: "inc" by simp
  from assms(2,3) args inc keys obtain script m where
    d: "bk_pg_dump B (ps_env P ''DATABASE_URL'') (w_db w) = Inr script"
    and b: "run_state (write_backup_bundle (w_now w) fs (ps_create P out) (Inr (bk_gzip B script)) m ?ks (?ks \<noteq> [])) w = ((es, None), w')"
    by (auto simp: run_backup_def Let_def clock_def exit_with_def finished_def
        split: list.splits if_splits option.splits sum.splits prod.splits)
  from bundle_written [OF assms(1) b] d show ?thesis by (auto simp: blob_entries_def)
qed

text \<open>Reading such a bundle back.\<close>

lemma keys_put_blob: "fst ` set (put_blob k b bs) = insert k (fst ` set bs)"
  by (induction k b bs rule: put_blob.induct) auto

lemma put_blob_map: "distinct (map fst bs) \<Longrightarrow> distinct (map fst (put_blob k b bs)) \<and> map_of (put_blob k b bs) = (map_of bs)(k \<mapsto> b)"
proof (induction k b bs rule: put_blob.induct)
  case (2 k b l c bs)
  then show ?case using keys_put_blob [of k b bs] by (auto simp: fun_upd_twist)
qed simp

lemma blob_name: "has_prefix (blobs_prefix @ k) blobs_prefix" "drop (length blobs_prefix) (blobs_prefix @ k) = k"
  "blobs_prefix @ k \<noteq> ''relic-backup/manifest.json''" "blobs_prefix @ k \<noteq> ''relic-backup/database.sql.gz''"
  by (simp_all add: has_prefix_append) (simp_all add: blobs_prefix_def)

lemma extract_blobs:
  assumes "distinct (map fst (bn_blobs bn))"
  shows "\<exists>bs. extract_entries (map (\<lambda>e. (te_name e, Inr (te_body e))) (blob_entries now blobs ks)) bn = Inr (bn\<lparr>bn_blobs := bs\<rparr>) \<and>
    distinct (map fst bs) \<and> map_of bs = (\<lambda>k. if k \<in> set ks \<and> blobs k \<noteq> None then blobs k else map_of (bn_blobs bn) k)"
  using assms
proof (induction ks arbitrary: bn)
  case Nil
  then show ?case by (intro exI [of _ "bn_blobs bn"]) (simp add: blob_entries_def)
next
  case (Cons k ks)
  show ?case
  proof (cases "blobs k")
    case None
    with Cons.IH [OF Cons.prems] show ?thesis by (auto simp: blob_entries_def fun_eq_iff)
  next
    case (Some b)
    let ?bn = "bn\<lparr>bn_blobs := put_blob k b (bn_blobs bn)\<rparr>"
    have put: "distinct (map fst (bn_blobs ?bn))" "map_of (bn_blobs ?bn) = (map_of (bn_blobs bn))(k \<mapsto> b)"
      using put_blob_map [OF Cons.prems] by simp_all
    from Cons.IH [OF put(1)] obtain bs where
      "extract_entries (map (\<lambda>e. (te_name e, Inr (te_body e))) (blob_entries now blobs ks)) ?bn = Inr (?bn\<lparr>bn_blobs := bs\<rparr>)"
      "distinct (map fst bs)" "map_of bs = (\<lambda>l. if l \<in> set ks \<and> blobs l \<noteq> None then blobs l else map_of (bn_blobs ?bn) l)"
      by blast
    with Some put(2) show ?thesis
      by (intro exI [of _ bs]) (auto simp: blob_entries_def tar_stream_def blob_name fun_eq_iff)
  qed
qed

lemma restore_blobs_ok:
  assumes "w_s3_faults w = []"
  shows "run_state (restore_blobs bs) w = ((), w\<lparr>w_blobs := fold (\<lambda>(k, b) m. m(k \<mapsto> b)) bs (w_blobs w)\<rparr>)"
  using assms
proof (induction bs arbitrary: w)
  case (Cons p bs)
  obtain k b where p: "p = (k, b)" by (cases p)
  have "\<exists>r. run_state (s3_upload_bytes k b) w = (r, w\<lparr>w_blobs := (w_blobs w)(k \<mapsto> b)\<rparr>)"
    using Cons.prems by (cases w) (simp add: s3_upload_bytes_def s3_upload_def s3_call_def Let_def)
  with Cons show ?case by (auto simp: p)
qed simp

lemma fold_upd_map_of:
  assumes "distinct (map fst bs)"
  shows "fold (\<lambda>(k, b) m. m(k \<mapsto> b)) bs m = m ++ map_of bs"
  using assms
proof (induction bs arbitrary: m)
  case (Cons p bs)
  then have "map_of bs (fst p) = None" by (simp add: map_of_eq_None_iff)
  with Cons show ?case by (cases p) (auto simp: fun_eq_iff map_add_def split: option.splits)
qed simp

text \<open>A name an archive can hold for a blob.\<close>

definition blob_key_ok :: "string \<Rightarrow> bool" where
  "blob_key_ok k \<longleftrightarrow> k \<noteq> [] \<and> CHR 0x00 \<notin> set k \<and> last k \<noteq> CHR ''/''"

lemma blob_entries_ok: "list_all blob_key_ok ks \<Longrightarrow> list_all tar_entry_ok (blob_entries now blobs ks)"
  by (induction ks) (auto simp: blob_entries_def blob_key_ok_def tar_entry_ok_def tar_stream_def blobs_prefix_def
      split: option.splits)

lemma bundle_extracted:
  assumes "archive_ok (bk_archive B)" "bk_temp B = None" "list_all blob_key_ok ks" "set ks = dom blobs"
    and "ps_file P path = Inr (ar_write (bk_archive B) ([tar_of now ''relic-backup/manifest.json'' m,
      tar_of now ''relic-backup/database.sql.gz'' d, tar_of now ''relic-backup/blobs.txt'' t] @ blob_entries now blobs ks))"
  shows "\<exists>bn. extract_bundle B P path = Inr bn \<and> bn_dump bn = d \<and> distinct (map fst (bn_blobs bn)) \<and> map_of (bn_blobs bn) = blobs"
proof -
  let ?es = "[tar_of now ''relic-backup/manifest.json'' m, tar_of now ''relic-backup/database.sql.gz'' d,
    tar_of now ''relic-backup/blobs.txt'' t] @ blob_entries now blobs ks"
  let ?bn = "\<lparr>bn_dump = d, bn_manifest = read_manifest m [], bn_blobs = []\<rparr>"
  have "list_all tar_entry_ok ?es" using blob_entries_ok [OF assms(3)] by (simp add: tar_of_def tar_entry_ok_def)
  with assms(1) have rd: "ar_read (bk_archive B) (ar_write (bk_archive B) ?es) =
      Inr (map (\<lambda>e. (te_name e, Inr (te_body e))) ?es, None)"
    unfolding archive_ok_def by blast
  have head: "extract_entries (map (\<lambda>e. (te_name e, Inr (te_body e))) ?es) \<lparr>bn_dump = [], bn_manifest = [], bn_blobs = []\<rparr> =
      extract_entries (map (\<lambda>e. (te_name e, Inr (te_body e))) (blob_entries now blobs ks)) ?bn"
    by (simp add: tar_of_def has_prefix_def blobs_prefix_def)
  obtain bs where "extract_entries (map (\<lambda>e. (te_name e, Inr (te_body e))) (blob_entries now blobs ks)) ?bn = Inr (?bn\<lparr>bn_blobs := bs\<rparr>)"
    "distinct (map fst bs)" "map_of bs = (\<lambda>k. if k \<in> set ks \<and> blobs k \<noteq> None then blobs k else None)"
    using extract_blobs [of ?bn now blobs ks] by (auto cong: if_cong)
  moreover have "(\<lambda>k. if k \<in> set ks \<and> blobs k \<noteq> None then blobs k else None) = blobs"
    using assms(4) by (auto simp: fun_eq_iff)
  ultimately show ?thesis using rd head assms(2,5) by (simp add: extract_bundle_def)
qed


definition demo_backup :: backup_libs where
  "demo_backup = \<lparr>bk_archive = toy_archive, bk_gzip = id, bk_has = (\<lambda>_. True), bk_temp = None,
     bk_pg_dump = (\<lambda>url d. Inr ''dump''), bk_psql = (\<lambda>url script d. (demo_db, None)), bk_new_s3 = None,
     bk_pages = (\<lambda>_. [[''k''], [''l'']]), bk_float = (\<lambda>_. (False, 0))\<rparr>"

text \<open>A machine with a database and a bucket configured, where every file holds \<open>raw\<close>.\<close>

definition demo_process :: "string \<Rightarrow> process" where
  "demo_process raw = \<lparr>ps_env = (\<lambda>n. if n = ''DATABASE_URL'' \<or> n = ''S3_BUCKET'' then n else []),
     ps_file = (\<lambda>_. Inr raw), ps_create = (\<lambda>_. None), ps_connect = (\<lambda>_. None), ps_abs = id,
     ps_build = ''dev'', ps_commit = ''unknown''\<rparr>"

definition backed_up :: world where
  "backed_up = demo_world\<lparr>w_blobs := [''k'' \<mapsto> ''x'', ''l'' \<mapsto> ''y'']\<rparr>"


end
