(* ===== verification/Migrate.thy ===== *)
theory Migrate
  imports Archive
begin

text \<open>
  \<open>internal/migrate\<close>: the migration runner. The database is the tracking table (none before the first
  run), the Supabase stub and a schema on which \<open>ml_exec\<close> executes a script, whole or not at all; each
  statement may fail.
\<close>

section \<open>State\<close>

record 'd migrate_db =
  mg_tracking :: "string list option"
  mg_stub :: bool
  mg_schema :: 'd
  mg_faults :: "string option list"

text \<open>
  \<open>ml_dir\<close> is \<open>os.ReadDir\<close>: the entries in the order of their names, or the error with whether it is
  \<open>os.ErrNotExist\<close>.
\<close>

record 'd migrate_libs =
  ml_exec :: "string \<Rightarrow> 'd \<Rightarrow> string + 'd"
  ml_dir :: "string \<Rightarrow> (string \<times> bool) + (string \<times> bool) list"
  ml_file :: "string \<Rightarrow> string + string"

record migrate_options =
  mo_core :: string
  mo_supabase :: string
  mo_rls :: string
  mo_auth_mode :: string
  mo_rls_enabled :: bool

definition mg_stmt :: "('d migrate_db \<Rightarrow> 'a res \<times> 'd migrate_db) \<Rightarrow> 'd migrate_db \<Rightarrow> 'a res \<times> 'd migrate_db" where
  "mg_stmt body s =
     (let s1 = s\<lparr>mg_faults := tl (mg_faults s)\<rparr> in
      case mg_faults s of
        Some e # _ \<Rightarrow> (Inl (ErrText e), s1)
      | _ \<Rightarrow> body s1)"

definition err_no_table :: go_error where
  "err_no_table = ErrText ''relation schema_migrations does not exist''"

section \<open>Statements\<close>

definition ensure_tracking_table :: "'d migrate_db \<Rightarrow> unit res \<times> 'd migrate_db" where
  "ensure_tracking_table = mg_stmt (\<lambda>s. (Inr (), s\<lparr>mg_tracking :=
     (case mg_tracking s of None \<Rightarrow> Some [] | t \<Rightarrow> t)\<rparr>))"

definition create_auth_users_stub :: "'d migrate_db \<Rightarrow> unit res \<times> 'd migrate_db" where
  "create_auth_users_stub s =
     (case mg_stmt (\<lambda>s. (Inr (), s)) s of
        (Inl e, s1) \<Rightarrow> (Inl e, s1)
      | (Inr _, s1) \<Rightarrow> mg_stmt (\<lambda>s. (Inr (), s\<lparr>mg_stub := True\<rparr>)) s1)"

definition is_applied :: "string \<Rightarrow> 'd migrate_db \<Rightarrow> bool res \<times> 'd migrate_db" where
  "is_applied key = mg_stmt (\<lambda>s. (case mg_tracking s of
     None \<Rightarrow> Inl err_no_table | Some t \<Rightarrow> Inr (key \<in> set t), s))"

definition exec_script :: "'d migrate_libs \<Rightarrow> string \<Rightarrow> 'd migrate_db \<Rightarrow> unit res \<times> 'd migrate_db" where
  "exec_script L body = mg_stmt (\<lambda>s. case ml_exec L body (mg_schema s) of
     Inl e \<Rightarrow> (Inl (ErrText e), s)
   | Inr d \<Rightarrow> (Inr (), s\<lparr>mg_schema := d\<rparr>))"

definition record_applied :: "string \<Rightarrow> 'd migrate_db \<Rightarrow> unit res \<times> 'd migrate_db" where
  "record_applied key = mg_stmt (\<lambda>s. case mg_tracking s of
     None \<Rightarrow> (Inl err_no_table, s)
   | Some t \<Rightarrow> if key \<in> set t then (Inl (ErrText ''duplicate key value violates unique constraint''), s)
              else (Inr (), s\<lparr>mg_tracking := Some (t @ [key])\<rparr>))"

section \<open>The runner\<close>

definition sort_strings :: "string list \<Rightarrow> string list" where
  "sort_strings = slice_stable (\<lambda>a b. \<not> string_le b a)"

definition list_sql :: "'d migrate_libs \<Rightarrow> string \<Rightarrow> (string \<times> bool) + string list" where
  "list_sql L dir = (case ml_dir L dir of
     Inl e \<Rightarrow> Inl e
   | Inr es \<Rightarrow> Inr (sort_strings (map (\<lambda>(name, is_dir). path_join [dir, name])
       (filter (\<lambda>(name, is_dir). \<not> is_dir \<and> has_suffix name ''.sql'') es))))"

definition migration_key :: "string \<Rightarrow> string \<Rightarrow> string" where
  "migration_key pre f = (if pre = [] then path_base f else pre @ ''/'' @ path_base f)"

text \<open>The loop over the files: how many were applied, and the error that stopped it.\<close>

fun apply_files :: "'d migrate_libs \<Rightarrow> string \<Rightarrow> string list \<Rightarrow> nat \<Rightarrow> 'd migrate_db \<Rightarrow>
    (nat \<times> go_error option) \<times> 'd migrate_db" where
  "apply_files L pre [] n s = ((n, None), s)"
| "apply_files L pre (f # fs) n s =
     (let key = migration_key pre f in
      case is_applied key s of
        (Inl e, s1) \<Rightarrow> ((n, Some (ErrWrap (''check '' @ key @ '': '') e [])), s1)
      | (Inr True, s1) \<Rightarrow> apply_files L pre fs n s1
      | (Inr False, s1) \<Rightarrow>
          (case ml_file L f of
             Inl e \<Rightarrow> ((n, Some (ErrWrap (''read '' @ f @ '': '') (ErrText e) [])), s1)
           | Inr body \<Rightarrow>
               (case exec_script L body s1 of
                  (Inl e, s2) \<Rightarrow> ((n, Some (ErrWrap (''execute '' @ key @ '': '') e [])), s2)
                | (Inr _, s2) \<Rightarrow>
                    (case record_applied key s2 of
                       (Inl e, s3) \<Rightarrow> ((n, Some (ErrWrap (''record '' @ key @ '': '') e [])), s3)
                     | (Inr _, s3) \<Rightarrow> apply_files L pre fs (Suc n) s3))))"

definition apply_folder :: "'d migrate_libs \<Rightarrow> string \<Rightarrow> string \<Rightarrow> 'd migrate_db \<Rightarrow>
    (nat \<times> go_error option) \<times> 'd migrate_db" where
  "apply_folder L dir pre s =
     (if dir = [] then ((0, None), s)
      else case list_sql L dir of
        Inl (e, missing) \<Rightarrow>
          ((0, if missing then None else Some (ErrWrap (''list '' @ dir @ '': '') (ErrText e) [])), s)
      | Inr fs \<Rightarrow> apply_files L pre fs 0 s)"

text \<open>The folders that \<open>Up\<close> applies, with the name its errors give them.\<close>

definition folders :: "migrate_options \<Rightarrow> (string \<times> string \<times> string) list" where
  "folders Q = [(mo_core Q, [], ''core'')] @
     (if mo_auth_mode Q = ''supabase'' \<and> mo_supabase Q \<noteq> [] then [(mo_supabase Q, ''supabase'', ''supabase'')] else []) @
     (if mo_rls_enabled Q \<and> mo_rls Q \<noteq> [] then [(mo_rls Q, ''rls'', ''rls'')] else [])"

fun apply_folders :: "'d migrate_libs \<Rightarrow> (string \<times> string \<times> string) list \<Rightarrow> nat \<Rightarrow> 'd migrate_db \<Rightarrow>
    (nat \<times> go_error option) \<times> 'd migrate_db" where
  "apply_folders L [] n s = ((n, None), s)"
| "apply_folders L ((dir, pre, name) # fs) n s =
     (case apply_folder L dir pre s of
        ((k, Some e), s1) \<Rightarrow> ((n, Some (ErrWrap (''apply '' @ name @ '' migrations: '') e [])), s1)
      | ((k, None), s1) \<Rightarrow> apply_folders L fs (n + k) s1)"

definition up :: "'d migrate_libs \<Rightarrow> migrate_options \<Rightarrow> 'd migrate_db \<Rightarrow> (nat \<times> go_error option) \<times> 'd migrate_db" where
  "up L Q s =
     (case ensure_tracking_table s of
        (Inl e, s1) \<Rightarrow> ((0, Some (ErrWrap ''ensure schema_migrations: '' e [])), s1)
      | (Inr _, s1) \<Rightarrow>
          (case (if mo_auth_mode Q = ''supabase'' then create_auth_users_stub s1 else (Inr (), s1)) of
             (Inl e, s2) \<Rightarrow> ((0, Some (ErrWrap ''create auth.users stub: '' e [])), s2)
           | (Inr _, s2) \<Rightarrow> apply_folders L (folders Q) 0 s2))"

definition migrate_status :: "'d migrate_db \<Rightarrow> string list res \<times> 'd migrate_db" where
  "migrate_status s =
     (case ensure_tracking_table s of
        (Inl e, s1) \<Rightarrow> (Inl e, s1)
      | (Inr _, s1) \<Rightarrow> mg_stmt (\<lambda>s. (case mg_tracking s of
          None \<Rightarrow> Inl err_no_table | Some t \<Rightarrow> Inr (sort_strings t), s)) s1)"

section \<open>What an \<open>Up\<close> does\<close>

text \<open>The files of the folders in order, with their keys.\<close>

definition folder_plan :: "'d migrate_libs \<Rightarrow> string \<times> string \<times> string \<Rightarrow> (string \<times> string) list" where
  "folder_plan L = (\<lambda>(dir, pre, name). if dir = [] then []
     else case list_sql L dir of Inl e \<Rightarrow> [] | Inr fs \<Rightarrow> map (\<lambda>f. (migration_key pre f, f)) fs)"

definition migration_plan :: "'d migrate_libs \<Rightarrow> migrate_options \<Rightarrow> (string \<times> string) list" where
  "migration_plan L Q = concat (map (folder_plan L) (folders Q))"

fun pending :: "string list \<Rightarrow> (string \<times> string) list \<Rightarrow> (string \<times> string) list" where
  "pending t [] = []"
| "pending t ((k, f) # ps) = (if k \<in> set t then pending t ps else (k, f) # pending (t @ [k]) ps)"

fun exec_files :: "'d migrate_libs \<Rightarrow> (string \<times> string) list \<Rightarrow> 'd \<Rightarrow> 'd option" where
  "exec_files L [] d = Some d"
| "exec_files L ((k, f) # ps) d =
     (case ml_file L f of
        Inl e \<Rightarrow> None
      | Inr body \<Rightarrow> (case ml_exec L body d of Inl e \<Rightarrow> None | Inr d' \<Rightarrow> exec_files L ps d'))"

lemma mg_stmt_run [simp]: "mg_faults s = [] \<Longrightarrow> mg_stmt body s = body s"
  by (cases s) (simp add: mg_stmt_def)

lemma pending_append: "pending t (ps @ qs) = pending t ps @ pending (t @ map fst (pending t ps)) qs"
  by (induction t ps rule: pending.induct) auto

lemma exec_files_append:
  "exec_files L (ps @ qs) d = Option.bind (exec_files L ps d) (exec_files L qs)"
  by (induction L ps d rule: exec_files.induct) (auto split: sum.splits)

lemma apply_files_ok:
  assumes "mg_faults s = []" "mg_tracking s = Some t" "apply_files L pre fs n s = ((k, None), s')"
  shows "let ps = pending t (map (\<lambda>f. (migration_key pre f, f)) fs) in
    k = n + length ps \<and> exec_files L ps (mg_schema s) = Some (mg_schema s') \<and>
    s' = s\<lparr>mg_tracking := Some (t @ map fst ps), mg_schema := mg_schema s'\<rparr>"
  using assms
proof (induction fs arbitrary: s t n)
  case (Cons f fs)
  let ?key = "migration_key pre f"
  have ap: "is_applied ?key s = (Inr (?key \<in> set t), s)"
    using Cons.prems by (simp add: is_applied_def)
  show ?case
  proof (cases "?key \<in> set t")
    case True
    with Cons.prems ap show ?thesis by (simp add: Cons.IH)
  next
    case False
    with Cons.prems(3) ap obtain body where b: "ml_file L f = Inr body" by (auto simp: Let_def split: sum.splits)
    from False Cons.prems(1,2,3) ap b obtain d where d: "ml_exec L body (mg_schema s) = Inr d"
      by (auto simp: Let_def exec_script_def split: sum.splits prod.splits)
    let ?s = "s\<lparr>mg_schema := d, mg_tracking := Some (t @ [?key])\<rparr>"
    have "apply_files L pre fs (Suc n) ?s = ((k, None), s')"
      using Cons.prems False ap b d by (simp add: Let_def exec_script_def record_applied_def)
    from Cons.IH [OF _ _ this] Cons.prems(1,2) False b d show ?thesis by (auto simp: Let_def)
  qed
qed simp

lemma apply_folders_ok:
  assumes "mg_faults s = []" "mg_tracking s = Some t" "apply_folders L fs n s = ((k, None), s')"
  shows "let ps = pending t (concat (map (folder_plan L) fs)) in
    k = n + length ps \<and> exec_files L ps (mg_schema s) = Some (mg_schema s') \<and>
    s' = s\<lparr>mg_tracking := Some (t @ map fst ps), mg_schema := mg_schema s'\<rparr>"
  using assms
proof (induction fs arbitrary: s t n)
  case (Cons f fs)
  obtain dir pre name where f: "f = (dir, pre, name)" by (cases f)
  from Cons.prems(3) obtain m s1 where one: "apply_folder L dir pre s = ((m, None), s1)"
    and rest: "apply_folders L fs (n + m) s1 = ((k, None), s')"
    by (auto simp: f split: prod.splits option.splits)
  have "let ps = pending t (folder_plan L f) in m = length ps \<and>
      exec_files L ps (mg_schema s) = Some (mg_schema s1) \<and>
      s1 = s\<lparr>mg_tracking := Some (t @ map fst ps), mg_schema := mg_schema s1\<rparr>"
    using one Cons.prems(1,2) apply_files_ok [OF Cons.prems(1,2), of L pre _ 0 m s1]
    by (cases s) (auto simp: apply_folder_def folder_plan_def f Let_def split: if_splits sum.splits prod.splits)
  then obtain ps where ps: "ps = pending t (folder_plan L f)" "m = length ps"
    "exec_files L ps (mg_schema s) = Some (mg_schema s1)"
    "s1 = s\<lparr>mg_tracking := Some (t @ map fst ps), mg_schema := mg_schema s1\<rparr>" by (auto simp: Let_def)
  have s1: "mg_faults s1 = []" "mg_tracking s1 = Some (t @ map fst ps)" using Cons.prems(1) ps(4) by (metis migrate_db.select_convs(1,4) migrate_db.surjective migrate_db.update_convs(1,3))+
  from Cons.IH [OF s1 rest] ps show ?case
    by (cases s; cases s1) (auto simp: Let_def pending_append exec_files_append)
qed simp

definition tracked :: "'d migrate_db \<Rightarrow> string list" where
  "tracked s = (case mg_tracking s of None \<Rightarrow> [] | Some t \<Rightarrow> t)"

lemma up_ok:
  assumes "mg_faults s = []" "up L Q s = ((k, None), s')"
  shows "let ps = pending (tracked s) (migration_plan L Q) in
    k = length ps \<and> exec_files L ps (mg_schema s) = Some (mg_schema s') \<and>
    s' = s\<lparr>mg_tracking := Some (tracked s @ map fst ps), mg_schema := mg_schema s',
           mg_stub := mg_stub s \<or> mo_auth_mode Q = ''supabase''\<rparr>"
proof -
  let ?s = "s\<lparr>mg_tracking := Some (tracked s), mg_stub := mg_stub s \<or> mo_auth_mode Q = ''supabase''\<rparr>"
  have "apply_folders L (folders Q) 0 ?s = ((k, None), s')"
    using assms by (cases s) (auto simp: up_def ensure_tracking_table_def create_auth_users_stub_def tracked_def
      split: if_splits option.splits)
  from apply_folders_ok [OF _ _ this] assms(1) show ?thesis
    by (cases s) (simp add: migration_plan_def Let_def)
qed

lemma pending_done: "(\<forall>p \<in> set ps. fst p \<in> set t) \<Longrightarrow> pending t ps = []"
  by (induction t ps rule: pending.induct) auto

lemma pending_covers: "fst ` set ps \<subseteq> set t \<union> fst ` set (pending t ps)"
  by (induction t ps rule: pending.induct) auto

lemma apply_files_skip:
  assumes "mg_faults s = []" "mg_tracking s = Some t" "\<forall>f \<in> set fs. migration_key pre f \<in> set t"
  shows "apply_files L pre fs n s = ((n, None), s)"
  using assms(3) by (induction fs) (simp_all add: is_applied_def assms(1,2))

lemma apply_folders_skip:
  assumes "mg_faults s = []" "mg_tracking s = Some t" "\<forall>p \<in> set (concat (map (folder_plan L) fs)). fst p \<in> set t"
    and "apply_folders L fs n s0 = ((k, None), s1)"
  shows "apply_folders L fs m s = ((m, None), s)"
  using assms(3,4)
proof (induction fs arbitrary: n s0 m)
  case (Cons f fs)
  obtain dir pre name where f: "f = (dir, pre, name)" by (cases f)
  from Cons.prems(2) obtain j s2 where one: "apply_folder L dir pre s0 = ((j, None), s2)"
    and rest: "apply_folders L fs (n + j) s2 = ((k, None), s1)"
    by (auto simp: f split: prod.splits option.splits)
  have "\<forall>p \<in> set (folder_plan L f). fst p \<in> set t" using Cons.prems(1) by simp
  then have "apply_folder L dir pre s = ((0, None), s)"
    using one apply_files_skip [OF assms(1,2), of _ pre L 0]
    by (auto simp: apply_folder_def folder_plan_def f split: if_splits sum.splits prod.splits)
  with Cons.IH [OF _ rest, of m] Cons.prems(1) show ?case by (simp add: f)
qed simp

text \<open>
  C34. An \<open>Up\<close> that succeeds has executed exactly the scripts not yet recorded, each once, in the order
  of the folders and of their names, and recorded each of them; the next \<open>Up\<close> then applies nothing and
  changes nothing.
\<close>

theorem migrations_applied_once:
  assumes "mg_faults s = []" and "up L Q s = ((k, None), s')"
  shows "exec_files L (pending (tracked s) (migration_plan L Q)) (mg_schema s) = Some (mg_schema s') \<and>
    k = length (pending (tracked s) (migration_plan L Q)) \<and>
    tracked s' = tracked s @ map fst (pending (tracked s) (migration_plan L Q)) \<and>
    up L Q s' = ((0, None), s')"
proof -
  let ?ps = "pending (tracked s) (migration_plan L Q)" and ?stub = "mo_auth_mode Q = ''supabase''"
  from up_ok [OF assms] have k: "k = length ?ps" and ex: "exec_files L ?ps (mg_schema s) = Some (mg_schema s')"
    and s': "s' = s\<lparr>mg_tracking := Some (tracked s @ map fst ?ps), mg_schema := mg_schema s', mg_stub := mg_stub s \<or> ?stub\<rparr>"
    by (simp_all add: Let_def)
  obtain d where "s' = s\<lparr>mg_tracking := Some (tracked s @ map fst ?ps), mg_schema := d, mg_stub := mg_stub s \<or> ?stub\<rparr>"
    using s' by blast
  with assms(1) have fs: "mg_faults s' = []" and tr: "mg_tracking s' = Some (tracked s @ map fst ?ps)"
    and st: "mg_stub s' \<longleftrightarrow> mg_stub s \<or> ?stub" by simp_all
  have cover: "\<forall>p \<in> set (concat (map (folder_plan L) (folders Q))). fst p \<in> set (tracked s @ map fst ?ps)"
    using pending_covers [of "migration_plan L Q" "tracked s"] by (auto simp: migration_plan_def)
  from assms(2) obtain s1 where "apply_folders L (folders Q) 0 s1 = ((k, None), s')"
    by (auto simp: up_def split: sum.splits prod.splits)
  from apply_folders_skip [OF fs tr cover this, of 0] fs tr st
  have "up L Q s' = ((0, None), s')"
    by (cases s') (auto simp: up_def ensure_tracking_table_def create_auth_users_stub_def)
  with k ex tr show ?thesis by (simp add: tracked_def)
qed

text \<open>A database whose schema is the list of the scripts executed.\<close>

definition demo_migrations :: "string list migrate_libs" where
  "demo_migrations = \<lparr>ml_exec = (\<lambda>body log. Inr (log @ [body])),
     ml_dir = (\<lambda>dir. if dir = ''/m'' then Inr [(''002.sql'', False), (''001.sql'', False), (''notes'', False)]
       else if dir = ''/r'' then Inr [(''001.sql'', False)] else Inl (''no such directory'', True)),
     ml_file = Inr\<rparr>"

definition demo_options :: migrate_options where
  "demo_options = \<lparr>mo_core = ''/m'', mo_supabase = ''/s'', mo_rls = ''/r'', mo_auth_mode = ''local'', mo_rls_enabled = True\<rparr>"

definition fresh_database :: "string option list \<Rightarrow> string list migrate_db" where
  "fresh_database fs = \<lparr>mg_tracking = None, mg_stub = False, mg_schema = [], mg_faults = fs\<rparr>"

lemma migrations_applied_once_witness:
  "\<exists>s'. up demo_migrations demo_options (fresh_database []) = ((3, None), s') \<and>
     mg_schema s' = [''/m/001.sql'', ''/m/002.sql'', ''/r/001.sql''] \<and>
     tracked s' = [''001.sql'', ''002.sql'', ''rls/001.sql''] \<and>
     up demo_migrations demo_options s' = ((0, None), s')"
proof -
  let ?s' = "\<lparr>mg_tracking = Some [''001.sql'', ''002.sql'', ''rls/001.sql''], mg_stub = False,
    mg_schema = [''/m/001.sql'', ''/m/002.sql'', ''/r/001.sql''], mg_faults = []\<rparr>"
  have up: "up demo_migrations demo_options (fresh_database []) = ((3, None), ?s')" by code_simp
  have "mg_faults (fresh_database []) = []" by (simp add: fresh_database_def)
  from migrations_applied_once [OF this up] up show ?thesis by (auto simp: tracked_def)
qed

text \<open>
  Executing a script and recording it are two statements: when the second fails, the next \<open>Up\<close>
  executes the script again. And the count of a folder that fails is lost.
\<close>

lemma unrecorded_script_runs_again:
  "mg_schema (snd (up demo_migrations demo_options
     (snd (up demo_migrations demo_options (fresh_database [None, None, None, Some ''lost''])))))
   = [''/m/001.sql'', ''/m/001.sql'', ''/m/002.sql'', ''/r/001.sql'']"
  by code_simp

lemma failed_folder_counts_nothing:
  "\<exists>e. fst (up demo_migrations demo_options (fresh_database [None, None, None, None, Some ''lost''])) = (0, Some e) \<and>
     tracked (snd (up demo_migrations demo_options (fresh_database [None, None, None, None, Some ''lost'']))) = [''001.sql'']"
proof -
  have "snd (fst (up demo_migrations demo_options (fresh_database [None, None, None, None, Some ''lost'']))) \<noteq> None"
    "fst (fst (up demo_migrations demo_options (fresh_database [None, None, None, None, Some ''lost'']))) = 0"
    "tracked (snd (up demo_migrations demo_options (fresh_database [None, None, None, None, Some ''lost'']))) = [''001.sql'']"
    by code_simp+
  then show ?thesis by (metis not_None_eq prod.collapse)
qed

end
