(* ===== verification/Commands.thy ===== *)
theory Commands
  imports Backup Migrate Retention
begin

text \<open>
  \<open>cmd/relic-api\<close>: environment readers, the choice of the auth provider, the bootstrap of the first
  administrator, and the subcommands. A command yields its exit code and what it prints; log lines are
  left out. The clients it shells out to and the calls of the operating system are parameters.
\<close>

section \<open>The environment (\<open>main.go\<close>)\<close>

text \<open>\<open>parse\<close> is \<open>time.ParseDuration\<close>.\<close>

definition duration_env :: "(string \<Rightarrow> int option) \<Rightarrow> process \<Rightarrow> string \<Rightarrow> int \<Rightarrow> int" where
  "duration_env parse P name def =
     (let raw = trim_space (ps_env P name) in
      if raw = [] then def else case parse raw of None \<Rightarrow> def | Some d \<Rightarrow> d)"

definition int_env :: "process \<Rightarrow> string \<Rightarrow> int \<Rightarrow> int" where
  "int_env P name def =
     (let raw = trim_space (ps_env P name) in
      if raw = [] then def
      else case atoi raw of None \<Rightarrow> def | Some n \<Rightarrow> if n \<le> 0 then def else n)"

definition cmd_env_truthy :: "process \<Rightarrow> string \<Rightarrow> bool" where
  "cmd_env_truthy P name = (to_lower (trim_space (ps_env P name)) \<in> {''1'', ''true'', ''yes'', ''on''})"

definition env_or :: "process \<Rightarrow> string \<Rightarrow> string \<Rightarrow> string" where
  "env_or P name def = (let v = trim_space (ps_env P name) in if v \<noteq> [] then v else def)"

definition build_auth_provider :: "(string \<Rightarrow> int option) \<Rightarrow>
    (string \<Rightarrow> string + (string \<Rightarrow> string \<Rightarrow> idp_answer) \<times> (string \<Rightarrow> (string \<times> string) list \<Rightarrow> string)) \<Rightarrow> process \<Rightarrow>
    auth_provider res" where
  "build_auth_provider parse discover P =
     (case parse_mode (trim_space (ps_env P ''RELIC_AUTH_MODE'')) of
        Inl e \<Rightarrow> Inl e
      | Inr ModeLocal \<Rightarrow> map_sum id LocalAuth (new_local_provider (ps_env P ''RELIC_JWT_SECRET'')
          (duration_env parse P ''RELIC_JWT_TTL'' 0) (ps_env P ''RELIC_JWT_ISSUER'') (ps_env P ''RELIC_JWT_AUDIENCE''))
      | Inr ModeSupabase \<Rightarrow> map_sum id SupabaseAuth (new_supabase_provider (ps_env P ''SUPABASE_JWT_SECRET'')
          (ps_env P ''RELIC_JWT_ISSUER'') (ps_env P ''RELIC_JWT_AUDIENCE''))
      | Inr ModeOIDC \<Rightarrow> map_sum id OidcAuth (new_oidc_provider discover
          \<lparr>oc_discovery = ps_env P ''RELIC_OIDC_DISCOVERY_URL'', oc_client_id = ps_env P ''RELIC_OIDC_CLIENT_ID'',
           oc_redirect = ps_env P ''RELIC_OIDC_REDIRECT_URL'', oc_default_org = ps_env P ''RELIC_OIDC_DEFAULT_ORG_ID'',
           oc_default_role = ps_env P ''RELIC_OIDC_DEFAULT_ROLE'', oc_secret = ps_env P ''RELIC_JWT_SECRET'',
           oc_ttl = duration_env parse P ''RELIC_JWT_TTL'' 0\<rparr>))"

text \<open>The settings of the retention worker, none when it is disabled.\<close>

definition retention_settings :: "(string \<Rightarrow> int option) \<Rightarrow> process \<Rightarrow> retention_config option" where
  "retention_settings parse P =
     (if cmd_env_truthy P ''RELIC_RETENTION_DISABLED'' then None
      else Some \<lparr>rc_interval = duration_env parse P ''RELIC_RETENTION_INTERVAL'' default_interval,
        rc_batch_size = int_env P ''RELIC_RETENTION_BATCH'' default_batch_size\<rparr>)"

definition bootstrap_local_admin :: "auth_libs \<Rightarrow> process \<Rightarrow> unit res act" where
  "bootstrap_local_admin J P =
     (let email = to_lower (trim_space (ps_env P ''RELIC_ADMIN_EMAIL'')); password = ps_env P ''RELIC_ADMIN_PASSWORD'' in
      if email = [] \<or> password = [] then State_Monad.return (Inr ())
      else do {
        res \<leftarrow> db_call (count_users_by_provider ''local'');
        case res of
          Inl e \<Rightarrow> State_Monad.return (Inl (ErrWrap ''count local users: '' e []))
        | Inr n \<Rightarrow>
            if n > 0 then State_Monad.return (Inr ())
            else (case hash_password J password of
              Inl e \<Rightarrow> State_Monad.return (Inl (ErrWrap ''hash admin password: '' e []))
            | Inr hash \<Rightarrow> do {
                res \<leftarrow> db_call (create_org (hd (split_n2 (CHR ''@'') email) @ [CHR 0x27] @ ''s Organization'') ''primary'');
                case res of
                  Inl e \<Rightarrow> State_Monad.return (Inl (ErrWrap ''create admin org: '' e []))
                | Inr g \<Rightarrow> do {
                    res \<leftarrow> db_call (create_user_with_password (org_id g) email ''admin'' hash ''local'');
                    State_Monad.return (map_sum (\<lambda>e. ErrWrap ''create admin user: '' e []) (\<lambda>_. ()) res) } }) })"

section \<open>Subcommands (\<open>subcommands.go\<close>)\<close>

definition lines :: "string list \<Rightarrow> string" where
  "lines ls = concat (map (\<lambda>l. l @ newline) ls)"

definition print_usage :: "process \<Rightarrow> outcome" where
  "print_usage P = \<lparr>oc_code = 0, oc_out = [], oc_err = lines
    [''relic-api '' @ ps_build P @ '' ('' @ ps_commit P @ '')'', [], ''Usage:'',
     ''  relic-api                         Start the HTTP server (default).'',
     ''  relic-api migrate up              Apply pending migrations.'',
     ''  relic-api migrate status          List applied migrations + schema version.'',
     ''  relic-api version                 Print build / commit / schema_version.'',
     ''  relic-api backup OUT_FILE         Dump database + S3 manifest to OUT_FILE.tar.gz.'',
     ''  relic-api restore IN_FILE         Restore from a backup produced by '' @ [CHR 0x27] @ ''backup'' @ [CHR 0x27] @ ''.'',
     ''  relic-api reset-password EMAIL    Reset a local-auth user'' @ [CHR 0x27] @ ''s password.'', [], ''Environment:'',
     ''  DATABASE_URL         Postgres connection string (required).'',
     ''  RELIC_AUTH_MODE      local | supabase | oidc (required).'',
     ''  RELIC_RLS_ENABLED    true to apply migrations.rls/.'',
     ''  S3_* / MINIO_ROOT_*  Blob storage credentials (required for serve + backup).'', [],
     ''See RUNNING.md for the full quickstart.'']\<rparr>"

text \<open>The update of \<open>reset-password\<close>; the number of rows is the result.\<close>

definition set_local_password :: "string \<Rightarrow> string \<Rightarrow> nat io" where
  "set_local_password hash email = stmt (\<lambda>s.
     let hit = (\<lambda>u. u_email u = email \<and> u_provider u = ''local'') in
     Inr (length (filter hit (users s)), s\<lparr>users := update_where hit (\<lambda>u. u\<lparr>u_password := Some hash\<rparr>) (users s)\<rparr>))"

text \<open>From the new password on; \<open>prompt\<close> is what was printed before.\<close>

definition reset_local_password :: "auth_libs \<Rightarrow> process \<Rightarrow> string \<Rightarrow> string \<Rightarrow> string \<Rightarrow> outcome act" where
  "reset_local_password J P prompt email pw =
     (let stop = (\<lambda>msg. State_Monad.return (exit_with 1 (prompt @ lines [msg]))) in
      if length pw < 8 then stop ''password must be at least 8 characters''
      else if ps_env P ''DATABASE_URL'' = [] then stop ''DATABASE_URL is required''
      else case ps_connect P (ps_env P ''DATABASE_URL'') of
        Some e \<Rightarrow> stop (''connect db: '' @ e)
      | None \<Rightarrow>
          (case hash_password J pw of
             Inl e \<Rightarrow> stop (''hash password: '' @ error_text e)
           | Inr hash \<Rightarrow> do {
               res \<leftarrow> db_call (set_local_password hash email);
               case res of
                 Inl e \<Rightarrow> stop (''update: '' @ error_text e)
               | Inr n \<Rightarrow>
                   if n = 0 then stop (''no local-auth user with email '' @ go_quote email @
                     '' (auth_provider must be '' @ [CHR 0x27] @ ''local'' @ [CHR 0x27] @ '')'')
                   else State_Monad.return \<lparr>oc_code = 0, oc_out = lines [''Password reset for '' @ email @
                     ''. The user can now sign in with the new password.''], oc_err = prompt\<rparr> }))"

text \<open>\<open>stdin\<close> is \<open>fmt.Scanln\<close>: the word read, or its error.\<close>

definition reset_password_command :: "auth_libs \<Rightarrow> process \<Rightarrow> string + string \<Rightarrow> string list \<Rightarrow> outcome act" where
  "reset_password_command J P stdin args =
     (case args of
        [] \<Rightarrow> State_Monad.return (exit_with 2 (lines [''usage: relic-api reset-password EMAIL [NEW_PASSWORD]'',
          ''  If NEW_PASSWORD is omitted, reads it from stdin.'']))
      | [arg] \<Rightarrow>
          let prompt = ''New password (>=8 chars): '' in
          (case stdin of
             Inl e \<Rightarrow> State_Monad.return (exit_with 1 (prompt @ lines [''read: '' @ e]))
           | Inr l \<Rightarrow> reset_local_password J P prompt (to_lower (trim_space arg)) (trim_space l))
      | arg # pw # _ \<Rightarrow> reset_local_password J P [] (to_lower (trim_space arg)) pw)"

text \<open>\<open>version.SchemaVersion\<close>: any error counts as no version.\<close>

definition schema_version :: "'d migrate_db \<Rightarrow> string \<times> 'd migrate_db" where
  "schema_version s =
     (case mg_stmt (\<lambda>s. (case mg_tracking s of
        None \<Rightarrow> Inl err_no_table
      | Some t \<Rightarrow> Inr (filter (\<lambda>k. \<not> has_prefix k ''rls/'' \<and> \<not> has_prefix k ''supabase/'') t), s)) s of
        (Inl e, s1) \<Rightarrow> ([], s1)
      | (Inr ks, s1) \<Rightarrow> (fold (\<lambda>k best. if string_le k best then best else k) ks [], s1))"

definition version_command :: "process \<Rightarrow> 'd migrate_db \<Rightarrow> outcome \<times> 'd migrate_db" where
  "version_command P s =
     (let out = lines [''build:   '' @ ps_build P, ''commit:  '' @ ps_commit P]; url = ps_env P ''DATABASE_URL'' in
      if url = [] then (finished out, s)
      else case ps_connect P url of
        Some e \<Rightarrow> (\<lparr>oc_code = 0, oc_out = out,
          oc_err = lines [''warn: could not connect to DATABASE_URL: '' @ e]\<rparr>, s)
      | None \<Rightarrow> (case schema_version s of (sv, s1) \<Rightarrow> (finished (out @ lines [''schema:  '' @ sv]), s1)))"

definition migrate_settings :: "process \<Rightarrow> migrate_options" where
  "migrate_settings P =
     \<lparr>mo_core = env_or P ''RELIC_MIGRATIONS_DIR'' ''/migrations'',
      mo_supabase = env_or P ''RELIC_MIGRATIONS_SUPABASE_DIR'' ''/migrations.supabase'',
      mo_rls = env_or P ''RELIC_MIGRATIONS_RLS_DIR'' ''/migrations.rls'',
      mo_auth_mode = trim_space (ps_env P ''RELIC_AUTH_MODE''),
      mo_rls_enabled = equal_fold (ps_env P ''RELIC_RLS_ENABLED'') ''true''\<rparr>"

definition migrate_command :: "'d migrate_libs \<Rightarrow> process \<Rightarrow> string list \<Rightarrow> 'd migrate_db \<Rightarrow> outcome \<times> 'd migrate_db" where
  "migrate_command L P args s =
     (case args of
        [] \<Rightarrow> (exit_with 2 (lines [''usage: relic-api migrate {up|status}'']), s)
      | verb # _ \<Rightarrow>
          if ps_env P ''DATABASE_URL'' = [] then (exit_with 1 (lines [''DATABASE_URL is required'']), s)
          else case ps_connect P (ps_env P ''DATABASE_URL'') of
            Some e \<Rightarrow> (exit_with 1 (lines [''connect db: '' @ e]), s)
          | None \<Rightarrow>
              if verb = ''up'' then
                (case up L (migrate_settings P) s of
                   ((n, Some e), s1) \<Rightarrow> (exit_with 1 (lines [''migrate up: '' @ error_text e]), s1)
                 | ((n, None), s1) \<Rightarrow> (finished (lines [''Applied '' @ show_nat n @ '' migration(s).'']), s1))
              else if verb = ''status'' then
                (case migrate_status s of
                   (Inl e, s1) \<Rightarrow> (exit_with 1 (lines [''migrate status: '' @ error_text e]), s1)
                 | (Inr fs, s1) \<Rightarrow>
                     if fs = [] then (finished (lines [''(no migrations applied)'']), s1)
                     else (case schema_version s1 of (sv, s2) \<Rightarrow>
                       (finished (lines fs @ lines [[], ''schema_version: '' @ sv]), s2)))
              else (exit_with 2 (lines [''unknown migrate subcommand '' @ go_quote verb]), s))"

section \<open>Evidence packs (\<open>evidence.go\<close>)\<close>

record pack_options =
  po_org :: string
  po_framework :: string
  po_period :: string
  po_start :: string
  po_end :: string
  po_sign_with :: string
  po_out :: string
  po_mappings :: string

text \<open>One argument; an unknown one is ignored.\<close>

definition pack_option :: "string \<Rightarrow> pack_options \<Rightarrow> pack_options" where
  "pack_option a q =
     (if has_prefix a ''--org='' then q\<lparr>po_org := trim_prefix a ''--org=''\<rparr>
      else if has_prefix a ''--framework='' then q\<lparr>po_framework := trim_prefix a ''--framework=''\<rparr>
      else if has_prefix a ''--period='' then q\<lparr>po_period := trim_prefix a ''--period=''\<rparr>
      else if has_prefix a ''--start='' then q\<lparr>po_start := trim_prefix a ''--start=''\<rparr>
      else if has_prefix a ''--end='' then q\<lparr>po_end := trim_prefix a ''--end=''\<rparr>
      else if has_prefix a ''--sign-with='' then q\<lparr>po_sign_with := trim_prefix a ''--sign-with=''\<rparr>
      else if has_prefix a ''--out='' then q\<lparr>po_out := trim_prefix a ''--out=''\<rparr>
      else if has_prefix a ''--mappings-dir='' then q\<lparr>po_mappings := trim_prefix a ''--mappings-dir=''\<rparr>
      else q)"

text \<open>\<open>None\<close>: help was asked for.\<close>

fun pack_args :: "string list \<Rightarrow> pack_options \<Rightarrow> pack_options option" where
  "pack_args [] q = Some q"
| "pack_args (a # args) q = (if a = ''-h'' \<or> a = ''--help'' then None else pack_args args (pack_option a q))"

definition evidence_pack_usage :: string where
  "evidence_pack_usage = lines
     [''usage: relic-api evidence-pack '' @ [CHR 0x5C], ''  --org=<org-id> --framework=soc2-cc '' @ [CHR 0x5C],
      ''  --period=Q3-2026 '' @ [CHR 0x5C], ''  --start=YYYY-MM-DD --end=YYYY-MM-DD '' @ [CHR 0x5C],
      ''  [--sign-with=hmac]            (gpg coming; hmac is the v0 default)'',
      ''  [--mappings-dir=internal/compliance/mappings]'', ''  --out=<file.tar.gz>'', [],
      ''Reads RELIC_EVIDENCE_KEY (or RELIC_JWT_SECRET as fallback) for the HMAC'',
      ''signer. Writes a signed tarball you can hand to an auditor.'', [], ''Verify a pack with:'',
      ''  relic-api evidence-verify <file.tar.gz>'']"

text \<open>\<open>date\<close> parses \<open>2006-01-02\<close>, \<open>rfc\<close> parses RFC 3339.\<close>

definition parse_day :: "(string \<Rightarrow> int option) \<Rightarrow> (string \<Rightarrow> int option) \<Rightarrow> string \<Rightarrow> int res" where
  "parse_day date rfc s = (case date s of
     Some t \<Rightarrow> Inr t
   | None \<Rightarrow> (case rfc s of
       Some t \<Rightarrow> Inr t
     | None \<Rightarrow> Inl (ErrText (''expected YYYY-MM-DD or RFC3339, got '' @ go_quote s))))"

definition build_signer :: "hmac_fun \<Rightarrow> (string \<Rightarrow> string) \<Rightarrow> process \<Rightarrow> string \<Rightarrow> signer res" where
  "build_signer H hex_error P kind =
     (if kind = ''hmac'' \<or> kind = [] then
        (let own = trim_space (ps_env P ''RELIC_EVIDENCE_KEY'');
             key = (if own = [] then trim_space (ps_env P ''RELIC_JWT_SECRET'') else own) in
         if key = [] then Inl (ErrText ''RELIC_EVIDENCE_KEY (or RELIC_JWT_SECRET) required for hmac signer'')
         else new_hmac_signer H hex_error key)
      else if kind = ''gpg'' then
        Inl (ErrText ''--sign-with=gpg not yet supported (v1 enhancement; tracked in build plan WS-3B)'')
      else Inl (ErrText (''unknown --sign-with='' @ go_quote kind @ '' (expected: hmac | gpg)'')))"

text \<open>The outcome, and the output file with the entries of its archive.\<close>

definition evidence_pack_command :: "server \<Rightarrow> hmac_fun \<Rightarrow> (string \<Rightarrow> string) \<Rightarrow> (string \<Rightarrow> int option) \<Rightarrow> process \<Rightarrow>
    string option list \<Rightarrow> string list \<Rightarrow> (outcome \<times> (string \<times> tar_entry list) option) act" where
  "evidence_pack_command S H hex_error date P fs args =
     (let stop = (\<lambda>n msg. State_Monad.return (exit_with n msg, None));
          day = parse_day date (parse_rfc3339 (sv_trace S)) in
      case pack_args args \<lparr>po_org = [], po_framework = [], po_period = [], po_start = [], po_end = [], po_sign_with = [],
          po_out = [], po_mappings = []\<rparr> of
        None \<Rightarrow> State_Monad.return (finished evidence_pack_usage, None)
      | Some q \<Rightarrow>
          if po_org q = [] \<or> po_framework q = [] \<or> po_period q = [] \<or> po_start q = [] \<or> po_end q = [] \<or> po_out q = []
          then stop 2 evidence_pack_usage
          else (case day (po_start q) of
            Inl e \<Rightarrow> stop 2 (lines [''bad --start: '' @ error_text e])
          | Inr start \<Rightarrow> (case day (po_end q) of
              Inl e \<Rightarrow> stop 2 (lines [''bad --end: '' @ error_text e])
            | Inr end_day \<Rightarrow>
                let url = ps_env P ''DATABASE_URL'' in
                if url = [] then stop 1 (lines [''DATABASE_URL required''])
                else (case ps_connect P url of
                  Some e \<Rightarrow> stop 1 (lines [''db: '' @ e])
                | None \<Rightarrow> (case build_signer H hex_error P (if po_sign_with q = [] then ''hmac'' else po_sign_with q) of
                    Inl e \<Rightarrow> stop 1 (lines [''signer: '' @ error_text e])
                  | Inr sg \<Rightarrow> (case ps_create P (po_out q) of
                      Some e \<Rightarrow> stop 1 (lines [''create '' @ po_out q @ '': '' @ e])
                    | None \<Rightarrow> do {
                        r \<leftarrow> build_pack S (ps_file P) fs
                          \<lparr>pq_org = po_org q, pq_framework = po_framework q, pq_period = po_period q, pq_start = start,
                           pq_end = end_day, pq_generator = ''relic-api '' @ ps_build P,
                           pq_mappings_dir = (if po_mappings q = [] then ''internal/compliance/mappings'' else po_mappings q),
                           pq_signer = Some sg\<rparr>;
                        State_Monad.return (case fst r of
                          Inl e \<Rightarrow> (exit_with 1 (lines [''build pack: '' @ error_text e]), Some (po_out q, snd r))
                        | Inr m \<Rightarrow> (finished (lines
                            [''Evidence pack written: '' @ ps_abs P (po_out q),
                             ''  framework:    '' @ po_framework q @ '' (period: '' @ po_period q @ '')'',
                             ''  audit events: '' @ show_int (mf_audit_events m), ''  runs:         '' @ show_int (mf_runs m),
                             ''  signature:    '' @ mf_kind m @ '' (key id: '' @ mf_key_id m @ '')'']),
                            Some (po_out q, snd r))) }))))))"

definition middle_dot :: string where
  "middle_dot = [CHR 0xC2, CHR 0xB7]"

definition evidence_verify_command :: "time_libs \<Rightarrow> archive_libs \<Rightarrow> (string \<Rightarrow> string) \<Rightarrow> hmac_fun \<Rightarrow> (string \<Rightarrow> string) \<Rightarrow>
    process \<Rightarrow> string list \<Rightarrow> outcome" where
  "evidence_verify_command T A json_error H hex_error P args =
     (case args of
        [] \<Rightarrow> exit_with 2 (lines [''usage: relic-api evidence-verify <pack.tar.gz>''])
      | path # _ \<Rightarrow>
          (case ps_file P path of
             Inl e \<Rightarrow> exit_with 1 (lines [''open '' @ path @ '': '' @ e])
           | Inr raw \<Rightarrow>
               (case build_signer H hex_error P ''hmac'' of
                  Inl e \<Rightarrow> exit_with 1 (lines [''signer: '' @ error_text e])
                | Inr sg \<Rightarrow>
                    (case verify_pack T A json_error raw sg of
                       Inl e \<Rightarrow> exit_with 1 (lines [''FAILED '' @ middle_dot @ '' '' @ error_text e])
                     | Inr m \<Rightarrow> finished (lines [''VERIFIED '' @ middle_dot @ '' framework='' @ mf_framework m @ '' '' @ middle_dot @
                         '' period='' @ mf_period m @ '' '' @ middle_dot @ '' '' @ show_int (mf_audit_events m) @ '' audit events '' @
                         middle_dot @ '' '' @ show_int (mf_runs m) @ '' runs '' @ middle_dot @ '' sig='' @ mf_kind m @ '' key='' @
                         mf_key_id m])))))"

section \<open>Dispatch\<close>

datatype subcommand = Serve | Migrate "string list" | PrintVersion | BackupCmd "string list" | RestoreCmd "string list"
  | ResetPassword "string list" | EvidencePack "string list" | EvidenceVerify "string list" | Usage

text \<open>\<open>args\<close> are those after the program's name; an unknown first one starts the server.\<close>

definition dispatch :: "string list \<Rightarrow> subcommand" where
  "dispatch args = (case args of
     [] \<Rightarrow> Serve
   | a # rest \<Rightarrow>
       if a = ''migrate'' then Migrate rest
       else if a = ''version'' then PrintVersion
       else if a = ''backup'' then BackupCmd rest
       else if a = ''restore'' then RestoreCmd rest
       else if a = ''reset-password'' then ResetPassword rest
       else if a = ''evidence-pack'' then EvidencePack rest
       else if a = ''evidence-verify'' then EvidenceVerify rest
       else if a = ''-h'' \<or> a = ''--help'' \<or> a = ''help'' then Usage
       else Serve)"

section \<open>What is relied on\<close>

text \<open>
  The bootstrap is not one transaction: when the administrator's row is refused after the organization
  was created, every later boot fails on the organization's slug. Here an account of another provider
  has the e-mail address.
\<close>

definition boot_process :: process where
  "boot_process = (demo_process [])\<lparr>ps_env := (\<lambda>n. if n = ''RELIC_ADMIN_EMAIL'' then ''root@x.y''
     else if n = ''RELIC_ADMIN_PASSWORD'' then ''password1'' else [])\<rparr>"

definition boot_world :: world where
  "boot_world = demo_world\<lparr>w_db := demo_db\<lparr>users := [\<lparr>u_id = ''u1'', u_org = ''a'', u_email = ''root@x.y'', u_role = ''admin'',
     u_created_at = 0, u_password = None, u_provider = ''supabase''\<rparr>]\<rparr>\<rparr>"

end
