(* ===== verification/Observe.thy ===== *)
theory Observe
  imports Commands
begin

text \<open>
  What the server tells about itself: the Prometheus collectors (\<open>internal/metrics\<close>), the daily opt-in
  ping (\<open>internal/telemetry\<close>), the OpenTelemetry set-up (\<open>internal/observability\<close>) and the events it
  records (\<open>internal/integrations/otel\<close>). The Prometheus and OpenTelemetry libraries are represented by
  what they are handed.
\<close>

section \<open>Metrics\<close>

record db_pool_stats =
  dp_acquired :: int
  dp_idle :: int
  dp_max :: int

text \<open>
  The counter and histogram vectors by label values (the histogram keeps its observations, in
  nanoseconds), and what the two provider closures yield at a scrape, unset at first.
\<close>

record metrics =
  mx_requests :: "string \<times> string \<times> string \<Rightarrow> nat"
  mx_durations :: "string \<times> string \<Rightarrow> int list"
  mx_retention :: "retention_stats option"
  mx_pool :: "db_pool_stats option"

definition new_metrics :: metrics where
  "new_metrics = \<lparr>mx_requests = (\<lambda>_. 0), mx_durations = (\<lambda>_. []), mx_retention = None, mx_pool = None\<rparr>"

definition set_retention_provider :: "retention_stats \<Rightarrow> metrics \<Rightarrow> metrics" where
  "set_retention_provider st m = m\<lparr>mx_retention := Some st\<rparr>"

definition set_db_pool_provider :: "db_pool_stats \<Rightarrow> metrics \<Rightarrow> metrics" where
  "set_db_pool_provider st m = m\<lparr>mx_pool := Some st\<rparr>"

definition observe_request :: "string \<Rightarrow> string \<Rightarrow> nat \<Rightarrow> int \<Rightarrow> metrics \<Rightarrow> metrics" where
  "observe_request meth route status dur m =
     (let m1 = m\<lparr>mx_requests := (mx_requests m)((meth, route, show_nat status) :=
                mx_requests m (meth, route, show_nat status) + 1)\<rparr>
      in m1\<lparr>mx_durations := (mx_durations m1)((meth, route) := mx_durations m1 (meth, route) @ [dur])\<rparr>)"

definition retention_sweeps_value :: "metrics \<Rightarrow> rat" where
  "retention_sweeps_value m = (case mx_retention m of None \<Rightarrow> 0 | Some st \<Rightarrow> of_int (rs_sweeps st))"

definition retention_deleted_value :: "metrics \<Rightarrow> rat" where
  "retention_deleted_value m = (case mx_retention m of None \<Rightarrow> 0 | Some st \<Rightarrow> of_int (rs_rows st))"

definition retention_s3_failures_value :: "metrics \<Rightarrow> rat" where
  "retention_s3_failures_value m = (case mx_retention m of None \<Rightarrow> 0 | Some st \<Rightarrow> of_int (rs_s3_failures st))"

definition retention_last_run_value :: "metrics \<Rightarrow> rat" where
  "retention_last_run_value m = (case mx_retention m of
     None \<Rightarrow> 0 | Some st \<Rightarrow> (case rs_last_run st of None \<Rightarrow> 0 | Some t \<Rightarrow> of_int t))"

definition db_pool_stats_now :: "metrics \<Rightarrow> db_pool_stats" where
  "db_pool_stats_now m = (case mx_pool m of None \<Rightarrow> \<lparr>dp_acquired = 0, dp_idle = 0, dp_max = 0\<rparr> | Some st \<Rightarrow> st)"

definition metric_name :: "string \<Rightarrow> string" where
  "metric_name n = ''relic_api_'' @ n"

text \<open>The gauges of a scrape.\<close>

definition retention_gauges :: "metrics \<Rightarrow> (string \<times> rat) list" where
  "retention_gauges m =
     [(metric_name ''retention_sweeps_completed'', retention_sweeps_value m),
      (metric_name ''retention_rows_deleted_total'', retention_deleted_value m),
      (metric_name ''retention_s3_failures_total'', retention_s3_failures_value m),
      (metric_name ''retention_last_run_timestamp_seconds'', retention_last_run_value m)]"

definition pool_gauges :: "metrics \<Rightarrow> (string \<times> rat) list" where
  "pool_gauges m =
     [(metric_name ''db_pool_connections_acquired'', of_int (dp_acquired (db_pool_stats_now m))),
      (metric_name ''db_pool_connections_idle'', of_int (dp_idle (db_pool_stats_now m))),
      (metric_name ''db_pool_connections_max'', of_int (dp_max (db_pool_stats_now m)))]"

text \<open>Upper bounds in seconds, and the cumulative count of a bucket.\<close>

definition duration_buckets :: "rat list" where
  "duration_buckets = [1/200, 1/100, 1/40, 1/20, 1/10, 1/4, 1/2, 1, 5/2, 5, 10]"

definition bucket_count :: "string \<times> string \<Rightarrow> rat \<Rightarrow> metrics \<Rightarrow> nat" where
  "bucket_count ls le m = length (filter (\<lambda>d. of_int d / 1000000000 \<le> le) (mx_durations m ls))"

section \<open>Telemetry\<close>

record reporter =
  rp_url :: string
  rp_enabled :: bool
  rp_build :: string
  rp_commit :: string
  rp_mode :: string

definition is_opted_in :: "string \<Rightarrow> bool" where
  "is_opted_in v \<longleftrightarrow> to_lower (trim_space v) \<in> {''1'', ''true'', ''yes'', ''on''}"

definition new_reporter :: "process \<Rightarrow> string \<Rightarrow> reporter \<times> bool" where
  "new_reporter P mode =
     (let optedIn = is_opted_in (ps_env P ''RELIC_TELEMETRY''); url = trim_space (ps_env P ''RELIC_TELEMETRY_URL'');
          enabled = (optedIn \<and> url \<noteq> [])
      in (\<lparr>rp_url = url, rp_enabled = enabled, rp_build = ps_build P, rp_commit = ps_commit P, rp_mode = mode\<rparr>, enabled))"

definition bucket_of :: "int \<Rightarrow> string" where
  "bucket_of n =
     (if n \<le> 0 then ''0'' else if n \<le> 10 then ''1-10'' else if n \<le> 100 then ''11-100''
      else if n \<le> 1000 then ''101-1000'' else ''1000+'')"

text \<open>A failed query counts as zero.\<close>

definition count_rows :: "(db \<Rightarrow> 'a list) \<Rightarrow> int act" where
  "count_rows table = do {
     res \<leftarrow> db_call (select (\<lambda>s. int (length (table s))));
     State_Monad.return (case res of Inl e \<Rightarrow> 0 | Inr n \<Rightarrow> n) }"

definition ping_payload :: "reporter \<Rightarrow> string \<Rightarrow> string \<Rightarrow> string \<Rightarrow> bool \<Rightarrow> string" where
  "ping_payload rp us as rs gov =
     ''{'' @ join_with '','' [member_text ''build'' (rp_build rp), member_text ''commit'' (rp_commit rp),
       member_text ''auth_mode'' (rp_mode rp), member_text ''users_bucket'' us, member_text ''agents_bucket'' as,
       member_text ''runs_bucket'' rs, json_string ''governance_enabled'' @ '':'' @ (if gov then ''true'' else ''false'')] @ ''}''"

text \<open>The body posted to the reporter's URL; what comes back is only logged.\<close>

definition ping :: "process \<Rightarrow> reporter \<Rightarrow> string act" where
  "ping P rp = do {
     us \<leftarrow> count_rows users;
     as \<leftarrow> count_rows agents;
     rs \<leftarrow> count_rows runs;
     State_Monad.return (ping_payload rp (bucket_of us) (bucket_of as) (bucket_of rs)
       (is_opted_in (ps_env P ''RELIC_GOVERNANCE_ENABLED''))) }"

text \<open>One ping at once, then one per tick until the context ends.\<close>

fun ping_ticks :: "process \<Rightarrow> reporter \<Rightarrow> nat \<Rightarrow> string list act" where
  "ping_ticks P rp 0 = State_Monad.return []"
| "ping_ticks P rp (Suc n) = do { b \<leftarrow> ping P rp; bs \<leftarrow> ping_ticks P rp n; State_Monad.return (b # bs) }"

definition reporter_run :: "process \<Rightarrow> reporter \<Rightarrow> nat \<Rightarrow> string list act" where
  "reporter_run P rp ticks =
     (if \<not> rp_enabled rp then State_Monad.return []
      else do { b \<leftarrow> ping P rp; bs \<leftarrow> ping_ticks P rp ticks; State_Monad.return (b # bs) })"

section \<open>OpenTelemetry set-up\<close>

record otel_config =
  ot_enabled :: bool
  ot_endpoint :: string
  ot_auth_header :: string
  ot_service :: string
  ot_attributes :: string

definition otel_config_from_env :: "process \<Rightarrow> otel_config" where
  "otel_config_from_env P =
     (let service = trim_space (ps_env P ''RELIC_OTEL_SERVICE_NAME''); endpoint = trim_space (ps_env P ''RELIC_OTEL_ENDPOINT'')
      in \<lparr>ot_enabled = (if endpoint = [] then False else equal_fold (trim_space (ps_env P ''RELIC_OTEL_ENABLED'')) ''true''),
          ot_endpoint = endpoint, ot_auth_header = trim_space (ps_env P ''RELIC_OTEL_AUTH_HEADER''),
          ot_service = (if service = [] then ''relic-api'' else service),
          ot_attributes = trim_space (ps_env P ''RELIC_OTEL_RESOURCE_ATTRIBUTES'')\<rparr>)"

text \<open>\<open>strings.Cut\<close> at a character.\<close>

definition cut_char :: "char \<Rightarrow> string \<Rightarrow> (string \<times> string) option" where
  "cut_char c s = (case split_n2 c s of [k, v] \<Rightarrow> Some (k, v) | _ \<Rightarrow> None)"

definition split_header :: "string \<Rightarrow> (string \<times> string) option" where
  "split_header s =
     (case cut_char (CHR '':'') s of
        None \<Rightarrow> None
      | Some (k, v) \<Rightarrow> if trim_space k = [] \<or> trim_space v = [] then None else Some (trim_space k, trim_space v))"

definition strip_scheme :: "string \<Rightarrow> string" where
  "strip_scheme u = trim_prefix (trim_prefix u ''https://'') ''http://''"

definition resource_attributes :: "otel_config \<Rightarrow> (string \<times> string) list" where
  "resource_attributes cfg = (''service.name'', ot_service cfg) #
     List.map_filter (\<lambda>p. case cut_char (CHR ''='') p of
         None \<Rightarrow> None | Some (k, v) \<Rightarrow> if k = [] then None else Some (trim_space k, trim_space v))
       (split_on (CHR '','') (ot_attributes cfg))"

text \<open>
  The SDK: what each constructor answers (\<open>None\<close>: no error) and what flushing each provider answers.
\<close>

record otel_sdk =
  os_resource :: "(string \<times> string) list \<Rightarrow> string option"
  os_traces :: "string \<Rightarrow> (string \<times> string) list \<Rightarrow> string option"
  os_metrics :: "string \<Rightarrow> (string \<times> string) list \<Rightarrow> string option"
  os_flush_traces :: "string option"
  os_flush_metrics :: "string option"

definition otel_shutdown :: "otel_sdk \<Rightarrow> string option" where
  "otel_shutdown K = (if os_flush_traces K \<noteq> None then os_flush_traces K else os_flush_metrics K)"

text \<open>The error of the set-up, or what its \<open>Shutdown\<close> will return.\<close>

definition otel_setup :: "otel_sdk \<Rightarrow> otel_config \<Rightarrow> string option res" where
  "otel_setup K cfg =
     (if \<not> ot_enabled cfg then Inr None
      else case os_resource K (resource_attributes cfg) of
        Some e \<Rightarrow> Inl (ErrWrap ''otel resource: '' (ErrText e) [])
      | None \<Rightarrow>
          let hdrs = (case split_header (ot_auth_header cfg) of None \<Rightarrow> [] | Some kv \<Rightarrow> [kv]);
              host = strip_scheme (ot_endpoint cfg)
          in (case os_traces K host hdrs of
                Some e \<Rightarrow> Inl (ErrWrap ''otlptrace: '' (ErrText e) [])
              | None \<Rightarrow> (case os_metrics K host hdrs of
                  Some e \<Rightarrow> Inl (ErrWrap ''otlpmetric: '' (ErrText e) [])
                | None \<Rightarrow> Inr (otel_shutdown K))))"

section \<open>Emitted events\<close>

text \<open>The spans started and ended, and the additions to each counter, oldest first.\<close>

record otel_events =
  oe_spans :: "(string \<times> (string \<times> json) list) list"
  oe_counts :: "(string \<times> int \<times> (string \<times> string) list) list"

definition emit :: "string \<Rightarrow> (string \<times> json) list \<Rightarrow> string \<Rightarrow> int \<Rightarrow> (string \<times> string) list \<Rightarrow> otel_events \<Rightarrow> otel_events" where
  "emit name attrs counter n tags s =
     s\<lparr>oe_spans := oe_spans s @ [(name, attrs)], oe_counts := oe_counts s @ [(counter, n, tags)]\<rparr>"

definition emit_policy_decision :: "string \<Rightarrow> string \<Rightarrow> string \<Rightarrow> string \<Rightarrow> otel_events \<Rightarrow> otel_events" where
  "emit_policy_decision org ag tool decision =
     emit ''policy.evaluate'' [(''org_id'', JStr org), (''agent_name'', JStr ag), (''tool'', JStr tool), (''decision'', JStr decision)]
       ''relic_policy_decisions_total'' 1 [(''decision'', decision), (''org'', org)]"

definition emit_trace_ingest :: "string \<Rightarrow> string \<Rightarrow> int \<Rightarrow> int \<Rightarrow> otel_events \<Rightarrow> otel_events" where
  "emit_trace_ingest org ag n ms =
     emit ''trace.ingest'' [(''org_id'', JStr org), (''agent_name'', JStr ag), (''event_count'', JInt n), (''duration_ms'', JInt ms)]
       ''relic_trace_events_ingested_total'' n [(''org'', org)]"

definition emit_auth_login :: "string \<Rightarrow> string \<Rightarrow> string \<Rightarrow> bool \<Rightarrow> otel_events \<Rightarrow> otel_events" where
  "emit_auth_login org user provider success =
     (let result = (if success then ''success'' else ''failure'') in
      emit ''auth.login'' [(''org_id'', JStr org), (''user_id'', JStr user), (''provider'', JStr provider), (''result'', JStr result)]
        ''relic_auth_login_total'' 1 [(''provider'', provider), (''result'', result)])"

section \<open>What leaves the deployment\<close>

definition all_buckets :: "string list" where
  "all_buckets = [''0'', ''1-10'', ''11-100'', ''101-1000'', ''1000+'']"

text \<open>Every body a reporter can send.\<close>

definition possible_pings :: "reporter \<Rightarrow> string list" where
  "possible_pings rp = [ping_payload rp us as rs gov. us \<leftarrow> all_buckets, as \<leftarrow> all_buckets, rs \<leftarrow> all_buckets, gov \<leftarrow> [False, True]]"

lemma bucket_of_listed: "bucket_of n \<in> set all_buckets"
  by (simp add: bucket_of_def all_buckets_def)

lemma possible_pings_iff: "x \<in> set (possible_pings rp) \<longleftrightarrow> (\<exists>us as rs gov. us \<in> set all_buckets \<and>
    as \<in> set all_buckets \<and> rs \<in> set all_buckets \<and> x = ping_payload rp us as rs gov)"
  by (auto simp: possible_pings_def Bex_def) (metis (full_types))

lemma ping_possible: "run_state (ping P rp) w = (b, w') \<Longrightarrow> b \<in> set (possible_pings rp)"
  unfolding possible_pings_iff using bucket_of_listed
  by (auto simp: ping_def split: prod.splits)

lemma pings_possible: "run_state (ping_ticks P rp n) w = (bs, w') \<Longrightarrow> x \<in> set bs \<Longrightarrow> x \<in> set (possible_pings rp)"
proof (induction n arbitrary: w bs w')
  case (Suc n)
  then show ?case by (auto split: prod.splits dest: ping_possible)
qed simp

lemma run_possible: "run_state (reporter_run P rp n) w = (bs, w') \<Longrightarrow> rp_enabled rp \<or> bs = []"
  "run_state (reporter_run P rp n) w = (bs, w') \<Longrightarrow> x \<in> set bs \<Longrightarrow> x \<in> set (possible_pings rp)"
  by (auto simp: reporter_run_def split: prod.splits if_splits dest: ping_possible pings_possible)

lemma length_possible_pings: "length (possible_pings rp) = 250"
  by (simp add: possible_pings_def all_buckets_def)

text \<open>
  C38. What telemetry can reveal: whatever is stored, every body a reporter ever posts is one of the 250
  made of its build, commit, mode, three of five buckets and a flag; and a reporter built from an
  environment without the opt-in or without a destination posts nothing.
\<close>

theorem telemetry_reveals_only_buckets:
  "set (fst (run_state (reporter_run P (fst (new_reporter P mode)) ticks) w)) \<subseteq>
     (if is_opted_in (ps_env P ''RELIC_TELEMETRY'')
      then if trim_space (ps_env P ''RELIC_TELEMETRY_URL'') = [] then {}
           else set (possible_pings (fst (new_reporter P mode))) else {})"
proof (cases "run_state (reporter_run P (fst (new_reporter P mode)) ticks) w")
  case (Pair bs w')
  then show ?thesis using run_possible [OF Pair] by (auto simp: new_reporter_def Let_def)
qed

text \<open>A scrape sees each observed request exactly once under its labels.\<close>

lemma observed_once:
  "mx_requests (observe_request meth route status dur m) ls =
    mx_requests m ls + (if ls = (meth, route, show_nat status) then 1 else 0)"
  "length (mx_durations (observe_request meth route status dur m) dl) =
    length (mx_durations m dl) + (if dl = (meth, route) then 1 else 0)"
  by (auto simp: observe_request_def Let_def)

text \<open>Observability is inert without an endpoint, whatever else is set.\<close>

lemma otel_needs_endpoint:
  "trim_space (ps_env P ''RELIC_OTEL_ENDPOINT'') = [] \<Longrightarrow> otel_setup K (otel_config_from_env P) = Inr None"
  by (simp add: otel_config_from_env_def otel_setup_def Let_def)

end
