(* ===== verification/Gateway.thy ===== *)
theory Gateway
  imports Simulate_Runner Server_Props Observe
begin

text \<open>
  \<open>Router()\<close> of \<open>internal/api/server.go\<close> from the socket to the handler: the table of routes, the public
  and the protected endpoints, the stack of middlewares in its order, and the state all requests share.
  chi, its middlewares, \<open>go-chi/cors\<close> and promhttp are parameters; what the theorems rely on of them is a
  hypothesis there. An answer that streams stands for its head and opening bytes; its subscriber stays
  in the hub.
\<close>

section \<open>Endpoints\<close>

datatype endpoint =
    Health | Readyz | MetricsPage | VersionInfo | AuthLogin | OIDCLogin | OIDCCallback | OIDCLogout
  | Guarded route
  | SearchRegistry | PublishListing | UpdateListing | DeleteListing | GetTrustScore
  | ListTransactions | TransactionSummary | GetTransaction
  | SimulatePolicy | GetSimulateJob | OrgLive | AgentPolicyUpdates

definition is_public :: "endpoint \<Rightarrow> bool" where
  "is_public e \<longleftrightarrow> e \<in> {Health, Readyz, MetricsPage, VersionInfo, AuthLogin, OIDCLogin, OIDCCallback, OIDCLogout}"

text \<open>\<open>*\<close> is any method.\<close>

definition public_routes :: "auth_mode \<Rightarrow> ((string \<times> string) \<times> endpoint) list" where
  "public_routes mode =
     [((''GET'', ''/health''), Health), ((''GET'', ''/readyz''), Readyz), ((''*'', ''/metrics''), MetricsPage),
      ((''GET'', ''/v1/version''), VersionInfo)] @
     (if mode = ModeLocal then [((''POST'', ''/v1/auth/login''), AuthLogin)] else []) @
     (if mode = ModeOIDC then [((''GET'', ''/v1/auth/oidc/login''), OIDCLogin),
        ((''GET'', ''/v1/auth/oidc/callback''), OIDCCallback), ((''POST'', ''/v1/auth/oidc/logout''), OIDCLogout)] else [])"

definition guarded_routes :: "((string \<times> string) \<times> endpoint) list" where
  "guarded_routes =
     [((''POST'', ''/v1/onboard''), Guarded Onboard),
      ((''POST'', ''/v1/traces''), Guarded UploadTrace),
      ((''GET'', ''/v1/traces''), Guarded ListTraces),
      ((''GET'', ''/v1/traces/{runID}''), Guarded GetTrace),
      ((''GET'', ''/v1/traces/{runID}/events''), Guarded GetTraceEvents),
      ((''DELETE'', ''/v1/traces/{runID}''), Guarded DeleteTrace),
      ((''POST'', ''/v1/agents''), Guarded RegisterAgent),
      ((''GET'', ''/v1/agents''), Guarded ListAgents),
      ((''GET'', ''/v1/agents/{name}''), Guarded GetAgent),
      ((''GET'', ''/v1/agents/{name}/baseline''), Guarded GetAgentBaseline),
      ((''GET'', ''/v1/agents/{name}/policy''), Guarded GetAgentPolicy),
      ((''PUT'', ''/v1/agents/{name}/policy''), Guarded UpdateAgentPolicy),
      ((''POST'', ''/v1/orgs''), Guarded CreateOrg),
      ((''GET'', ''/v1/orgs/{orgID}''), Guarded GetOrg),
      ((''POST'', ''/v1/orgs/{orgID}/api-keys''), Guarded CreateAPIKey),
      ((''DELETE'', ''/v1/orgs/{orgID}/api-keys/{keyID}''), Guarded RevokeAPIKey),
      ((''GET'', ''/v1/orgs/{orgID}/identity/sso''), Guarded GetSSO),
      ((''PUT'', ''/v1/orgs/{orgID}/identity/sso''), Guarded PutSSO),
      ((''GET'', ''/v1/orgs/{orgID}/identity/scim-tokens''), Guarded ListSCIMTokens),
      ((''POST'', ''/v1/orgs/{orgID}/identity/scim-tokens''), Guarded CreateSCIMToken),
      ((''DELETE'', ''/v1/orgs/{orgID}/identity/scim-tokens/{tokenID}''), Guarded RevokeSCIMToken),
      ((''GET'', ''/v1/orgs/{orgID}/identity/invites''), Guarded ListInvites),
      ((''POST'', ''/v1/orgs/{orgID}/identity/invites''), Guarded CreateInvite),
      ((''DELETE'', ''/v1/orgs/{orgID}/identity/invites/{inviteID}''), Guarded CancelInvite),
      ((''GET'', ''/v1/orgs/{orgID}/identity/sessions''), Guarded ListSessions),
      ((''DELETE'', ''/v1/orgs/{orgID}/identity/sessions/{sessionID}''), Guarded RevokeSession),
      ((''DELETE'', ''/v1/orgs/{orgID}/identity/sessions''), Guarded RevokeSession),
      ((''GET'', ''/v1/user''), Guarded GetUser),
      ((''GET'', ''/v1/audit-events''), Guarded ListAuditEvents),
      ((''GET'', ''/v1/proposals''), Guarded ListProposals),
      ((''GET'', ''/v1/proposals/{proposalID}''), Guarded GetProposal),
      ((''POST'', ''/v1/proposals/{proposalID}/approve''), Guarded ApproveProposal),
      ((''POST'', ''/v1/proposals/{proposalID}/reject''), Guarded RejectProposal),
      ((''DELETE'', ''/v1/proposals/{proposalID}''), Guarded DismissProposal),
      ((''GET'', ''/v1/registry''), SearchRegistry),
      ((''POST'', ''/v1/registry''), PublishListing),
      ((''PUT'', ''/v1/registry/{agentID}''), UpdateListing),
      ((''DELETE'', ''/v1/registry/{agentID}''), DeleteListing),
      ((''GET'', ''/v1/registry/{agentID}/trust''), GetTrustScore),
      ((''GET'', ''/v1/transactions''), ListTransactions),
      ((''GET'', ''/v1/transactions/summary''), TransactionSummary),
      ((''GET'', ''/v1/transactions/{txnID}''), GetTransaction),
      ((''POST'', ''/v1/policy/simulate''), SimulatePolicy),
      ((''GET'', ''/v1/policy/simulate/{jobID}''), GetSimulateJob),
      ((''POST'', ''/v1/intents''), Guarded PostIntent),
      ((''GET'', ''/v1/orgs/{orgID}/live''), OrgLive),
      ((''POST'', ''/v1/policy_sets''), Guarded UpsertPolicySet),
      ((''PUT'', ''/v1/policy_sets/{id}''), Guarded UpsertPolicySet),
      ((''GET'', ''/v1/policy_sets/{id}''), Guarded GetPolicySet),
      ((''POST'', ''/v1/policy_sets/resolve''), Guarded ResolveSelector),
      ((''POST'', ''/v1/agents/{name}/labels''), Guarded SetAgentLabels),
      ((''POST'', ''/v1/agents/{name}/policy_applied''), Guarded PolicyApplied),
      ((''GET'', ''/v1/agents/{name}/policy_updates''), AgentPolicyUpdates)]"

definition mounted :: "auth_mode \<Rightarrow> ((string \<times> string) \<times> endpoint) list" where
  "mounted mode = public_routes mode @ guarded_routes"

section \<open>The state behind all requests\<close>

text \<open>\<open>gt_started\<close>: the simulation jobs handed to a goroutine, with their candidate policies.\<close>

record gate =
  gt_world :: world
  gt_metrics :: metrics
  gt_runner :: runner
  gt_started :: "(string \<times> policy) list"
  gt_live :: live_hub
  gt_feed :: policy_hub
  gt_limiter :: rate_limiter
  gt_login_limiter :: rate_limiter
  gt_oidc_limiter :: rate_limiter

record gate_conf =
  gc_server :: server
  gc_origins :: "string list"
  gc_simulator :: bool
  gc_csrf_secure :: bool
  gc_build :: string
  gc_commit :: string

text \<open>
  What the router answers: the mounted pair it chose with the URL parameters, or no match, with the
  pattern chi reports and its own answer.
\<close>

datatype route_match = Matched "string \<times> string" "(string \<times> string) list" | Unmatched string response

text \<open>
  The libraries: the CORS handler's own answer to a preflight and the headers it adds otherwise, the
  request id, the address \<open>RealIP\<close> puts in \<open>RemoteAddr\<close>, the router, the metrics page (content type and
  text), a fresh UUID, the two pings, the schema version, whether the writer can flush, and the time a
  request takes.
\<close>

record gate_libs =
  gl_preflight :: "string list \<Rightarrow> request \<Rightarrow> response option"
  gl_cors :: "string list \<Rightarrow> request \<Rightarrow> (string \<times> string) list"
  gl_request_id :: "request \<Rightarrow> string"
  gl_real_ip :: "request \<Rightarrow> string"
  gl_route :: "(string \<times> string) list \<Rightarrow> request \<Rightarrow> route_match"
  gl_scrape :: "metrics \<Rightarrow> string \<times> string"
  gl_uuid :: "gate \<Rightarrow> string"
  gl_ping_db :: "world \<Rightarrow> string option"
  gl_ping_s3 :: "world \<Rightarrow> string option"
  gl_schema :: "world \<Rightarrow> string"
  gl_flusher :: "request \<Rightarrow> bool"
  gl_elapsed :: "request \<Rightarrow> int"

definition new_gate :: "world \<Rightarrow> gate" where
  "new_gate w = \<lparr>gt_world = w, gt_metrics = new_metrics, gt_runner = new_runner, gt_started = [], gt_live = new_hub,
     gt_feed = new_hub, gt_limiter = new_rate_limiter 10 20, gt_login_limiter = new_rate_limiter (1 / 10) 5,
     gt_oidc_limiter = new_rate_limiter (1 / 2) 10\<rparr>"

section \<open>The small handlers\<close>

definition handle_health :: response where
  "handle_health = \<lparr>rs_status = 200, rs_body = JRaw (''{'' @ member_text ''status'' ''ok'' @ ''}''), rs_headers = [], rs_cookies = []\<rparr>"

definition handle_version :: "gate_conf \<Rightarrow> string \<Rightarrow> response" where
  "handle_version C schema = reply 200 (JObj [(''build'', JStr (gc_build C)), (''commit'', JStr (gc_commit C)),
     (''schema_version'', JStr schema),
     (''auth_mode'', JStr (case provider_mode (sv_provider (gc_server C)) of
        ModeLocal \<Rightarrow> ''local'' | ModeSupabase \<Rightarrow> ''supabase'' | ModeOIDC \<Rightarrow> ''oidc''))])"

definition handle_search_registry :: response where
  "handle_search_registry = reply 200 (JObj [(''listings'', JArr []), (''count'', JInt 0),
     (''message'', JStr (''capability registry '' @ em_dash @ '' coming with trust network launch''))])"

definition handle_publish_listing :: response where
  "handle_publish_listing = write_json_error 501 ''capability registry not yet available''"

definition handle_update_listing :: response where
  "handle_update_listing = write_json_error 501 ''capability registry not yet available''"

definition handle_delete_listing :: response where
  "handle_delete_listing = write_json_error 501 ''capability registry not yet available''"

definition handle_get_trust_score :: response where
  "handle_get_trust_score = write_json_error 501 ''trust scoring not yet available''"

definition handle_list_transactions :: response where
  "handle_list_transactions = reply 200 (JObj [(''transactions'', JArr []), (''count'', JInt 0),
     (''message'', JStr (''metered transactions '' @ em_dash @ '' coming with trust network launch''))])"

definition handle_transaction_summary :: response where
  "handle_transaction_summary = reply 200 (JObj [(''total_transactions'', JInt 0), (''total_revenue'', JStr ''0.00''),
     (''period'', JStr ''current_month'')])"

definition handle_get_transaction :: response where
  "handle_get_transaction = write_json_error 501 ''transaction details not yet available''"

text \<open>The head and the first bytes of a stream.\<close>

definition sse_response :: "response + nat \<times> string \<Rightarrow> response" where
  "sse_response res = (case res of
     Inl rs \<Rightarrow> rs
   | Inr (i, opening) \<Rightarrow> \<lparr>rs_status = 200, rs_body = JRaw opening,
       rs_headers = [(''Content-Type'', ''text/event-stream''), (''Cache-Control'', ''no-cache''),
         (''Connection'', ''keep-alive''), (''X-Accel-Buffering'', ''no'')], rs_cookies = []\<rparr>)"

section \<open>Dispatch\<close>

definition on_world :: "(request \<Rightarrow> response act) \<Rightarrow> gate handler" where
  "on_world h r g = (case run_state (h r) (gt_world g) of (rs, w) \<Rightarrow> (rs, g\<lparr>gt_world := w\<rparr>))"

definition answer_with :: "response \<Rightarrow> gate handler" where
  "answer_with rs r g = (rs, g)"

fun endpoint_handler :: "gate_conf \<Rightarrow> gate_libs \<Rightarrow> endpoint \<Rightarrow> gate handler" where
  "endpoint_handler C G Health r g = answer_with handle_health r g"
| "endpoint_handler C G Readyz r g = answer_with (handle_readyz (gl_ping_db G (gt_world g)) (gl_ping_s3 G (gt_world g))) r g"
| "endpoint_handler C G MetricsPage r g = (case gl_scrape G (gt_metrics g) of (ct, txt) \<Rightarrow>
     (\<lparr>rs_status = 200, rs_body = JRaw txt, rs_headers = [(''Content-Type'', ct)], rs_cookies = []\<rparr>, g))"
| "endpoint_handler C G VersionInfo r g = answer_with (handle_version C (gl_schema G (gt_world g))) r g"
| "endpoint_handler C G AuthLogin r g = on_world (handle_auth_login (gc_server C)) r g"
| "endpoint_handler C G OIDCLogin r g = on_world (handle_oidc_login (gc_server C)) r g"
| "endpoint_handler C G OIDCCallback r g = on_world (handle_oidc_callback (gc_server C)) r g"
| "endpoint_handler C G OIDCLogout r g = on_world (handle_oidc_logout (gc_server C)) r g"
| "endpoint_handler C G (Guarded rt) r g = on_world (route_handler (gc_server C) rt) r g"
| "endpoint_handler C G SearchRegistry r g = answer_with handle_search_registry r g"
| "endpoint_handler C G PublishListing r g = answer_with handle_publish_listing r g"
| "endpoint_handler C G UpdateListing r g = answer_with handle_update_listing r g"
| "endpoint_handler C G DeleteListing r g = answer_with handle_delete_listing r g"
| "endpoint_handler C G GetTrustScore r g = answer_with handle_get_trust_score r g"
| "endpoint_handler C G ListTransactions r g = answer_with handle_list_transactions r g"
| "endpoint_handler C G TransactionSummary r g = answer_with handle_transaction_summary r g"
| "endpoint_handler C G GetTransaction r g = answer_with handle_get_transaction r g"
| "endpoint_handler C G SimulatePolicy r g =
     (case run_state (handle_simulate_policy (gc_server C) (gc_simulator C) (gl_uuid G g) r (gt_runner g)) (gt_world g) of
        ((rs, rn, job), w) \<Rightarrow> (rs, g\<lparr>gt_world := w, gt_runner := rn,
          gt_started := gt_started g @ (case job of None \<Rightarrow> [] | Some j \<Rightarrow> [j])\<rparr>))"
| "endpoint_handler C G GetSimulateJob r g = answer_with (handle_get_simulate_job (gc_simulator C) r (gt_runner g)) r g"
| "endpoint_handler C G OrgLive r g = (case handle_org_live (gc_server C) (gl_flusher G r) r (gt_live g) of
     (res, h) \<Rightarrow> (sse_response res, g\<lparr>gt_live := h\<rparr>))"
| "endpoint_handler C G AgentPolicyUpdates r g =
     (case handle_agent_policy_updates (gc_server C) (gl_flusher G r) r (gt_feed g) of
        (res, h) \<Rightarrow> (sse_response res, g\<lparr>gt_feed := h\<rparr>))"

definition gate_validate :: "gate_conf \<Rightarrow> string \<Rightarrow> gate \<Rightarrow> string res \<times> gate" where
  "gate_validate C token g = (case api_validate (gc_server C) token (gt_world g) of (res, w) \<Rightarrow> (res, g\<lparr>gt_world := w\<rparr>))"

definition gate_verify :: "gate_conf \<Rightarrow> string \<Rightarrow> gate \<Rightarrow> claims res" where
  "gate_verify C token g = api_verify (gc_server C) token (gt_world g)"

text \<open>A limiter that is a field of the state.\<close>

definition limited :: "(gate \<Rightarrow> rate_limiter) \<Rightarrow> (rate_limiter \<Rightarrow> gate \<Rightarrow> gate) \<Rightarrow> gate handler \<Rightarrow> gate handler" where
  "limited get put nxt r g =
     (case rate_limit_middleware (w_now (gt_world g)) nxt r (get g, g) of (rs, (rl, g1)) \<Rightarrow> (rs, put rl g1))"

definition endpoint_chain :: "gate_conf \<Rightarrow> gate_libs \<Rightarrow> endpoint \<Rightarrow> gate handler" where
  "endpoint_chain C G e =
     (if e = AuthLogin then limited gt_login_limiter (\<lambda>rl g. g\<lparr>gt_login_limiter := rl\<rparr>) (endpoint_handler C G e)
      else if e = OIDCLogin \<or> e = OIDCCallback
      then limited gt_oidc_limiter (\<lambda>rl g. g\<lparr>gt_oidc_limiter := rl\<rparr>) (endpoint_handler C G e)
      else if is_public e then endpoint_handler C G e
      else auth_middleware (gate_validate C) (gate_verify C) (endpoint_handler C G e))"

definition route_of :: "gate_conf \<Rightarrow> gate_libs \<Rightarrow> request \<Rightarrow> route_match" where
  "route_of C G r = gl_route G (map fst (mounted (provider_mode (sv_provider (gc_server C))))) r"

definition endpoint_of :: "gate_conf \<Rightarrow> string \<times> string \<Rightarrow> endpoint option" where
  "endpoint_of C mp = map_of (mounted (provider_mode (sv_provider (gc_server C)))) mp"

definition dispatch_request :: "gate_conf \<Rightarrow> gate_libs \<Rightarrow> gate handler" where
  "dispatch_request C G r g =
     (case route_of C G r of
        Unmatched pat rs \<Rightarrow> (rs, g)
      | Matched mp params \<Rightarrow> (case endpoint_of C mp of
          None \<Rightarrow> (no_content 404, g)
        | Some e \<Rightarrow> endpoint_chain C G e (r\<lparr>rq_params := params\<rparr>) g))"

section \<open>The stack\<close>

text \<open>Headers set before the handler runs, which may overwrite them.\<close>

definition with_headers :: "(string \<times> string) list \<Rightarrow> 'w handler \<Rightarrow> 'w handler" where
  "with_headers hs nxt r w =
     (case nxt r w of (rs, w1) \<Rightarrow>
        (rs\<lparr>rs_headers := filter (\<lambda>(k, v). \<not> list_ex (\<lambda>(k', v'). equal_fold k k') (rs_headers rs)) hs @ rs_headers rs\<rparr>, w1))"

definition route_label :: "gate_conf \<Rightarrow> gate_libs \<Rightarrow> request \<Rightarrow> string" where
  "route_label C G r =
     (let pat = (case route_of C G r of Matched mp params \<Rightarrow> snd mp | Unmatched pat rs \<Rightarrow> pat) in
      if pat = [] then ''unknown'' else pat)"

definition request_logger :: "gate_conf \<Rightarrow> gate_libs \<Rightarrow> gate handler \<Rightarrow> gate handler" where
  "request_logger C G nxt r g =
     (let reqID = gl_request_id G r in
      case with_headers (if reqID = [] then [] else [(''X-Request-ID'', reqID)]) nxt r g of
        (rs, g1) \<Rightarrow> (rs, g1\<lparr>gt_metrics :=
          observe_request (rq_method r) (route_label C G r) (rs_status rs) (gl_elapsed G r) (gt_metrics g1)\<rparr>))"

definition real_ip :: "gate_libs \<Rightarrow> 'w handler \<Rightarrow> 'w handler" where
  "real_ip G nxt r = nxt (r\<lparr>rq_remote := gl_real_ip G r\<rparr>)"

definition gate_csrf :: "gate_conf \<Rightarrow> csrf" where
  "gate_csrf C = new_csrf (gc_csrf_secure C)
     [''/v1/auth/oidc/callback'', ''/v1/auth/oidc/login'', ''/v1/auth/oidc/logout'']"

text \<open>Random bytes are drawn only when there is no token cookie.\<close>

definition csrf_stage :: "csrf \<Rightarrow> gate handler \<Rightarrow> gate handler" where
  "csrf_stage c nxt r g =
     (if (case cookie_get (csrf_cookie c) r of Some v \<Rightarrow> v \<noteq> [] | None \<Rightarrow> False) then csrf_middleware c None nxt r g
      else case run_state random_bytes (gt_world g) of
        (rand, w) \<Rightarrow> csrf_middleware c rand nxt r (g\<lparr>gt_world := w\<rparr>))"

definition inner_stack :: "gate_conf \<Rightarrow> gate_libs \<Rightarrow> gate handler" where
  "inner_stack C G = security_headers (csrf_stage (gate_csrf C) (dispatch_request C G))"

definition serve :: "gate_conf \<Rightarrow> gate_libs \<Rightarrow> gate handler" where
  "serve C G r g =
     (case gl_preflight G (gc_origins C) r of
        Some rs \<Rightarrow> (rs, g)
      | None \<Rightarrow> with_headers (gl_cors G (gc_origins C) r)
          (limited gt_limiter (\<lambda>rl g. g\<lparr>gt_limiter := rl\<rparr>)
            (request_logger C G (real_ip G (inner_stack C G)))) r g)"

end
