(* ===== verification/Gateway_Props.thy ===== *)
theory Gateway_Props
  imports Gateway
begin

text \<open>
  What holds of every request through the whole stack: no protected endpoint without credentials, the
  security headers on every answer behind the limiter, and the metrics of each request.
\<close>

section \<open>Answers of the public handlers\<close>

lemma answer_ok_cookie: "answer_ok (add_cookie ck (redirect url))"
  "answer_ok (add_cookie c2 (add_cookie ck (redirect url)))" "answer_ok (add_cookie ck (reply 200 b))"
  by (auto simp: answer_ok_def add_cookie_def redirect_def reply_def handler_headers_def)

lemma answers_bind_on: "answers Q m \<Longrightarrow> (\<And>x. Q x \<Longrightarrow> answers P (k x)) \<Longrightarrow> answers P (State_Monad.bind m k)"
  by (auto simp: answers_def split: prod.splits) (metis fst_conv)

section \<open>Headers\<close>

definition all_security_headers :: "(string \<times> string) list" where
  "all_security_headers = security_header_list (bare_request\<lparr>rq_tls := True\<rparr>)"

text \<open>No header of the list hides a security header: where the names agree, the header is the same.\<close>

definition compatible :: "(string \<times> string) list \<Rightarrow> bool" where
  "compatible hs \<longleftrightarrow> (\<forall>h \<in> set hs. \<forall>s \<in> set all_security_headers. equal_fold (fst s) (fst h) \<longrightarrow> h = s)"

lemma security_headers_listed: "set (security_header_list r) \<subseteq> set all_security_headers"
  by (auto simp: security_header_list_def all_security_headers_def is_https_def)

lemma compatible_kept:
  assumes "compatible (rs_headers (fst (nxt r w)))" "h \<in> set (security_header_list r)"
  shows "h \<in> set (rs_headers (fst (security_headers nxt r w)))"
proof (cases "nxt r w")
  case (Pair rs w1)
  have "s \<in> set all_security_headers" if "s \<in> set (security_header_list r)" for s
    using security_headers_listed that by blast
  with assms Pair show ?thesis
    by (cases h) (fastforce simp: security_headers_def compatible_def list_ex_iff)
qed

lemma with_headers_keeps: "set (rs_headers (fst (nxt r w))) \<subseteq> set (rs_headers (fst (with_headers hs nxt r w)))"
  by (auto simp: with_headers_def split: prod.splits)

text \<open>The headers the handlers, the streams and the metrics page set.\<close>

definition known_headers :: "string list" where
  "known_headers = handler_headers @ [''Cache-Control'', ''Connection'', ''X-Accel-Buffering'']"

definition own_headers :: "response \<Rightarrow> bool" where
  "own_headers rs \<longleftrightarrow> set (map fst (rs_headers rs)) \<subseteq> set known_headers"

lemma known_not_security: "n \<in> set known_headers \<Longrightarrow> s \<in> set all_security_headers \<Longrightarrow> \<not> equal_fold (fst s) n"
proof -
  have "list_all (\<lambda>n. list_all (\<lambda>s. \<not> equal_fold (fst s) n) all_security_headers) known_headers"
    by code_simp
  then show "n \<in> set known_headers \<Longrightarrow> s \<in> set all_security_headers \<Longrightarrow> \<not> equal_fold (fst s) n"
    by (auto simp: list_all_iff)
qed

lemma own_compatible: "own_headers rs \<Longrightarrow> compatible (rs_headers rs)"
  using known_not_security by (fastforce simp: own_headers_def compatible_def)

lemma own_rules:
  "own_headers (write_json_error c msg)" "own_headers (reply c b)" "own_headers (no_content c)" "own_headers (redirect url)"
  "own_headers (add_cookie ck rs) = own_headers rs" "answer_ok rs \<Longrightarrow> own_headers rs" "own_headers handle_health"
  by (auto simp: own_headers_def write_json_error_def reply_def no_content_def redirect_def add_cookie_def
      known_headers_def handler_headers_def answer_ok_def handle_health_def)

lemma begin_flow_ok: "answer_ok (begin_flow S p r st nonce pkce)"
  by (auto simp: begin_flow_def Let_def answer_ok_plain answer_ok_cookie intro: answer_ok_error split: sum.splits)

lemma public_answer:
  "answers answer_ok (handle_auth_login S r)" "answers answer_ok (handle_oidc_login S r)"
  "answers answer_ok (handle_oidc_logout S r)"
  by (auto simp: handle_auth_login_def login_user_def handle_oidc_login_def handle_oidc_logout_def Let_def
      answer_ok_cookie begin_flow_ok intro!: answer_rules)

lemma match_user_answers: "answers (\<lambda>m. case m of Inl rs \<Rightarrow> answer_ok rs | Inr u \<Rightarrow> True) (match_user p c)"
  by (auto simp: match_user_def intro!: answers_return answers_bind answers_option answers_sum answers_if answer_ok_error
      split: sum.splits)

lemma callback_answer: "answers answer_ok (handle_oidc_callback S r)"
  by (auto simp: handle_oidc_callback_def finish_login_def callback_flow_def answer_ok_cookie
      intro!: answer_rules answers_bind_on [OF match_user_answers] split: sum.splits option.splits if_splits prod.splits)

lemma simulate_own:
  "own_headers (fst (fst (run_state (handle_simulate_policy S b i r rn) w)))"
  "own_headers (handle_get_simulate_job b r rn)"
  by (auto simp: handle_simulate_policy_def handle_get_simulate_job_def Let_def own_rules
      split: option.splits sum.splits prod.splits)

lemma stream_own:
  "own_headers (sse_response (fst (handle_org_live S b r h)))"
  "own_headers (sse_response (fst (handle_agent_policy_updates S b r p)))"
  by (auto simp: handle_org_live_def handle_agent_policy_updates_def sse_response_def own_rules
      split: prod.splits) (auto simp: own_headers_def known_headers_def handler_headers_def)

lemma stub_own:
  "own_headers (handle_version C sc)" "own_headers handle_search_registry" "own_headers handle_publish_listing"
  "own_headers handle_update_listing" "own_headers handle_delete_listing" "own_headers handle_get_trust_score"
  "own_headers handle_list_transactions" "own_headers handle_transaction_summary" "own_headers handle_get_transaction"
  "own_headers (handle_readyz a b)"
  by (simp_all add: handle_version_def handle_search_registry_def handle_publish_listing_def handle_update_listing_def
      handle_delete_listing_def handle_get_trust_score_def handle_list_transactions_def handle_transaction_summary_def
      handle_get_transaction_def handle_readyz_def Let_def own_rules)

lemma on_world_own: "answers answer_ok (h r) \<Longrightarrow> own_headers (fst (on_world h r g))"
  using own_rules(6) by (auto simp: on_world_def answers_def split: prod.splits) (metis fst_conv)

lemma endpoint_own: "own_headers (fst (endpoint_handler C G e r g))"
proof (cases e)
  case MetricsPage
  then show ?thesis by (auto simp: own_headers_def known_headers_def handler_headers_def split: prod.splits)
next
  case SimulatePolicy
  then show ?thesis using simulate_own(1) by (auto split: prod.splits) (metis fst_conv)
next
  case OrgLive
  then show ?thesis using stream_own(1) by (auto split: prod.splits) (metis fst_conv)
next
  case AgentPolicyUpdates
  then show ?thesis using stream_own(2) by (auto split: prod.splits) (metis fst_conv)
qed (simp_all add: answer_with_def own_rules stub_own simulate_own on_world_own public_answer callback_answer route_answer)

lemma limited_own: "(\<And>w. own_headers (fst (nxt r w))) \<Longrightarrow> own_headers (fst (limited gt pt nxt r g))"
  by (auto simp: limited_def rate_limit_middleware_def own_rules split: prod.splits bool.splits) (metis fst_conv)

lemma guarded_own:
  assumes "\<And>r w. own_headers (fst (nxt r w))"
  shows "own_headers (fst (auth_middleware v f nxt r g))"
  using assms by (auto simp: auth_middleware_def Let_def own_rules split: list.splits sum.splits prod.splits)

lemma chain_own: "own_headers (fst (endpoint_chain C G e r g))"
  by (simp add: endpoint_chain_def endpoint_own limited_own guarded_own del: endpoint_handler.simps)

section \<open>Hardening\<close>

text \<open>What is relied on of the router: its own answers set no security header to another value.\<close>

definition router_plain :: "gate_libs \<Rightarrow> bool" where
  "router_plain G \<longleftrightarrow> (\<forall>table r pat rs. gl_route G table r = Unmatched pat rs \<longrightarrow> compatible (rs_headers rs))"

lemma dispatch_compatible: "router_plain G \<Longrightarrow> compatible (rs_headers (fst (dispatch_request C G r g)))"
  unfolding dispatch_request_def router_plain_def route_of_def
  by (auto split: route_match.splits option.splits intro: own_compatible chain_own own_rules)

lemma csrf_compatible:
  assumes "\<And>w. compatible (rs_headers (fst (nxt r w)))"
  shows "compatible (rs_headers (fst (csrf_stage c nxt r g)))"
proof -
  have "compatible (rs_headers (write_json_error 403 msg))" for msg
    by (rule own_compatible) (rule own_rules)
  then show ?thesis
    using assms by (auto simp: csrf_stage_def csrf_middleware_def Let_def add_cookie_def split: prod.splits option.splits) (metis fst_conv)+
qed

lemma inner_hardened:
  assumes "router_plain G"
  shows "set (security_header_list r) \<subseteq> set (rs_headers (fst (inner_stack C G r g)))"
proof
  fix h assume h: "h \<in> set (security_header_list r)"
  have "compatible (rs_headers (fst (csrf_stage (gate_csrf C) (dispatch_request C G) r g)))"
    by (intro csrf_compatible dispatch_compatible assms)
  from compatible_kept [where nxt = "csrf_stage (gate_csrf C) (dispatch_request C G)", OF this h] show "h \<in> set (rs_headers (fst (inner_stack C G r g)))"
    by (simp add: inner_stack_def)
qed

lemma real_ip_https: "security_header_list (r\<lparr>rq_remote := a\<rparr>) = security_header_list r"
  by (simp add: security_header_list_def is_https_def header_get_def)

lemma logger_keeps: "set (rs_headers (fst (nxt r g))) \<subseteq> set (rs_headers (fst (request_logger C G nxt r g)))"
  using with_headers_keeps [of nxt r g]
  by (simp add: request_logger_def Let_def split: prod.splits) (metis fst_conv)

lemma limited_admits:
  assumes "fst (limit_key (w_now (gt_world g)) (client_ip r) (gt g))"
  shows "fst (limited gt pt nxt r g) = fst (nxt r g)"
  using assms by (auto simp: limited_def rate_limit_middleware_def split: prod.splits bool.splits)

text \<open>
  C22. Every answer that gets past the preflight and the global limiter carries the hardening headers,
  with their exact values: found or not, whatever the handler, the login limiter, the CSRF check or the
  authentication answered. Of the router it is only assumed that its own 404 and 405 set none of them to
  another value.
\<close>

theorem answers_hardened:
  assumes "router_plain G" and "gl_preflight G (gc_origins C) r = None"
    and "fst (limit_key (w_now (gt_world g)) (client_ip r) (gt_limiter g))"
  shows "set (security_header_list r) \<subseteq> set (rs_headers (fst (serve C G r g)))"
proof -
  let ?in = "request_logger C G (real_ip G (inner_stack C G))"
  have "set (security_header_list r) \<subseteq> set (rs_headers (fst (real_ip G (inner_stack C G) r g)))"
    using inner_hardened [OF assms(1), of "r\<lparr>rq_remote := gl_real_ip G r\<rparr>"] by (simp add: real_ip_def real_ip_https)
  also have "\<dots> \<subseteq> set (rs_headers (fst (?in r g)))" by (rule logger_keeps)
  also have "\<dots> = set (rs_headers (fst (limited gt_limiter (\<lambda>rl g. g\<lparr>gt_limiter := rl\<rparr>) ?in r g)))"
    by (simp add: limited_admits assms(3))
  also have "\<dots> \<subseteq> set (rs_headers (fst (serve C G r g)))"
    using with_headers_keeps by (simp add: serve_def assms(2))
  finally show ?thesis .
qed

section \<open>Fail closed\<close>

text \<open>
  The organization of the request's credentials: of a Bearer token that is a valid API key, or that the
  provider verifies (empty when its claims name none).
\<close>

definition acting_org :: "gate_conf \<Rightarrow> request \<Rightarrow> world \<Rightarrow> string option" where
  "acting_org C r w =
     (case split_n2 (CHR '' '') (header_get ''Authorization'' r) of
        [scheme, token] \<Rightarrow>
          if \<not> equal_fold scheme ''Bearer'' then None
          else if has_prefix token ''rk_'' then
            (case fst (api_validate (gc_server C) token w) of Inl e \<Rightarrow> None | Inr org \<Rightarrow> Some org)
          else (case api_verify (gc_server C) token w of Inl e \<Rightarrow> None | Inr c \<Rightarrow> Some (cl_org c))
      | _ \<Rightarrow> None)"

definition has_credentials :: "gate_conf \<Rightarrow> request \<Rightarrow> world \<Rightarrow> bool" where
  "has_credentials C r w \<longleftrightarrow> acting_org C r w \<noteq> None"

text \<open>Nothing stored, published, queued or subscribed has changed.\<close>

definition untouched :: "gate \<Rightarrow> gate \<Rightarrow> bool" where
  "untouched g g' \<longleftrightarrow>
     (w_db (gt_world g'))\<lparr>db_faults := []\<rparr> = (w_db (gt_world g))\<lparr>db_faults := []\<rparr> \<and>
     w_blobs (gt_world g') = w_blobs (gt_world g) \<and> w_feed (gt_world g') = w_feed (gt_world g) \<and>
     w_live (gt_world g') = w_live (gt_world g) \<and> w_uploads (gt_world g') = w_uploads (gt_world g) \<and>
     gt_runner g' = gt_runner g \<and> gt_started g' = gt_started g \<and> gt_live g' = gt_live g \<and> gt_feed g' = gt_feed g"

definition refused :: "gate \<Rightarrow> response \<times> gate \<Rightarrow> bool" where
  "refused g a \<longleftrightarrow> (rs_status (fst a) = 401 \<or> rs_status (fst a) = 403 \<or> rs_status (fst a) = 429) \<and> untouched g (snd a)"

lemma validate_only_reads: "(snd (validate_api_key E tok s))\<lparr>db_faults := []\<rparr> = s\<lparr>db_faults := []\<rparr>"
  by (auto simp: validate_api_key_def select_def stmt_def Let_def split: option.splits sum.splits prod.splits if_splits)

lemma gate_validate_untouched: "untouched g (snd (gate_validate C tok g))"
  using validate_only_reads
  by (auto simp: gate_validate_def api_validate_def db_call_def untouched_def split: prod.splits) (metis snd_conv)

lemma no_credentials_refused:
  assumes "\<not> has_credentials C r (gt_world g)"
  shows "refused g (auth_middleware (gate_validate C) (gate_verify C) nxt r g)"
proof -
  have v: "untouched g g'" if "gate_validate C tok g = (x, g')" for tok x g'
    using gate_validate_untouched [of g C tok] that by simp
  have "fst (gate_validate C tok g) = fst (api_validate (gc_server C) tok (gt_world g))" for tok
    by (simp add: gate_validate_def split: prod.splits)
  with assms show ?thesis
    by (auto simp: auth_middleware_def has_credentials_def acting_org_def gate_verify_def Let_def refused_def
        write_json_error_def reply_def untouched_def [of g g] split: list.splits sum.splits prod.splits if_splits
        dest: v) (metis fst_conv old.sum.distinct(1))+
qed

lemma acting_org_cong:
  assumes "rq_headers r' = rq_headers r" "w_db w' = w_db w" "w_now w' = w_now w"
  shows "acting_org C r' w' = acting_org C r w"
proof -
  have "fst (api_validate (gc_server C) tok w') = fst (api_validate (gc_server C) tok w)" for tok
    using assms by (simp add: api_validate_def db_call_def split: prod.splits)
  moreover have "api_verify (gc_server C) tok w' = api_verify (gc_server C) tok w" for tok
    using assms by (simp add: api_verify_def)
  ultimately show ?thesis
    using assms by (simp add: acting_org_def header_get_def split: list.splits)
qed

lemma has_credentials_cong:
  assumes "rq_headers r' = rq_headers r" "w_db w' = w_db w" "w_now w' = w_now w"
  shows "has_credentials C r' w' = has_credentials C r w"
  using acting_org_cong [OF assms] by (simp add: has_credentials_def)

text \<open>A session cookie alone is no credential: only the \<open>Authorization\<close> header is read.\<close>

lemma cookie_alone_refused: "header_get ''Authorization'' r = [] \<Longrightarrow> \<not> has_credentials C r w"
  by (simp add: has_credentials_def acting_org_def split: list.splits)

lemma refused_error: "c = 401 \<or> c = 403 \<or> c = 429 \<Longrightarrow> refused g (write_json_error c msg, g)"
  by (auto simp: refused_def untouched_def write_json_error_def reply_def)

lemma refused_after: "untouched g g1 \<Longrightarrow> refused g1 a \<Longrightarrow> refused g a"
  by (simp add: refused_def untouched_def)

lemma dispatch_refused:
  assumes "route_of C G r = Matched mp params" "endpoint_of C mp = Some e" "\<not> is_public e"
    and "\<not> has_credentials C r (gt_world g)"
  shows "refused g (dispatch_request C G r g)"
proof -
  have "endpoint_chain C G e = auth_middleware (gate_validate C) (gate_verify C) (endpoint_handler C G e)"
    using assms(3) by (auto simp: endpoint_chain_def is_public_def)
  moreover have "\<not> has_credentials C (r\<lparr>rq_params := params\<rparr>) (gt_world g)"
    using assms(4) has_credentials_cong [of "r\<lparr>rq_params := params\<rparr>" r "gt_world g" "gt_world g" C] by simp
  ultimately show ?thesis
    using no_credentials_refused assms(1,2) by (simp add: dispatch_request_def)
qed

lemma csrf_refused:
  assumes "\<And>g. \<not> has_credentials C r (gt_world g) \<Longrightarrow> refused g (nxt r g)" "\<not> has_credentials C r (gt_world g)"
  shows "refused g (csrf_stage c nxt r g)"
proof -
  have m: "refused g1 (csrf_middleware c rand nxt r g1)" if "\<not> has_credentials C r (gt_world g1)" for rand g1
    using assms(1) [OF that] refused_error [of 403 g1]
    by (auto simp: csrf_middleware_def Let_def add_cookie_def refused_def split: option.splits prod.splits)
  show ?thesis
  proof (cases "case cookie_get (csrf_cookie c) r of Some v \<Rightarrow> v \<noteq> [] | None \<Rightarrow> False")
    case True
    with m [OF assms(2)] show ?thesis by (simp add: csrf_stage_def)
  next
    case False
    obtain rand w where rb: "run_state random_bytes (gt_world g) = (rand, w)" by fastforce
    then have w: "untouched g (g\<lparr>gt_world := w\<rparr>)" "w_db w = w_db (gt_world g)" "w_now w = w_now (gt_world g)"
      by (auto simp: random_bytes_def untouched_def split: list.splits)
    then have "\<not> has_credentials C r (gt_world (g\<lparr>gt_world := w\<rparr>))"
      using assms(2) has_credentials_cong [of r r w "gt_world g" C] by simp
    from refused_after [OF w(1) m [OF this, of rand]] False rb show ?thesis
      by (simp add: csrf_stage_def)
  qed
qed

lemma stranger_refused:
  assumes "gl_preflight G (gc_origins C) r = None"
    and "route_of C G (r\<lparr>rq_remote := gl_real_ip G r\<rparr>) = Matched mp params"
    and "endpoint_of C mp = Some e" and "\<not> is_public e" and "\<not> has_credentials C r (gt_world g)"
  shows "refused g (serve C G r g)"
proof -
  let ?r = "r\<lparr>rq_remote := gl_real_ip G r\<rparr>" and ?lim = "\<lambda>rl g. g\<lparr>gt_limiter := rl\<rparr>"
  have c: "\<not> has_credentials C ?r (gt_world g)"
    using assms(5) has_credentials_cong [of ?r r "gt_world g" "gt_world g" C] by simp
  have i: "refused g (real_ip G (inner_stack C G) r g)"
    using csrf_refused [where nxt = "dispatch_request C G", OF dispatch_refused [OF assms(2-4)] c, of "gate_csrf C"]
    by (auto simp: real_ip_def inner_stack_def security_headers_def refused_def split: prod.splits)
  have l: "refused g (request_logger C G (real_ip G (inner_stack C G)) r g)"
    using i by (auto simp: request_logger_def with_headers_def Let_def refused_def untouched_def split: prod.splits)
  have "refused g (limited gt_limiter ?lim (request_logger C G (real_ip G (inner_stack C G))) r g)"
    using l refused_error [of 429 g] by (auto simp: limited_def rate_limit_middleware_def refused_def untouched_def
        split: prod.splits bool.splits)
  then show ?thesis
    by (auto simp: serve_def assms(1) with_headers_def refused_def split: prod.splits)
qed

text \<open>
  C5. Only the public endpoints answer a stranger: a request whose route is a protected one and that has
  no valid API key and no token the provider verifies gets 401, or 403 or 429 before that, through the
  whole stack, and nothing stored, published, queued or subscribed has changed.
\<close>

theorem protected_routes_fail_closed:
  assumes "gl_preflight G (gc_origins C) r = None"
    and "route_of C G (r\<lparr>rq_remote := gl_real_ip G r\<rparr>) = Matched mp params"
    and "endpoint_of C mp = Some e" and "\<not> is_public e" and "\<not> has_credentials C r (gt_world g)"
  shows "refused g (serve C G r g)"
  by (rule stranger_refused [OF assms])

section \<open>Counting\<close>

text \<open>A request behind the limiter is counted once, under its method, its route pattern and its status.\<close>

lemma request_counted:
  "mx_requests (gt_metrics (snd (request_logger C G nxt r g))) ls =
    mx_requests (gt_metrics (snd (nxt r g))) ls +
    (if ls = (rq_method r, route_label C G r, show_nat (rs_status (fst (nxt r g)))) then 1 else 0)"
  by (auto simp: request_logger_def with_headers_def observe_request_def Let_def split: prod.splits)

text \<open>
  The limiter takes the first entry of \<open>X-Forwarded-For\<close> as the client: whoever may set that header has
  a fresh bucket for every name he makes up.
\<close>

lemma forged_address_admitted:
  assumes "rl_buckets rl (client_ip r) = None" "1 \<le> rl_burst rl" "0 \<le> rl_rate rl"
  shows "fst (limit_key now (client_ip r) rl)"
  using assms by (simp add: limit_key_def get_bucket_def allow_request_def seconds_between_def Let_def)

section \<open>An example\<close>

text \<open>A router that compares segment by segment and takes the first mounted match.\<close>

fun match_segments :: "string list \<Rightarrow> string list \<Rightarrow> (string \<times> string) list option" where
  "match_segments [] [] = Some []"
| "match_segments (p # ps) (s # ss) =
     (if has_prefix p ''{'' then if s = [] then None
        else map_option ((#) (butlast (drop 1 p), s)) (match_segments ps ss)
      else if p = s then match_segments ps ss else None)"
| "match_segments _ _ = None"

fun demo_route :: "(string \<times> string) list \<Rightarrow> request \<Rightarrow> route_match" where
  "demo_route [] r = Unmatched [] (no_content 404)"
| "demo_route ((m, p) # table) r =
     (if m = ''*'' \<or> m = rq_method r
      then (case match_segments (split_on (CHR ''/'') p) (split_on (CHR ''/'') (rq_path r)) of
          Some params \<Rightarrow> Matched (m, p) params
        | None \<Rightarrow> demo_route table r)
      else demo_route table r)"

definition demo_gate_libs :: gate_libs where
  "demo_gate_libs = \<lparr>gl_preflight = (\<lambda>origins r. None), gl_cors = (\<lambda>origins r. [(''Vary'', ''Origin'')]),
     gl_request_id = (\<lambda>r. ''req-1''), gl_real_ip = rq_remote, gl_route = demo_route,
     gl_scrape = (\<lambda>m. (''text/plain'', [])), gl_uuid = (\<lambda>g. ''j1''), gl_ping_db = (\<lambda>w. None), gl_ping_s3 = (\<lambda>w. None),
     gl_schema = (\<lambda>w. ''001.sql''), gl_flusher = (\<lambda>r. True), gl_elapsed = (\<lambda>r. 1000)\<rparr>"

definition demo_gate_conf :: gate_conf where
  "demo_gate_conf = \<lparr>gc_server = demo_server, gc_origins = default_origins, gc_simulator = True, gc_csrf_secure = True,
     gc_build = ''dev'', gc_commit = ''none''\<rparr>"

definition stranger :: request where
  "stranger = bare_request\<lparr>rq_method := ''DELETE'', rq_path := ''/v1/traces/r1'',
     rq_headers := [(''Authorization'', ''Bearer nope'')]\<rparr>"

lemma demo_router_plain: "router_plain demo_gate_libs"
proof -
  have "compatible (rs_headers rs)" if "demo_route table r = Unmatched pat rs" for table r pat rs
    using that by (induction table r rule: demo_route.induct)
      (auto simp: no_content_def compatible_def split: if_splits option.splits)
  then show ?thesis by (simp add: router_plain_def demo_gate_libs_def)
qed

lemma answers_hardened_witness:
  "set (security_header_list stranger) \<subseteq>
    set (rs_headers (fst (serve demo_gate_conf demo_gate_libs stranger (new_gate demo_world))))"
proof (rule answers_hardened [OF demo_router_plain])
  show "gl_preflight demo_gate_libs (gc_origins demo_gate_conf) stranger = None" by (simp add: demo_gate_libs_def)
  show "fst (limit_key (w_now (gt_world (new_gate demo_world))) (client_ip stranger) (gt_limiter (new_gate demo_world)))"
    by (rule forged_address_admitted) (simp_all add: new_gate_def new_rate_limiter_def)
qed

lemma protected_routes_fail_closed_witness:
  "refused (new_gate demo_world) (serve demo_gate_conf demo_gate_libs stranger (new_gate demo_world))"
proof (rule protected_routes_fail_closed)
  show "gl_preflight demo_gate_libs (gc_origins demo_gate_conf) stranger = None" by (simp add: demo_gate_libs_def)
  show "route_of demo_gate_conf demo_gate_libs (stranger\<lparr>rq_remote := gl_real_ip demo_gate_libs stranger\<rparr>) =
      Matched (''DELETE'', ''/v1/traces/{runID}'') [(''runID'', ''r1'')]"
    by code_simp
  show "endpoint_of demo_gate_conf (''DELETE'', ''/v1/traces/{runID}'') = Some (Guarded DeleteTrace)" by code_simp
  show "\<not> is_public (Guarded DeleteTrace)" by (simp add: is_public_def)
  show "\<not> has_credentials demo_gate_conf stranger (gt_world (new_gate demo_world))" by code_simp
qed

end
