(* ===== verification/Gateway_Tenancy.thy ===== *)
theory Gateway_Tenancy
  imports Gateway_Props
begin

text \<open>
  Tenant isolation of the whole server: what one request, through every middleware to any endpoint,
  public ones and event streams included, may do to an organization it does not act for. What the stack
  needs of a relation between states is the locale \<open>gate_relation\<close>.
\<close>

section \<open>Relations the stack respects\<close>

locale gate_relation =
  fixes R :: "gate \<Rightarrow> gate \<Rightarrow> bool"
  assumes R_refl: "R g g"
    and R_trans: "R a b \<Longrightarrow> R b c \<Longrightarrow> R a c"
    and R_aux: "w_db (gt_world g') = w_db (gt_world g) \<Longrightarrow> w_blobs (gt_world g') = w_blobs (gt_world g) \<Longrightarrow>
      gt_live g' = gt_live g \<Longrightarrow> gt_feed g' = gt_feed g \<Longrightarrow> R g g'"
begin

lemma limited_related:
  assumes "R g (snd (nxt r g))" and "\<And>rl g. gt_world (pt rl g) = gt_world g \<and> gt_live (pt rl g) = gt_live g \<and> gt_feed (pt rl g) = gt_feed g"
  shows "R g (snd (limited gt pt nxt r g))"
proof -
  have p: "R g1 (pt rl g1)" for rl g1 using assms(2) by (intro R_aux) simp_all
  show ?thesis
    using assms(1) p R_trans by (auto simp: limited_def rate_limit_middleware_def split: prod.splits bool.splits)
qed

lemma headers_related:
  "R g (snd (nxt r g)) \<Longrightarrow> R g (snd (with_headers hs nxt r g))"
  "R g (snd (nxt r g)) \<Longrightarrow> R g (snd (security_headers nxt r g))"
  by (auto simp: with_headers_def security_headers_def split: prod.splits)

lemma logger_related:
  assumes "R g (snd (nxt r g))"
  shows "R g (snd (request_logger C G nxt r g))"
proof -
  have m: "R g1 (g1\<lparr>gt_metrics := mx\<rparr>)" for g1 mx by (rule R_aux) simp_all
  show ?thesis using assms m R_trans by (auto simp: request_logger_def with_headers_def Let_def split: prod.splits)
qed

lemma csrf_related:
  assumes "\<And>g'. w_db (gt_world g') = w_db (gt_world g) \<Longrightarrow> w_now (gt_world g') = w_now (gt_world g) \<Longrightarrow> R g' (snd (nxt r g'))"
  shows "R g (snd (csrf_stage c nxt r g))"
proof -
  have m: "R g' (snd (csrf_middleware c rand nxt r g'))"
    if "w_db (gt_world g') = w_db (gt_world g)" "w_now (gt_world g') = w_now (gt_world g)" for rand g'
    using assms [OF that] R_refl [of g'] by (auto simp: csrf_middleware_def Let_def split: option.splits prod.splits)
  obtain rand w where rb: "run_state random_bytes (gt_world g) = (rand, w)" by fastforce
  then have w: "w_db w = w_db (gt_world g)" "w_now w = w_now (gt_world g)" "w_blobs w = w_blobs (gt_world g)"
    by (auto simp: random_bytes_def split: list.splits)
  then have "R g (g\<lparr>gt_world := w\<rparr>)" by (intro R_aux) simp_all
  with m [of "g\<lparr>gt_world := w\<rparr>" rand] w R_trans have "R g (snd (csrf_middleware c rand nxt r (g\<lparr>gt_world := w\<rparr>)))"
    by simp
  with m [of g None] show ?thesis by (simp add: csrf_stage_def rb)
qed

text \<open>The whole stack does what its dispatch does.\<close>

lemma serve_related:
  assumes "\<And>r' g'. rq_headers r' = rq_headers r \<Longrightarrow> rq_ctx_org r' = rq_ctx_org r \<Longrightarrow>
      w_db (gt_world g') = w_db (gt_world g) \<Longrightarrow> w_now (gt_world g') = w_now (gt_world g) \<Longrightarrow>
      R g' (snd (dispatch_request C G r' g'))"
  shows "R g (snd (serve C G r g))"
proof -
  have "R g (snd (real_ip G (inner_stack C G) r g))"
    unfolding real_ip_def inner_stack_def by (intro headers_related csrf_related assms) simp_all
  then have "R g (snd (limited gt_limiter (\<lambda>rl g. g\<lparr>gt_limiter := rl\<rparr>)
      (request_logger C G (real_ip G (inner_stack C G))) r g))"
    by (intro limited_related logger_related) simp_all
  then show ?thesis using headers_related(1) R_refl by (simp add: serve_def split: option.splits)
qed

end

text \<open>
  The organization's rows stay, the constraints hold, and no stream of its events has been opened.
\<close>

definition streams_of :: "string \<Rightarrow> ('k, 'e) hub \<Rightarrow> ('k, 'e) subscriber list" where
  "streams_of org h = filter (\<lambda>s. sub_org s = org) (hub_subs h)"

definition gate_keeps :: "string \<Rightarrow> gate \<Rightarrow> gate \<Rightarrow> bool" where
  "gate_keeps org g g' \<longleftrightarrow> db_keeps org (gt_world g) (gt_world g') \<and>
     streams_of org (gt_live g') = streams_of org (gt_live g) \<and> streams_of org (gt_feed g') = streams_of org (gt_feed g)"

interpretation gates: gate_relation "gate_keeps org" for org
proof unfold_locales
  fix a b c :: gate
  show "gate_keeps org a a" by (simp add: gate_keeps_def others.I_refl)
  show "gate_keeps org a b \<Longrightarrow> gate_keeps org b c \<Longrightarrow> gate_keeps org a c"
    using db_keeps_trans by (auto simp: gate_keeps_def)
  show "w_db (gt_world b) = w_db (gt_world a) \<Longrightarrow> w_blobs (gt_world b) = w_blobs (gt_world a) \<Longrightarrow>
      gt_live b = gt_live a \<Longrightarrow> gt_feed b = gt_feed a \<Longrightarrow> gate_keeps org a b"
    using others.I_aux by (simp add: gate_keeps_def)
qed

section \<open>Every endpoint\<close>

lemma on_world_keeps: "leads (db_keeps org) (h r) \<Longrightarrow> gate_keeps org g (snd (on_world h r g))"
  by (auto simp: on_world_def gate_keeps_def leads_def split: prod.splits) (metis snd_conv)

lemma public_keep:
  "leads (db_keeps org) (handle_auth_login S r)" "leads (db_keeps org) (handle_oidc_login S r)"
  "leads (db_keeps org) (handle_oidc_logout S r)"
  by (auto simp: handle_auth_login_def login_user_def handle_oidc_login_def handle_oidc_logout_def Let_def
      intro!: handler_rules)

lemma callback_keeps:
  assumes "\<And>p. oidc_provider_of S = Some p \<Longrightarrow> op_default_org p \<noteq> org"
  shows "leads (db_keeps org) (handle_oidc_callback S r)"
  using assms
  by (auto simp: handle_oidc_callback_def match_user_def finish_login_def create_user_with_password_def
      intro!: handler_rules)

lemma simulate_keeps:
  "org_id_from_context r \<noteq> org \<Longrightarrow> leads (db_keeps org) (handle_simulate_policy S b i r rn)"
  by (auto simp: handle_simulate_policy_def Let_def intro!: handler_rules)

lemma streams_keep:
  assumes "org_id_from_context r \<noteq> org"
  shows "handle_org_live S b r h = (res, h') \<Longrightarrow> streams_of org h' = streams_of org h"
    "handle_agent_policy_updates S b r p = (res, p') \<Longrightarrow> streams_of org p' = streams_of org p"
  using assms
  by (auto simp: handle_org_live_def handle_agent_policy_updates_def streams_of_def lf_subscribe_def hub_subscribe_def
      split: if_splits)

lemma endpoint_keeps:
  assumes "org_id_from_context r \<noteq> org"
    and "\<And>p. oidc_provider_of (gc_server C) = Some p \<Longrightarrow> op_default_org p \<noteq> org"
  shows "gate_keeps org g (snd (endpoint_handler C G e r g))"
proof (cases e)
  case SimulatePolicy
  from simulate_keeps [OF assms(1)] SimulatePolicy show ?thesis
    by (auto simp: leads_def gate_keeps_def split: prod.splits) (metis snd_conv)
next
  case OrgLive
  then show ?thesis using streams_keep(1) [OF assms(1)] others.I_refl
    by (auto simp: gate_keeps_def split: prod.splits)
next
  case AgentPolicyUpdates
  then show ?thesis using streams_keep(2) [OF assms(1)] others.I_refl
    by (auto simp: gate_keeps_def split: prod.splits)
next
  case MetricsPage
  then show ?thesis using gates.R_refl by (auto split: prod.splits)
qed (use assms in \<open>simp_all add: answer_with_def gates.R_refl on_world_keeps public_keep callback_keeps route_keeps\<close>)

text \<open>
  An endpoint that is not public runs only for the credentials' organization, or with none in its
  context.
\<close>

lemma guarded_keeps:
  assumes "acting_org C r (gt_world g) \<noteq> Some org" "rq_ctx_org r = []" "org \<noteq> []"
    and nxt: "\<And>r' g'. rq_ctx_org r' \<noteq> org \<Longrightarrow> gate_keeps org g' (snd (nxt r' g'))"
  shows "gate_keeps org g (snd (auth_middleware (gate_validate C) (gate_verify C) nxt r g))"
proof -
  have v: "gate_keeps org g g'" if "gate_validate C tok g = (x, g')" for tok x g'
    using that api_validate_keeps [of org "gt_world g" "gc_server C" tok]
    by (auto simp: gate_validate_def gate_keeps_def split: prod.splits)
  have f: "fst (api_validate (gc_server C) tok (gt_world g)) = x" if "gate_validate C tok g = (x, g')" for tok x g'
    using that by (auto simp: gate_validate_def split: prod.splits)
  have t: "gate_keeps org g (snd (nxt r' g'))" if "gate_validate C tok g = (x, g')" "rq_ctx_org r' \<noteq> org" for tok x g' r'
    using gates.R_trans [OF v [OF that(1)] nxt [OF that(2)]] .
  show ?thesis
    using assms(1-3) gates.R_refl [of org g]
    by (auto simp: auth_middleware_def acting_org_def gate_verify_def Let_def
        split: list.splits sum.splits prod.splits if_splits dest: v f intro!: t nxt)
qed

lemma chain_keeps:
  assumes "acting_org C r (gt_world g) \<noteq> Some org" "rq_ctx_org r = []" "org \<noteq> []"
    and "\<And>p. oidc_provider_of (gc_server C) = Some p \<Longrightarrow> op_default_org p \<noteq> org"
  shows "gate_keeps org g (snd (endpoint_chain C G e r g))"
proof -
  have e: "gate_keeps org g' (snd (endpoint_handler C G e r' g'))" if "rq_ctx_org r' \<noteq> org" for r' g'
    using endpoint_keeps that assms(4) by (simp add: org_id_from_context_def)
  then show ?thesis
    using assms(1-3) guarded_keeps [OF assms(1-3) e]
    by (auto simp: endpoint_chain_def simp del: endpoint_handler.simps intro!: gates.limited_related)
qed

text \<open>
  C4. Tenants are isolated at the socket: one request, through the whole stack to any endpoint, public
  or protected, leaves every existing organization it has no credentials for as it was. All rows of
  that organization are unchanged, the database's constraints hold and no event stream of it is opened;
  the one exception is the organization a deployment names as the home of new OIDC users.
\<close>

theorem gateway_tenant_isolation:
  assumes "db_ok (w_db (gt_world g))" and "org_exists org (w_db (gt_world g))" and "org \<noteq> []"
    and "rq_ctx_org r = []" and "acting_org C r (gt_world g) \<noteq> Some org"
    and "\<And>p. oidc_provider_of (gc_server C) = Some p \<Longrightarrow> op_default_org p \<noteq> org"
  shows "let g' = snd (serve C G r g) in
    org_view org (w_db (gt_world g')) = org_view org (w_db (gt_world g)) \<and> db_ok (w_db (gt_world g')) \<and>
    streams_of org (gt_live g') = streams_of org (gt_live g) \<and> streams_of org (gt_feed g') = streams_of org (gt_feed g)"
proof -
  have "gate_keeps org g' (snd (dispatch_request C G r' g'))"
    if "rq_headers r' = rq_headers r" "rq_ctx_org r' = rq_ctx_org r" "w_db (gt_world g') = w_db (gt_world g)"
      "w_now (gt_world g') = w_now (gt_world g)" for r' g'
  proof -
    have "acting_org C (r'\<lparr>rq_params := params\<rparr>) (gt_world g') \<noteq> Some org" for params
      using assms(5) acting_org_cong [of "r'\<lparr>rq_params := params\<rparr>" r "gt_world g'" "gt_world g" C] that by simp
    then show ?thesis
      using chain_keeps [where r = "r'\<lparr>rq_params := params\<rparr>" and g = g' for params, OF _ _ assms(3,6)] gates.R_refl that(2) assms(4)
      by (auto simp: dispatch_request_def split: route_match.splits option.splits)
  qed
  then have "gate_keeps org g (snd (serve C G r g))" by (rule gates.serve_related)
  with assms(1,2) show ?thesis by (simp add: gate_keeps_def db_keeps_def keeps_def Let_def)
qed

text \<open>A token of organization \<open>b\<close> asks for the live stream of \<open>a\<close>.\<close>

definition peeking :: request where
  "peeking = demo_request\<lparr>rq_method := ''GET'', rq_path := ''/v1/orgs/a/live''\<rparr>"

lemma gateway_tenant_isolation_witness:
  "streams_of ''a'' (gt_live (snd (serve demo_gate_conf demo_gate_libs peeking (new_gate demo_world)))) = []"
proof -
  have "acting_org demo_gate_conf peeking (gt_world (new_gate demo_world)) \<noteq> Some ''a''" by code_simp
  moreover have "oidc_provider_of (gc_server demo_gate_conf) = None"
    by (simp add: demo_gate_conf_def demo_server_def demo_local_def oidc_provider_of_def)
  moreover have "db_ok (w_db (gt_world (new_gate demo_world)))" "org_exists ''a'' (w_db (gt_world (new_gate demo_world)))"
    using demo_db_ok
    by (simp_all add: new_gate_def demo_world_def demo_db_def empty_db_def demo_org_def org_exists_def)
  ultimately show ?thesis
    using gateway_tenant_isolation [of "new_gate demo_world" "''a''" peeking demo_gate_conf demo_gate_libs]
    by (simp add: peeking_def demo_request_def bare_request_def Let_def)
      (simp add: new_gate_def new_hub_def streams_of_def)
qed

end
