(* ===== verification/Server_Relations.thy ===== *)
theory Server_Relations
  imports Gateway_Tenancy Store_Relations
begin

text \<open>
  Relations between databases that the whole server keeps, runs and objects aside: from the statements
  through every handler, public ones included, to the stack, the retention sweeps and any sequence of
  requests. The locale \<open>server_relation\<close> states what such a relation needs; \<open>Revocation\<close> and \<open>Audit_Trail\<close>
  interpret it.
\<close>

section \<open>The server at work\<close>

text \<open>
  Requests from the socket, sweeps, and what happens outside: the clock, ids and
  random bytes, failing statements and bucket calls, the simulator's jobs and the listeners of the hubs.
\<close>

inductive server_run :: "gate_conf \<Rightarrow> gate_libs \<Rightarrow> gate \<Rightarrow> gate \<Rightarrow> bool" for C G g where
  at_start: "server_run C G g g"
| served: "server_run C G g g1 \<Longrightarrow> server_run C G g (snd (serve C G r g1))"
| swept: "server_run C G g g1 \<Longrightarrow> server_run C G g (g1\<lparr>gt_world := snd (run_state (sweep locked wk) (gt_world g1))\<rparr>)"
| outside: "server_run C G g g1 \<Longrightarrow> server_run C G g (g1\<lparr>gt_world := (gt_world g1)\<lparr>w_now := t, w_s3_faults := fs, w_rand := bs,
    w_db := (w_db (gt_world g1))\<lparr>db_now := t, db_ids := ids, db_random := rs, db_faults := es\<rparr>\<rparr>,
    gt_runner := rn, gt_live := lh, gt_feed := fh\<rparr>)"

section \<open>What a relation needs\<close>

definition db_world :: "(db \<Rightarrow> db \<Rightarrow> bool) \<Rightarrow> world \<Rightarrow> world \<Rightarrow> bool" where
  "db_world R w w' \<longleftrightarrow> R (w_db w) (w_db w')"

definition gate_by :: "(db \<Rightarrow> db \<Rightarrow> bool) \<Rightarrow> gate \<Rightarrow> gate \<Rightarrow> bool" where
  "gate_by R g g' \<longleftrightarrow> db_world R (gt_world g) (gt_world g')"

locale server_relation = handler_relation R for R :: "db \<Rightarrow> db \<Rightarrow> bool" +
  assumes R_others: "api_keys s' = api_keys s \<Longrightarrow> audits s' = audits s \<Longrightarrow> R s s'"

sublocale server_relation \<subseteq> world_kept: world_relation "db_world R"
  by unfold_locales (auto simp: db_world_def intro: R_trans)

sublocale server_relation \<subseteq> gate_kept: gate_relation "gate_by R"
  by unfold_locales (auto simp: gate_by_def intro: world_kept.I_refl world_kept.I_trans world_kept.I_aux)

context server_relation
begin

lemma kept_same: "leads (same_world R) m \<Longrightarrow> leads (db_world R) m"
  by (simp add: leads_def same_world_def db_world_def)

text \<open>Every handler and every sweep.\<close>

lemma runs_only_kept:
  "R s (snd (insert_run q s))" "R s (snd (delete_run g i s))"
  "R s (snd (reap_expired_runs locked t l s))"
proof -
  have st: "R s (snd (stmt body s))" if "\<And>s x s'. body s = Inr (x, s') \<Longrightarrow> api_keys s' = api_keys s \<and> audits s' = audits s" for body s
    using that by (intro R_stmt R_others) blast+
  then have sp: "R s s'" if "stmt body s = (r, s')" "\<And>s x s'. body s = Inr (x, s') \<Longrightarrow> api_keys s' = api_keys s \<and> audits s' = audits s" for body s r s'
    using that by (metis snd_conv)
  show "R s (snd (insert_run q s))"
    by (auto simp: insert_run_def Let_def split: sum.splits prod.splits; erule sp; auto split: if_splits)
  show "R s (snd (delete_run g i s))" "R s (snd (reap_expired_runs locked t l s))"
    by (auto simp: delete_run_def reap_expired_runs_def Let_def intro!: st split: if_splits option.splits)
qed

lemma kept_db_call: "(\<And>s. R s (snd (oper s))) \<Longrightarrow> leads (db_world R) (db_call oper)"
  by (rule kept_same, rule same_db_call)

lemma kept_s3: "leads (db_world R) (s3_upload_bytes key body)" "leads (db_world R) (s3_delete key)"
  by (auto simp: leads_def s3_upload_bytes_def s3_upload_def s3_delete_def s3_call_def db_world_def Let_def
      split: option.splits prod.splits sum.splits list.splits)

lemma kept_audit: "leads (db_world R) (audit_log S r a res rid meta)"
  by (rule kept_same, rule same_audit)

lemmas kept_rules = world_kept.leads_rules kept_db_call kept_s3 kept_audit runs_only_kept quiet_ops

lemma runs_kept: "leads (db_world R) (handle_upload_trace S r)" "leads (db_world R) (handle_delete_trace S r)"
  by (auto simp: handle_upload_trace_def index_trace_def handle_delete_trace_def Let_def
      intro!: kept_rules kept_same [OF traces_same(4)] kept_same [OF traces_same(5)]
        kept_same [OF traces_same(6)])

lemma route_kept: "leads (db_world R) (route_handler S rt r)"
proof (cases "rt = UploadTrace \<or> rt = DeleteTrace")
  case False
  then show ?thesis by (intro kept_same route_same) auto
qed (auto simp: runs_kept)

lemma public_kept:
  "leads (db_world R) (handle_auth_login S r)" "leads (db_world R) (handle_oidc_login S r)"
  "leads (db_world R) (handle_oidc_logout S r)" "leads (db_world R) (handle_oidc_callback S r)"
  "leads (db_world R) (handle_simulate_policy S b i r rn)"
  by (auto simp: handle_auth_login_def login_user_def handle_oidc_login_def handle_oidc_logout_def
      handle_oidc_callback_def match_user_def finish_login_def create_user_with_password_def
      handle_simulate_policy_def Let_def intro!: kept_rules)

lemma delete_objects_kept: "leads (db_world R) (delete_objects es)"
  by (induction es) (auto simp: Let_def intro!: kept_rules split: prod.splits)

lemma sweep_kept: "leads (db_world R) (sweep locked wk)"
  by (auto simp: sweep_def Let_def intro!: kept_rules delete_objects_kept)

text \<open>The whole server.\<close>

lemma on_world_kept: "leads (db_world R) (h r) \<Longrightarrow> gate_by R g (snd (on_world h r g))"
  by (auto simp: on_world_def gate_by_def leads_def split: prod.splits) (metis snd_conv)

lemma endpoint_kept: "gate_by R g (snd (endpoint_handler C G e r g))"
proof (cases e)
  case SimulatePolicy
  from public_kept(5) SimulatePolicy show ?thesis
    by (auto simp: leads_def gate_by_def split: prod.splits) (metis snd_conv)
next
  case MetricsPage
  then show ?thesis using gate_kept.R_refl by (auto split: prod.splits)
next
  case OrgLive
  then show ?thesis using world_kept.I_refl by (auto simp: gate_by_def split: prod.splits)
next
  case AgentPolicyUpdates
  then show ?thesis using world_kept.I_refl by (auto simp: gate_by_def split: prod.splits)
qed (simp_all add: answer_with_def gate_kept.R_refl on_world_kept public_kept route_kept)

lemma validate_kept: "gate_validate C tok g = (x, g') \<Longrightarrow> gate_by R g g'"
  using validate_same [of "gt_world g" "gc_server C" tok]
  by (auto simp: gate_validate_def gate_by_def db_world_def same_world_def split: prod.splits)

lemma chain_kept: "gate_by R g (snd (endpoint_chain C G e r g))"
proof -
  have n: "gate_by R g (snd (endpoint_handler C G e r' g'))" if "gate_validate C tok g = (x, g')" for tok x g' r'
    using gate_kept.R_trans [OF validate_kept [OF that] endpoint_kept] .
  have "gate_by R g (snd (auth_middleware (gate_validate C) (gate_verify C) (endpoint_handler C G e) r g))"
    using gate_kept.R_refl [of g]
    by (auto simp: auth_middleware_def Let_def endpoint_kept split: list.splits sum.splits prod.splits if_splits
        dest: validate_kept intro!: n simp del: endpoint_handler.simps)
  then show ?thesis
    by (auto simp: endpoint_chain_def endpoint_kept simp del: endpoint_handler.simps intro!: gate_kept.limited_related)
qed

lemma serve_kept: "gate_by R g (snd (serve C G r g))"
  using chain_kept gate_kept.R_refl
  by (intro gate_kept.serve_related) (auto simp: dispatch_request_def split: route_match.splits option.splits)

lemma server_run_kept: "server_run C G g g' \<Longrightarrow> gate_by R g g'"
proof (induction rule: server_run.induct)
  case (swept g1 locked wk)
  from sweep_kept [of locked wk] have "gate_by R g1 (g1\<lparr>gt_world := snd (run_state (sweep locked wk) (gt_world g1))\<rparr>)"
    by (simp add: leads_def gate_by_def)
  with swept.IH show ?case by (rule gate_kept.R_trans)
next
  case outside
  then show ?case by (auto simp: gate_by_def db_world_def elim!: R_trans intro!: R_others)
qed (auto intro: gate_kept.R_refl gate_kept.R_trans serve_kept)

end

end
