(* ===== verification/Revocation.thy ===== *)
theory Revocation
  imports Server_Relations
begin

text \<open>
  A revoked API key stays revoked: no request of any kind, to any endpoint of the server, and no sweep
  brings one back to life. The relation \<open>keys_final\<close> on the \<open>api_keys\<close> table is a
  \<open>server_relation\<close>, and so it holds between any two states of a running server.
\<close>

section \<open>Dead keys\<close>

text \<open>A hash is stored, and every row that carries it is revoked.\<close>

definition dead_hash :: "string \<Rightarrow> db \<Rightarrow> bool" where
  "dead_hash h s \<longleftrightarrow> h \<in> set (map k_hash (api_keys s)) \<and>
     list_all (\<lambda>k. if k_hash k = h then k_revoked_at k \<noteq> None else True) (api_keys s)"

definition keys_final :: "db \<Rightarrow> db \<Rightarrow> bool" where
  "keys_final s s' \<longleftrightarrow> (\<forall>h. dead_hash h s \<longrightarrow> dead_hash h s')"

lemma keys_final_same: "api_keys s' = api_keys s \<Longrightarrow> keys_final s s'"
  by (simp add: keys_final_def dead_hash_def)

lemma dead_update:
  assumes "\<And>k. k_hash (f k) = k_hash k \<and> k_revoked_at (f k) \<noteq> None" "dead_hash h s"
  shows "dead_hash h (s\<lparr>api_keys := update_where P f (api_keys s)\<rparr>)"
proof -
  have "map k_hash (update_where P f (api_keys s)) = map k_hash (api_keys s)"
    using assms(1) by (intro map_update_where) simp
  moreover have "k_revoked_at k \<noteq> None" if "k \<in> set (update_where P f (api_keys s))" "k_hash k = h" for k
    using that assms by (auto simp: dead_hash_def update_where_def list_all_iff split: if_splits)
  ultimately show ?thesis using assms(2) by (simp add: dead_hash_def list_all_iff del: set_map)
qed

interpretation finals: server_relation keys_final
proof unfold_locales
  show "keys_final a b \<Longrightarrow> keys_final b c \<Longrightarrow> keys_final a c" for a b c by (simp add: keys_final_def)
  show "\<not> list_ex (\<lambda>q. k_id q = k_id k \<or> k_hash q = k_hash k) (api_keys s) \<Longrightarrow>
      keys_final s (s\<lparr>api_keys := api_keys s @ [k]\<rparr>)" for s k
    by (auto simp: keys_final_def dead_hash_def list_ex_iff)
  show "keys_final s (s\<lparr>api_keys := update_where P (\<lambda>k. k\<lparr>k_revoked_at := Some t\<rparr>) (api_keys s)\<rparr>)" for s P t
    unfolding keys_final_def by (simp add: dead_update)
qed (auto intro: keys_final_same)

section \<open>Revoked is refused\<close>

text \<open>Revoking a stored key by the id and the organization of its row leaves its hash dead.\<close>

lemma revoke_dead:
  assumes "db_ok s" "k \<in> set (api_keys s)" "revoke_api_key (k_org k) (k_id k) s = (Inr (), s')"
  shows "dead_hash (k_hash k) s'"
proof -
  let ?P = "\<lambda>q. k_id q = k_id k \<and> k_org q = k_org k" and ?f = "\<lambda>q. q\<lparr>k_revoked_at := Some (db_now s)\<rparr>"
  have s': "api_keys s' = update_where ?P ?f (api_keys s)"
    using assms(3) by (auto simp: revoke_api_key_def stmt_def Let_def split: if_splits list.splits)
  have "map k_hash (update_where ?P ?f (api_keys s)) = map k_hash (api_keys s)" by (rule map_update_where) simp
  moreover have "q = k" if "q \<in> set (api_keys s)" "k_hash q = k_hash k" for q
    using assms(1,2) that by (auto simp: db_ok_defs distinct_map inj_on_def)
  then have "k_revoked_at q \<noteq> None" if "q \<in> set (update_where ?P ?f (api_keys s))" "k_hash q = k_hash k" for q
    using that by (auto simp: update_where_def split: if_splits)
  ultimately show ?thesis using assms(2) by (simp add: dead_hash_def s' list_all_iff del: set_map) auto
qed

lemma revoke_handled:
  assumes "db_ok (w_db w)" "k \<in> set (api_keys (w_db w))" "k_org k = url_param ''orgID'' r" "k_id k = url_param ''keyID'' r"
    and "run_state (handle_revoke_api_key S r) w = (no_content 204, w')"
  shows "dead_hash (k_hash k) (w_db w')"
proof -
  obtain x d where rv: "revoke_api_key (url_param ''orgID'' r) (url_param ''keyID'' r) (w_db w) = (x, d)" by fastforce
  with assms(5) have x: "x = Inr ()"
    and au: "run_state (audit_log S r ''apikey.revoke'' ''api_key'' (url_param ''keyID'' r) None) (w\<lparr>w_db := d\<rparr>) = ((), w')"
    by (auto simp: handle_revoke_api_key_def db_call_def respond_error_def write_json_error_def reply_def no_content_def
        split: if_splits sum.splits prod.splits)
  have "dead_hash (k_hash k) d" using revoke_dead [OF assms(1,2)] rv x assms(3,4) by simp
  moreover have "db_world keys_final (w\<lparr>w_db := d\<rparr>) w'" using finals.kept_audit au unfolding leads_def by (metis snd_conv)
  ultimately show ?thesis by (simp add: db_world_def keys_final_def)
qed

lemma dead_key_invalid:
  assumes "dead_hash h s" "\<And>q. q \<in> set (api_keys s) \<Longrightarrow> k_hash q \<in> set (key_hashes E token) \<Longrightarrow> k_hash q = h"
  shows "\<exists>e. fst (validate_api_key E token s) = Inl e"
proof -
  let ?f = "\<lambda>s. List.find (\<lambda>k. k_hash k \<in> set (key_hashes E token) \<and> k_revoked_at k = None) (api_keys s)"
  have none: "?f (s\<lparr>db_faults := tl (db_faults s)\<rparr>) = None"
  proof -
    have "k_revoked_at q \<noteq> None" if "q \<in> set (api_keys s)" "k_hash q \<in> set (key_hashes E token)" for q
      using assms(1) assms(2) [OF that] that(1) by (auto simp: dead_hash_def list_all_iff)
    then show ?thesis by (auto simp: find_None_iff)
  qed
  show ?thesis using select_cases [of ?f s] unfolding none validate_api_key_def by (elim disjE) simp_all
qed

text \<open>
  C6. A revoked API key opens nothing ever again: once the revoke endpoint has answered 204 for a key,
  then whatever requests the server serves and whatever sweeps, clock ticks and failures follow, a
  request that presents the key to a protected route is refused with 401, 403 or 429 by the whole stack
  and changes nothing, as long as no other stored key has a hash of the same token.
\<close>

theorem revoked_key_stays_revoked:
  assumes "db_ok (w_db w)" and "k \<in> set (api_keys (w_db w))"
    and "k_org k = url_param ''orgID'' rv" and "k_id k = url_param ''keyID'' rv"
    and "run_state (handle_revoke_api_key (gc_server C) rv) w = (no_content 204, gt_world g)"
    and "server_run C G g g'"
    and "header_get ''Authorization'' r = ''Bearer '' @ token" and "has_prefix token ''rk_''"
    and "\<And>q. q \<in> set (api_keys (w_db (gt_world g'))) \<Longrightarrow> k_hash q \<in> set (key_hashes (sv_env (gc_server C)) token) \<Longrightarrow>
      k_hash q = k_hash k"
    and "gl_preflight G (gc_origins C) r = None"
    and "route_of C G (r\<lparr>rq_remote := gl_real_ip G r\<rparr>) = Matched mp params"
    and "endpoint_of C mp = Some e" and "\<not> is_public e"
  shows "refused g' (serve C G r g')"
proof -
  have "dead_hash (k_hash k) (w_db (gt_world g'))"
    using revoke_handled [OF assms(1-5)] finals.server_run_kept [OF assms(6)] by (simp add: gate_by_def db_world_def keys_final_def)
  from dead_key_invalid [OF this assms(9)] obtain e where
    "fst (validate_api_key (sv_env (gc_server C)) token (w_db (gt_world g'))) = Inl e" by blast
  then have "fst (api_validate (gc_server C) token (gt_world g')) = Inl e"
    by (auto simp: api_validate_def db_call_def split: prod.splits)
  moreover have "split_n2 (CHR '' '') (''Bearer '' @ token) = [''Bearer'', token]"
    using bearer_split [of "''Bearer''" "''Bearer '' @ token" token] by (simp add: equal_fold_def)
  ultimately have "\<not> has_credentials C r (gt_world g')"
    using assms(7,8) by (simp add: has_credentials_def acting_org_def)
  with assms(10-13) show ?thesis by (rule stranger_refused)
qed

section \<open>Example\<close>

definition leaked_key :: api_key_row where
  "leaked_key = \<lparr>k_id = ''k1'', k_org = ''a'', k_hash = hex_encode ''rk_1'', k_prefix = ''rk_1'', k_name = ''ci'',
     k_algo = ''sha256'', k_created_at = 0, k_revoked_at = None\<rparr>"

definition leaked_world :: world where
  "leaked_world = demo_world\<lparr>w_db := demo_db\<lparr>api_keys := [leaked_key], db_ids := [''e1'']\<rparr>\<rparr>"

definition revoking :: request where
  "revoking = bare_request\<lparr>rq_ctx_org := ''a'', rq_params := [(''orgID'', ''a''), (''keyID'', ''k1'')]\<rparr>"

definition thief :: request where
  "thief = stranger\<lparr>rq_headers := [(''Authorization'', ''Bearer rk_1'')]\<rparr>"

definition revoked_world :: world where
  "revoked_world = snd (run_state (handle_revoke_api_key demo_server revoking) leaked_world)"

text \<open>A minute later the revoked key is refused.\<close>

lemma revoked_key_stays_revoked_witness:
  "let g = (new_gate leaked_world)\<lparr>gt_world := revoked_world\<lparr>w_now := 60, w_s3_faults := [], w_rand := [],
       w_db := (w_db revoked_world)\<lparr>db_now := 60, db_ids := [], db_random := [], db_faults := []\<rparr>\<rparr>\<rparr>
   in refused g (serve demo_gate_conf demo_gate_libs thief g)"
proof -
  let ?before = "(new_gate leaked_world)\<lparr>gt_world := revoked_world\<rparr>"
  let ?g = "?before\<lparr>gt_world := (gt_world ?before)\<lparr>w_now := 60, w_s3_faults := [], w_rand := [],
       w_db := (w_db (gt_world ?before))\<lparr>db_now := 60, db_ids := [], db_random := [], db_faults := []\<rparr>\<rparr>,
     gt_runner := gt_runner ?before, gt_live := gt_live ?before, gt_feed := gt_feed ?before\<rparr>"
  have s: "gc_server demo_gate_conf = demo_server" by (simp add: demo_gate_conf_def)
  have ok: "db_ok (w_db leaked_world)"
    by (simp add: leaked_world_def leaked_key_def demo_db_def empty_db_def demo_org_def org_exists_def db_ok_defs)
  have in_it: "leaked_key \<in> set (api_keys (w_db leaked_world))" by (simp add: leaked_world_def)
  have ids: "k_org leaked_key = url_param ''orgID'' revoking" "k_id leaked_key = url_param ''keyID'' revoking" by code_simp+
  have "fst (run_state (handle_revoke_api_key demo_server revoking) leaked_world) = no_content 204" by code_simp
  then have "run_state (handle_revoke_api_key demo_server revoking) leaked_world = (no_content 204, revoked_world)"
    unfolding revoked_world_def by (metis prod.collapse)
  then have rv: "run_state (handle_revoke_api_key (gc_server demo_gate_conf) revoking) leaked_world = (no_content 204, gt_world ?before)"
    by (simp add: s)
  have run: "server_run demo_gate_conf demo_gate_libs ?before ?g" by (rule outside [OF at_start])
  have h: "header_get ''Authorization'' thief = ''Bearer '' @ ''rk_1''" "has_prefix ''rk_1'' ''rk_''" by code_simp+
  have "map k_hash (api_keys (w_db revoked_world)) = [k_hash leaked_key]" by code_simp
  then have one: "k_hash q = k_hash leaked_key" if "q \<in> set (api_keys (w_db (gt_world ?g)))" for q
    using that by auto
  have p: "gl_preflight demo_gate_libs (gc_origins demo_gate_conf) thief = None" by (simp add: demo_gate_libs_def)
  have rt: "route_of demo_gate_conf demo_gate_libs (thief\<lparr>rq_remote := gl_real_ip demo_gate_libs thief\<rparr>) =
      Matched (''DELETE'', ''/v1/traces/{runID}'') [(''runID'', ''r1'')]" by code_simp
  have e: "endpoint_of demo_gate_conf (''DELETE'', ''/v1/traces/{runID}'') = Some (Guarded DeleteTrace)" by code_simp
  have np: "\<not> is_public (Guarded DeleteTrace)" by (simp add: is_public_def)
  from revoked_key_stays_revoked [OF ok in_it ids rv run h one p rt e np] show ?thesis by (simp add: Let_def)
qed

end
