(* ===== verification/Audit_Trail.thy ===== *)
theory Audit_Trail
  imports Server_Relations
begin

text \<open>
  The audit log: which action of \<open>internal/api/audit.go\<close> each route records, that a request which
  succeeds in changing something attempts exactly one row with its organization and user, and that
  rows are never changed or removed while the server runs.
\<close>

section \<open>Actions\<close>

datatype audit_action =
    AuditTraceUpload | AuditTraceDelete | AuditAgentRegister | AuditPolicyUpdate
  | AuditProposalAccept | AuditProposalReject | AuditProposalDismiss | AuditAPIKeyCreate | AuditAPIKeyRevoke
  | AuditOrgCreate | AuditPolicySimulate | AuditPolicySetWrite | AuditAgentLabels
  | AuditSSOUpdate | AuditSCIMTokenCreate | AuditSCIMTokenRevoke | AuditInviteCreate | AuditInviteCancel
  | AuditSessionRevoke | AuditSessionRevokeAll

fun action_text :: "audit_action \<Rightarrow> string" where
  "action_text AuditTraceUpload = ''trace.upload''"
| "action_text AuditTraceDelete = ''trace.delete''"
| "action_text AuditAgentRegister = ''agent.register''"
| "action_text AuditPolicyUpdate = ''agent.policy_update''"
| "action_text AuditProposalAccept = ''proposal.approve''"
| "action_text AuditProposalReject = ''proposal.reject''"
| "action_text AuditProposalDismiss = ''proposal.dismiss''"
| "action_text AuditAPIKeyCreate = ''apikey.create''"
| "action_text AuditAPIKeyRevoke = ''apikey.revoke''"
| "action_text AuditOrgCreate = ''org.create''"
| "action_text AuditPolicySimulate = ''policy.simulate''"
| "action_text AuditPolicySetWrite = ''policy_set.write''"
| "action_text AuditAgentLabels = ''agent.labels''"
| "action_text AuditSSOUpdate = ''identity.sso.update''"
| "action_text AuditSCIMTokenCreate = ''identity.scim_token.create''"
| "action_text AuditSCIMTokenRevoke = ''identity.scim_token.revoke''"
| "action_text AuditInviteCreate = ''identity.invite.create''"
| "action_text AuditInviteCancel = ''identity.invite.cancel''"
| "action_text AuditSessionRevoke = ''identity.session.revoke''"
| "action_text AuditSessionRevokeAll = ''identity.session.revoke_all''"

text \<open>What each protected route records; the others only read, or acknowledge what an agent reports.\<close>

fun audited :: "route \<Rightarrow> audit_action list" where
  "audited UploadTrace = [AuditTraceUpload]"
| "audited DeleteTrace = [AuditTraceDelete]"
| "audited RegisterAgent = [AuditAgentRegister]"
| "audited UpdateAgentPolicy = [AuditPolicyUpdate]"
| "audited ApproveProposal = [AuditProposalAccept]"
| "audited RejectProposal = [AuditProposalReject]"
| "audited DismissProposal = [AuditProposalDismiss]"
| "audited CreateAPIKey = [AuditAPIKeyCreate]"
| "audited RevokeAPIKey = [AuditAPIKeyRevoke]"
| "audited CreateOrg = [AuditOrgCreate]"
| "audited Onboard = [AuditOrgCreate]"
| "audited UpsertPolicySet = [AuditPolicySetWrite]"
| "audited SetAgentLabels = [AuditAgentLabels]"
| "audited PutSSO = [AuditSSOUpdate]"
| "audited CreateSCIMToken = [AuditSCIMTokenCreate]"
| "audited RevokeSCIMToken = [AuditSCIMTokenRevoke]"
| "audited CreateInvite = [AuditInviteCreate]"
| "audited CancelInvite = [AuditInviteCancel]"
| "audited RevokeSession = [AuditSessionRevoke, AuditSessionRevokeAll]"
| "audited _ = []"

section \<open>What leaves the log alone\<close>

definition same_audits :: "db \<Rightarrow> db \<Rightarrow> bool" where
  "same_audits s s' \<longleftrightarrow> audits s' = audits s \<and> (if db_faults s = [] then db_faults s' = [] else True) \<and>
     suffix (db_ids s') (db_ids s) \<and> prefix (orgs s) (orgs s')"

lemma same_audits_trans: "same_audits a b \<Longrightarrow> same_audits b c \<Longrightarrow> same_audits a c"
  by (auto simp: same_audits_def split: if_splits intro: suffix_order.trans prefix_order.trans)

interpretation calm: key_relation same_audits
  by unfold_locales (erule (1) same_audits_trans, auto simp: same_audits_def suffix_def split: if_splits)

interpretation still: world_relation "db_world same_audits"
  by unfold_locales (auto simp: db_world_def intro: same_audits_trans)

lemma still_same: "leads (same_world same_audits) m \<Longrightarrow> leads (db_world same_audits) m"
  by (simp add: leads_def same_world_def db_world_def)

lemma still_s3: "leads (db_world same_audits) (s3_upload_bytes key body)" "leads (db_world same_audits) (s3_delete key)"
  by (auto simp: leads_def s3_upload_bytes_def s3_upload_def s3_delete_def s3_call_def db_world_def same_audits_def Let_def
      split: option.splits prod.splits sum.splits list.splits)

lemma calm_runs: "same_audits s (snd (insert_run q s))" "same_audits s (snd (delete_run g i s))"
  by (auto simp: same_audits_def insert_run_def delete_run_def stmt_def Let_def
      split: if_splits sum.splits prod.splits option.splits)

lemmas still_rules = still.leads_rules still_s3 still_same [OF calm.same_db_call] still_same [OF calm.same_download]
  still_same [OF calm.same_notify(1)] still_same [OF calm.same_notify(2)] still_same [OF calm.same_publish_all]
  calm.quiet_ops calm.R_create_key calm.R_revoke_key calm_runs

section \<open>What a handler records\<close>

text \<open>
  The organization a row is written for: the caller's, or one that the request has just created for a
  caller who had none.
\<close>

definition audit_org :: "request \<Rightarrow> db \<Rightarrow> db \<Rightarrow> string \<Rightarrow> bool" where
  "audit_org r s s' g \<longleftrightarrow>
     (if org_id_from_context r = [] then \<not> org_exists g s \<and> org_exists g s' else g = org_id_from_context r)"

text \<open>One row was offered to the database, and nothing else was done to the log.\<close>

definition recorded :: "server \<Rightarrow> request \<Rightarrow> audit_action list \<Rightarrow> db \<Rightarrow> db \<Rightarrow> bool" where
  "recorded S r acts s s' \<longleftrightarrow>
     (\<exists>s1 s2 x g a resource rid meta. a \<in> set acts \<and> audit_org r s s1 g \<and> same_audits s s1 \<and>
        insert_audit_event (sv_env S) g (audit_user r) (action_text a) resource rid (map_option audit_meta meta) s1 = (x, s2) \<and>
        same_audits s2 s')"

text \<open>Success: 2xx, except that an upload answered 200 is a repetition that stored nothing.\<close>

definition succeeded :: "route \<Rightarrow> nat \<Rightarrow> bool" where
  "succeeded rt c \<longleftrightarrow> (if rt = UploadTrace then c = 201 else c < 300)"

definition logged :: "server \<Rightarrow> request \<Rightarrow> route \<Rightarrow> response act \<Rightarrow> bool" where
  "logged S r rt m \<longleftrightarrow> (\<forall>w resp w'. run_state m w = (resp, w') \<longrightarrow>
     recorded S r (audited rt) (w_db w) (w_db w') \<or>
     same_audits (w_db w) (w_db w') \<and> (audited rt = [] \<or> \<not> succeeded rt (rs_status resp)))"

lemma logged_error: "300 \<le> c \<Longrightarrow> logged S r rt (respond_error c msg)"
  "300 \<le> c \<Longrightarrow> logged S r rt (State_Monad.return (write_json_error c msg))"
  by (auto simp: logged_def succeeded_def respond_error_def write_json_error_def reply_def same_audits_def)

lemma logged_duplicate: "logged S r UploadTrace (respond 200 v)"
  by (simp add: logged_def succeeded_def respond_def reply_def same_audits_def)

lemma logged_still: "audited rt = [] \<Longrightarrow> leads (db_world same_audits) m \<Longrightarrow> logged S r rt m"
  by (auto simp: logged_def leads_def db_world_def) (metis snd_conv)

lemma logged_bind:
  assumes "leads (db_world same_audits) m" "org_id_from_context r \<noteq> []" "\<And>x. logged S r rt (k x)"
  shows "logged S r rt (State_Monad.bind m k)"
proof -
  have later: "recorded S r (audited rt) s s'" if "same_audits s s1" "recorded S r (audited rt) s1 s'" for s s1 s'
    using that(2) assms(2) same_audits_trans [OF that(1)] unfolding recorded_def audit_org_def by (auto; blast)
  show ?thesis
    unfolding logged_def
  proof (intro allI impI)
    fix w resp w'
    assume "run_state (State_Monad.bind m k) w = (resp, w')"
    then obtain x w1 where m: "run_state m w = (x, w1)" and k: "run_state (k x) w1 = (resp, w')"
      by (cases "run_state m w") auto
    have s: "same_audits (w_db w) (w_db w1)" using assms(1) m unfolding leads_def db_world_def by (metis snd_conv)
    from assms(3) [of x] k
    have "recorded S r (audited rt) (w_db w1) (w_db w') \<or> same_audits (w_db w1) (w_db w') \<and> (audited rt = [] \<or> \<not> succeeded rt (rs_status resp))"
      unfolding logged_def by blast
    then show "recorded S r (audited rt) (w_db w) (w_db w') \<or>
        same_audits (w_db w) (w_db w') \<and> (audited rt = [] \<or> \<not> succeeded rt (rs_status resp))"
    proof
      assume "recorded S r (audited rt) (w_db w1) (w_db w')"
      then show ?thesis using later [OF s] by blast
    next
      assume "same_audits (w_db w1) (w_db w') \<and> (audited rt = [] \<or> \<not> succeeded rt (rs_status resp))"
      then show ?thesis using s same_audits_trans by blast
    qed
  qed
qed

lemma logged_audit:
  assumes "org_id_from_context r \<noteq> []" "ac \<in> action_text ` set (audited rt)" "\<And>x. leads (db_world same_audits) (k x)"
  shows "logged S r rt (State_Monad.bind (audit_log S r ac resource rid meta) k)"
  unfolding logged_def
proof (intro allI impI disjI1)
  fix w resp w'
  assume run: "run_state (State_Monad.bind (audit_log S r ac resource rid meta) k) w = (resp, w')"
  obtain x s2 where ins: "insert_audit_event (sv_env S) (org_id_from_context r) (audit_user r) ac resource rid
      (map_option audit_meta meta) (w_db w) = (x, s2)" by fastforce
  with assms(1) run have k: "run_state (k ()) (w\<lparr>w_db := s2\<rparr>) = (resp, w')"
    by (simp add: audit_log_def db_call_def)
  have "db_world same_audits (w\<lparr>w_db := s2\<rparr>) (snd (run_state (k ()) (w\<lparr>w_db := s2\<rparr>)))"
    using assms(3) [of "()"] unfolding leads_def by blast
  then have au: "same_audits s2 (w_db w')" by (simp add: k db_world_def)
  obtain a where a: "a \<in> set (audited rt)" "ac = action_text a" using assms(2) by blast
  show "recorded S r (audited rt) (w_db w) (w_db w')"
    unfolding recorded_def audit_org_def if_not_P [OF assms(1)] using a au ins calm.R_refl by blast
qed

lemma logged_if: "(b \<Longrightarrow> logged S r rt m) \<Longrightarrow> (\<not> b \<Longrightarrow> logged S r rt n) \<Longrightarrow> logged S r rt (if b then m else n)"
  by simp

lemma logged_option: "(v = None \<Longrightarrow> logged S r rt m) \<Longrightarrow> (\<And>x. v = Some x \<Longrightarrow> logged S r rt (k x)) \<Longrightarrow>
    logged S r rt (case v of None \<Rightarrow> m | Some x \<Rightarrow> k x)"
  by (cases v) auto

lemma logged_sum: "(\<And>e. v = Inl e \<Longrightarrow> logged S r rt (m e)) \<Longrightarrow> (\<And>x. v = Inr x \<Longrightarrow> logged S r rt (k x)) \<Longrightarrow>
    logged S r rt (case v of Inl e \<Rightarrow> m e | Inr x \<Rightarrow> k x)"
  by (cases v) auto

lemma logged_prod: "(\<And>a b. v = (a, b) \<Longrightarrow> logged S r rt (k a b)) \<Longrightarrow> logged S r rt (case v of (a, b) \<Rightarrow> k a b)"
  by (cases v) auto

lemma logged_org:
  "(\<And>g. g = org_id_from_context r \<Longrightarrow> g \<noteq> [] \<Longrightarrow> logged S r rt (k g)) \<Longrightarrow> logged S r rt (require_org r k)"
  "(\<And>g. g = org_id_from_context r \<Longrightarrow> g \<noteq> [] \<Longrightarrow> logged S r rt (k g)) \<Longrightarrow> logged S r rt (require_matching_org r k)"
  by (auto simp: require_org_def require_matching_org_def Let_def intro: logged_error)

text \<open>A call before the record, by its kind, so that no rule competes with the record itself.\<close>

lemma logged_calls:
  "(\<And>s. same_audits s (snd (oper s))) \<Longrightarrow> org_id_from_context r \<noteq> [] \<Longrightarrow> (\<And>x. logged S r rt (k x)) \<Longrightarrow>
    logged S r rt (State_Monad.bind (db_call oper) k)"
  "org_id_from_context r \<noteq> [] \<Longrightarrow> (\<And>x. logged S r rt (k' x)) \<Longrightarrow> logged S r rt (State_Monad.bind clock k')"
  "org_id_from_context r \<noteq> [] \<Longrightarrow> (\<And>x. logged S r rt (k1 x)) \<Longrightarrow> logged S r rt (State_Monad.bind (count_upload l) k1)"
  "org_id_from_context r \<noteq> [] \<Longrightarrow> (\<And>x. logged S r rt (k2 x)) \<Longrightarrow>
    logged S r rt (State_Monad.bind (s3_upload_bytes key body) k2)"
  "org_id_from_context r \<noteq> [] \<Longrightarrow> (\<And>x. logged S r rt (k3 x)) \<Longrightarrow> logged S r rt (State_Monad.bind (s3_delete key) k3)"
  "org_id_from_context r \<noteq> [] \<Longrightarrow> (\<And>x. logged S r rt (k4 x)) \<Longrightarrow>
    logged S r rt (State_Monad.bind (publish_all S' note as) k4)"
  by (rule logged_bind; auto intro!: still_rules)+

lemmas logged_rules = still_rules logged_error logged_duplicate logged_audit logged_if logged_option logged_sum logged_prod logged_org logged_calls

section \<open>Every route\<close>

lemma readers_still:
  "leads (db_world same_audits) (handle_list_traces S r)" "leads (db_world same_audits) (handle_get_trace S r)"
  "leads (db_world same_audits) (handle_get_trace_events S r)" "leads (db_world same_audits) (handle_list_agents S r)"
  "leads (db_world same_audits) (handle_get_agent S r)" "leads (db_world same_audits) (handle_get_agent_baseline S r)"
  "leads (db_world same_audits) (handle_get_agent_policy S r)" "leads (db_world same_audits) (handle_get_org S r)"
  "leads (db_world same_audits) (handle_get_sso S r)" "leads (db_world same_audits) (handle_list_scim_tokens S r)"
  "leads (db_world same_audits) (handle_list_invites S r)" "leads (db_world same_audits) (handle_list_sessions S r)"
  "leads (db_world same_audits) (handle_get_user S r)" "leads (db_world same_audits) (handle_list_audit_events S r)"
  by (auto simp: handle_list_traces_def handle_get_trace_def handle_get_trace_events_def handle_list_agents_def
      handle_get_agent_def handle_get_agent_baseline_def handle_get_agent_policy_def handle_get_org_def
      handle_get_sso_def handle_list_scim_tokens_def handle_list_invites_def handle_list_sessions_def
      handle_get_user_def handle_list_audit_events_def Let_def intro!: still_rules)

lemma policy_readers_still:
  "leads (db_world same_audits) (handle_list_proposals S r)" "leads (db_world same_audits) (handle_get_proposal S r)"
  "leads (db_world same_audits) (handle_post_intent S r)" "leads (db_world same_audits) (handle_get_policy_set S r)"
  "leads (db_world same_audits) (handle_resolve_selector S r)" "leads (db_world same_audits) (handle_policy_applied S r)"
  by (auto simp: handle_list_proposals_def handle_get_proposal_def handle_post_intent_def publish_intent_def
      intent_agent_def handle_get_policy_set_def handle_resolve_selector_def handle_policy_applied_def Let_def
      intro!: still_rules split: list.splits)

lemma traces_logged:
  "logged S r UploadTrace (handle_upload_trace S r)" "logged S r DeleteTrace (handle_delete_trace S r)"
  by (auto simp: handle_upload_trace_def index_trace_def upload_refused_def index_failed_def upload_accepted_def
      handle_delete_trace_def Let_def intro!: logged_rules)

lemma agents_logged:
  "logged S r RegisterAgent (handle_register_agent S r)" "logged S r UpdateAgentPolicy (handle_update_agent_policy S r)"
  "logged S r SetAgentLabels (handle_set_agent_labels S r)"
  by (auto simp: handle_register_agent_def handle_update_agent_policy_def handle_set_agent_labels_def Let_def
      intro!: logged_rules)

lemma policies_logged:
  "logged S r UpsertPolicySet (handle_upsert_policy_set S r)" "logged S r ApproveProposal (handle_approve_proposal S r)"
  "logged S r RejectProposal (handle_reject_proposal S r)" "logged S r DismissProposal (handle_dismiss_proposal S r)"
  by (auto simp: handle_upsert_policy_set_def check_policy_set_def write_policy_set_def handle_approve_proposal_def
      handle_reject_proposal_def handle_dismiss_proposal_def decide_proposal_def Let_def
      simp del: publish_all.simps intro!: logged_rules split: list.splits)

lemma identity_logged:
  "logged S r PutSSO (handle_put_sso S r)" "logged S r CreateSCIMToken (handle_create_scim_token S r)"
  "logged S r RevokeSCIMToken (handle_revoke_scim_token S r)" "logged S r CreateInvite (handle_create_invite S r)"
  "logged S r CancelInvite (handle_cancel_invite S r)" "logged S r RevokeSession (handle_revoke_session S r)"
  by (auto simp: handle_put_sso_def handle_create_scim_token_def handle_revoke_scim_token_def handle_create_invite_def
      handle_cancel_invite_def handle_revoke_session_def Let_def intro!: logged_rules)

lemma keys_logged:
  "org_id_from_context r \<noteq> [] \<Longrightarrow> logged S r CreateAPIKey (handle_create_api_key S r)"
  "org_id_from_context r \<noteq> [] \<Longrightarrow> logged S r RevokeAPIKey (handle_revoke_api_key S r)"
  by (auto simp: handle_create_api_key_def handle_revoke_api_key_def Let_def intro!: logged_rules)

text \<open>Creating an organization records the row for the new organization itself.\<close>

lemma create_org_row:
  assumes "create_org nm slug s = (Inr g, s')"
  shows "\<not> org_exists (org_id g) s \<and> org_exists (org_id g) s'"
  using assms
  by (auto simp: create_org_def with_ctx_def stmt_def fresh_id_def org_exists_def list_ex_iff Let_def
      split: if_splits list.splits sum.splits prod.splits)

lemma created_logged:
  assumes "audited rt = [AuditOrgCreate]" "rt \<noteq> UploadTrace" "org_id_from_context r = []"
  shows "logged S r rt (do {
    res \<leftarrow> db_call (create_org nm slug);
    case res of
      Inl e \<Rightarrow> respond_error 500 ''could not create organization''
    | Inr g \<Rightarrow> do {
        _ \<leftarrow> db_call (insert_audit_event (sv_env S) (org_id g) (audit_user r) ''org.create'' ''organization'' (org_id g)
          (Some (audit_meta [(''slug'', JStr slug), (''name'', JStr nm)])));
        respond 201 (org_json g) } })" (is "logged S r rt ?m")
  unfolding logged_def
proof (intro allI impI)
  fix w resp w'
  assume run: "run_state ?m w = (resp, w')"
  obtain res s1 where c: "create_org nm slug (w_db w) = (res, s1)" by fastforce
  have s1: "same_audits (w_db w) s1" using calm.quiet_writes(1) [of "w_db w" nm slug] c by simp
  show "recorded S r (audited rt) (w_db w) (w_db w') \<or>
    same_audits (w_db w) (w_db w') \<and> (audited rt = [] \<or> \<not> succeeded rt (rs_status resp))"
  proof (cases res)
    case (Inl e)
    with run c s1 assms(2) show ?thesis
      by (auto simp: db_call_def respond_error_def write_json_error_def reply_def succeeded_def)
  next
    case (Inr g)
    obtain x s2 where ins: "insert_audit_event (sv_env S) (org_id g) (audit_user r) ''org.create'' ''organization'' (org_id g)
        (Some (audit_meta [(''slug'', JStr slug), (''name'', JStr nm)])) s1 = (x, s2)" by fastforce
    have w': "w_db w' = s2" using run c Inr ins by (auto simp: db_call_def respond_def)
    have "audit_org r (w_db w) s1 (org_id g)" using create_org_row c Inr assms(3) by (auto simp: audit_org_def)
    then have "recorded S r (audited rt) (w_db w) s2"
      unfolding recorded_def using ins s1 assms(1) calm.R_refl
      by (intro exI [of _ s1] exI [of _ s2] exI [of _ x] exI [of _ "org_id g"] exI [of _ AuditOrgCreate]
          exI [of _ "''organization''"] exI [of _ "org_id g"] exI [of _ "Some [(''slug'', JStr slug), (''name'', JStr nm)]"] conjI) auto
    with w' show ?thesis by simp
  qed
qed

lemma create_org_logged:
  "audited rt = [AuditOrgCreate] \<Longrightarrow> rt \<noteq> UploadTrace \<Longrightarrow> logged S r rt (handle_create_org S r)"
  unfolding handle_create_org_def Let_def
  by (intro logged_if logged_option logged_prod logged_error created_logged) simp_all

text \<open>Every route records what the table says.\<close>

lemma route_logged:
  assumes "org_id_from_context r = [] \<Longrightarrow> rt \<noteq> CreateAPIKey \<and> rt \<noteq> RevokeAPIKey"
  shows "logged S r rt (route_handler S rt r)"
proof (cases "rt = CreateAPIKey \<or> rt = RevokeAPIKey")
  case True
  then have "org_id_from_context r \<noteq> []" using assms by blast
  with True keys_logged show ?thesis by auto
next
  case False
  then show ?thesis
    by (cases rt) (simp_all add: traces_logged agents_logged policies_logged identity_logged create_org_logged
        handle_onboard_def logged_still readers_still policy_readers_still)
qed

section \<open>The row itself\<close>

definition row_added :: "request \<Rightarrow> audit_action list \<Rightarrow> db \<Rightarrow> db \<Rightarrow> bool" where
  "row_added r acts s s' \<longleftrightarrow> (\<exists>e. audits s' = audits s @ [e] \<and> audit_org r s s' (ev_org e) \<and>
     ev_user e = audit_user r \<and> ev_action e \<in> action_text ` set acts)"

text \<open>
  What the row needs of the database: PostgreSQL takes the metadata, which \<open>json.Marshal\<close> wrote. (It
  refuses a NUL character, but then it has refused the row that the metadata is about.)
\<close>

definition takes_metadata :: "storage_env \<Rightarrow> bool" where
  "takes_metadata E \<longleftrightarrow> jsonb E ''{}'' \<noteq> None \<and> (\<forall>meta. jsonb E (audit_meta meta) \<noteq> None)"

definition fresh_for_audit :: "db \<Rightarrow> bool" where
  "fresh_for_audit s \<longleftrightarrow> list_all (\<lambda>i. \<not> list_ex (\<lambda>e. ev_id e = i) (audits s)) (db_ids s)"

lemma recorded_row:
  assumes "recorded S r acts s s'" "takes_metadata (sv_env S)" "db_faults s = []" "fresh_for_audit s" "db_ids s' \<noteq> []"
    and "org_id_from_context r \<noteq> [] \<Longrightarrow> org_exists (org_id_from_context r) s"
  shows "row_added r acts s s'"
proof -
  from assms(1) obtain s1 s2 x g a resource rid meta where a: "a \<in> set acts" and g: "audit_org r s s1 g"
    and s1: "same_audits s s1" and s2: "same_audits s2 s'"
    and ins: "insert_audit_event (sv_env S) g (audit_user r) (action_text a) resource rid (map_option audit_meta meta) s1 = (x, s2)"
    unfolding recorded_def by blast
  have nf: "db_faults s1 = []" using s1 assms(3) by (simp add: same_audits_def)
  then have same: "s1\<lparr>db_faults := []\<rparr> = s1" by (cases s1) simp
  have au: "audits s1 = audits s" using s1 by (simp add: same_audits_def)
  have org: "org_exists g s1"
    using g assms(6) s1 by (auto simp: audit_org_def same_audits_def org_exists_def prefix_def split: if_splits)
  have "db_ids s2 \<noteq> []" using s2 assms(5) by (auto simp: same_audits_def)
  then have "db_ids s1 \<noteq> []"
    using ins by (auto simp: insert_audit_event_def with_ctx_def stmt_def fresh_id_def Let_def
        split: option.splits sum.splits prod.splits list.splits if_splits)
  then obtain i rest where ids: "db_ids s1 = i # rest" by (cases "db_ids s1") auto
  then have "i \<in> set (db_ids s)" using s1 by (auto simp: same_audits_def suffix_def)
  then have new: "\<not> list_ex (\<lambda>e. ev_id e = i) (audits s1)"
    using assms(4) by (auto simp: fresh_for_audit_def list_all_iff au)
  obtain j where j: "jsonb (sv_env S) (case map_option audit_meta meta of None \<Rightarrow> ''{}'' | Some m \<Rightarrow> m) = Some j"
    using assms(2) unfolding takes_metadata_def by (cases meta) auto
  let ?e = "\<lparr>ev_id = i, ev_org = g, ev_user = audit_user r, ev_action = action_text a, ev_resource = resource,
    ev_resource_id = rid, ev_metadata = j, ev_created_at = db_now s1\<rparr>"
  have "audits s2 = audits s1 @ [?e] \<and> orgs s2 = orgs s1"
    using ins new org nf j by (auto simp: insert_audit_event_def with_ctx_def stmt_def fresh_id_def ids same Let_def org_exists_def)
  with s2 au have "audits s' = audits s @ [?e]" and "prefix (orgs s1) (orgs s')" by (simp_all add: same_audits_def)
  moreover have "audit_org r s s' g"
    using g \<open>prefix (orgs s1) (orgs s')\<close> by (auto simp: audit_org_def org_exists_def prefix_def split: if_splits)
  ultimately show ?thesis unfolding row_added_def using a by (intro exI [of _ ?e]) auto
qed


section \<open>Nothing is taken back\<close>

definition audits_grow :: "db \<Rightarrow> db \<Rightarrow> bool" where
  "audits_grow s s' \<longleftrightarrow> prefix (audits s) (audits s')"

interpretation growing: server_relation audits_grow
  by unfold_locales (auto simp: audits_grow_def)


section \<open>Example\<close>

text \<open>User \<open>u\<close> of organization \<open>b\<close> ends a session, in a log that holds one row of \<open>a\<close>.\<close>

definition old_event :: audit_event where
  "old_event = \<lparr>ev_id = ''e0'', ev_org = ''a'', ev_user = ''api-key'', ev_action = ''agent.register'', ev_resource = ''agent'',
     ev_resource_id = ''bot'', ev_metadata = ''{}'', ev_created_at = 0\<rparr>"

definition audit_world :: world where
  "audit_world = demo_world\<lparr>w_db := demo_db\<lparr>audits := [old_event], db_ids := [''e1'', ''e2'']\<rparr>\<rparr>"

definition ending :: request where
  "ending = demo_upload\<lparr>rq_body := None, rq_params := [(''orgID'', ''b''), (''sessionID'', ''s1'')]\<rparr>"

lemma ending_authenticated:
  "authenticated (api_validate demo_server) (api_verify demo_server) ending audit_world ending audit_world"
proof -
  have h: "header_get ''Authorization'' ending = ''Bearer'' @ CHR '' '' # demo_token"
    by (simp add: header_get_def ending_def demo_upload_def equal_fold_def)
  have p: "\<not> has_prefix demo_token ''rk_''"
    by (simp add: demo_token_def toy_field_def quote_json_char_def)
  have v: "api_verify demo_server demo_token audit_world = Inr \<lparr>cl_user = ''u'', cl_org = ''b'', cl_email = ''e''\<rparr>"
    by (simp add: api_verify_def demo_server_def demo_local_def local_verify_def demo_auth_def demo_token_def
        toy_claims_fields claims_of_def claim_string_def metadata_org_def go_map_def)
  have f: "equal_fold ''Bearer'' ''Bearer''" by (simp add: equal_fold_def)
  from by_token [OF h f p, where validate = "api_validate demo_server" and verify = "api_verify demo_server", OF v]
  show ?thesis by (simp add: ending_def demo_upload_def bare_request_def)
qed



text \<open>Revoking a key that does not exist is answered 204 and leaves a row that says it was revoked.\<close>

lemma revoke_of_nothing_audited:
  "api_keys (w_db audit_world) = []"
  "rs_status (fst (run_state (handle_revoke_api_key demo_server (ending\<lparr>rq_params := [(''orgID'', ''b''), (''keyID'', ''k9'')]\<rparr>))
     audit_world)) = 204"
  "map ev_action (audits (w_db (snd (run_state (handle_revoke_api_key demo_server
     (ending\<lparr>rq_params := [(''orgID'', ''b''), (''keyID'', ''k9'')]\<rparr>)) audit_world)))) = [''agent.register'', ''apikey.revoke'']"
  by code_simp+

end
