(* ===== verification/Commands_Props.thy ===== *)
theory Commands_Props
  imports Commands Server_Props
begin

text \<open>
  What the commands guarantee together with the API: a password reset lets its user log in, and what a
  failed bootstrap of the administrator leaves behind.
\<close>

definition bcrypt_ok :: "auth_libs \<Rightarrow> bool" where
  "bcrypt_ok J \<longleftrightarrow> (\<forall>p h. bcrypt_generate J p = Inr h \<longrightarrow> h \<noteq> [] \<and> bcrypt_compare J h p = None)"

definition new_password :: "string + string \<Rightarrow> string list \<Rightarrow> string" where
  "new_password stdin args = (case args of _ # p # _ \<Rightarrow> p | _ \<Rightarrow> (case stdin of Inl e \<Rightarrow> [] | Inr l \<Rightarrow> trim_space l))"

lemma reset_local_password_ok:
  assumes "run_state (reset_local_password J P prompt email pw) w = (oc, w')" and "oc_code oc = 0"
  shows "\<exists>hash n d. hash_password J pw = Inr hash \<and> n \<noteq> 0 \<and> set_local_password hash email (w_db w) = (Inr n, d) \<and>
    w' = w\<lparr>w_db := d\<rparr>"
proof -
  show ?thesis
  proof (cases "hash_password J pw")
    case (Inr hash)
    obtain res d where st: "set_local_password hash email (w_db w) = (res, d)" by fastforce
    with Inr assms show ?thesis
      by (auto simp: reset_local_password_def Let_def exit_with_def db_call_def split: if_splits option.splits sum.splits)
  qed (use assms in \<open>auto simp: reset_local_password_def Let_def exit_with_def split: if_splits option.splits\<close>)
qed

lemma reset_password_ok:
  assumes "run_state (reset_password_command J P stdin args) w = (oc, w')" and "oc_code oc = 0"
  shows "\<exists>hash n d. hash_password J (new_password stdin args) = Inr hash \<and> n \<noteq> 0 \<and>
    set_local_password hash (to_lower (trim_space (hd args))) (w_db w) = (Inr n, d) \<and> w' = w\<lparr>w_db := d\<rparr>"
proof -
  from assms obtain prompt where
    "run_state (reset_local_password J P prompt (to_lower (trim_space (hd args))) (new_password stdin args)) w = (oc, w')"
    by (auto simp: reset_password_command_def Let_def new_password_def exit_with_def split: list.splits sum.splits)
  from reset_local_password_ok [OF this assms(2)] show ?thesis .
qed

text \<open>
  A password reset that exits 0 changed the password of local accounts of that address only, and the
  new password logs one of them in.
\<close>

lemma reset_password_logs_in:
  assumes "bcrypt_ok (sv_auth S)" and "run_state (reset_password_command (sv_auth S) P stdin args) w = (oc, w')"
    and "oc_code oc = 0"
  shows "\<exists>u. may_login S (w_db w') (to_lower (trim_space (hd args))) (new_password stdin args) u"
proof -
  let ?email = "to_lower (trim_space (hd args))" and ?pw = "new_password stdin args"
  let ?hit = "\<lambda>u. u_email u = ?email \<and> u_provider u = ''local''"
  obtain hash n d where h: "hash_password (sv_auth S) ?pw = Inr hash"
    and st: "set_local_password hash ?email (w_db w) = (Inr n, d)" "n \<noteq> 0" "w' = w\<lparr>w_db := d\<rparr>"
    using reset_password_ok [OF assms(2,3)] by blast
  from st(1,2) have users: "users d = update_where ?hit (\<lambda>u. u\<lparr>u_password := Some hash\<rparr>) (users (w_db w))"
    and "n = length (filter ?hit (users (w_db w)))"
    by (auto simp: set_local_password_def stmt_def Let_def split: if_splits list.splits)
  with st(2) obtain u where u: "u \<in> set (users (w_db w))" "?hit u" by (auto simp: filter_empty_conv)
  then have "u\<lparr>u_password := Some hash\<rparr> \<in> set (users d)" by (auto simp: users update_where_def image_iff)
  moreover have "verify_password (sv_auth S) hash ?pw = None"
    using h assms(1) by (auto simp: hash_password_def verify_password_def bcrypt_ok_def split: if_splits sum.splits)
  ultimately show ?thesis using u(2) st(3) by (auto simp: may_login_def intro!: exI)
qed

lemma bootstrap_wedged:
  "fst (run_state (bootstrap_local_admin demo_auth boot_process) boot_world) =
     Inl (ErrWrap ''create admin user: '' unique_violation [])"
  "fst (run_state (bootstrap_local_admin demo_auth boot_process)
     (snd (run_state (bootstrap_local_admin demo_auth boot_process) boot_world))) =
     Inl (ErrWrap ''create admin org: '' (ErrWrap ''create org: '' unique_violation []) [])"
  by code_simp+

end
