(* ===== verification/Boot.thy ===== *)
theory Boot
  imports Gateway Commands_Props "HOL-Library.Word"
begin

text \<open>
  How \<open>relic-api\<close> starts and stops (\<open>main()\<close> of \<open>cmd/relic-api/main.go\<close>): the connection pools, the S3
  client, the server's settings, the order of the start-up steps with their fatal errors, and the
  shutdown; and what the first boot of a local deployment gives its administrator.
\<close>

section \<open>Connection pools (\<open>storage/postgres.go\<close>, \<open>storage/replica.go\<close>)\<close>

record pool_config =
  pc_max_conns :: int
  pc_min_conns :: int
  pc_max_lifetime :: int
  pc_max_idle :: int

text \<open>Go's conversion \<open>int32(n)\<close>.\<close>

definition int32 :: "int \<Rightarrow> int" where
  "int32 n = sint (word_of_int n :: 32 word)"

definition pool_settings :: "(string \<Rightarrow> int option) \<Rightarrow> process \<Rightarrow> pool_config" where
  "pool_settings parse P =
     \<lparr>pc_max_conns = int32 (int_env P ''RELIC_PG_MAX_CONNS'' 20), pc_min_conns = int32 (int_env P ''RELIC_PG_MIN_CONNS'' 2),
      pc_max_lifetime = duration_env parse P ''RELIC_PG_MAX_LIFETIME'' (30 * 60 * nanos),
      pc_max_idle = duration_env parse P ''RELIC_PG_MAX_IDLE_TIME'' (5 * 60 * nanos)\<rparr>"

text \<open>The positive settings over those of the connection string.\<close>

definition tuned :: "pool_config \<Rightarrow> pool_config \<Rightarrow> pool_config" where
  "tuned pc cfg =
     \<lparr>pc_max_conns = (if pc_max_conns pc > 0 then pc_max_conns pc else pc_max_conns cfg),
      pc_min_conns = (if pc_min_conns pc > 0 then pc_min_conns pc else pc_min_conns cfg),
      pc_max_lifetime = (if pc_max_lifetime pc > 0 then pc_max_lifetime pc else pc_max_lifetime cfg),
      pc_max_idle = (if pc_max_idle pc > 0 then pc_max_idle pc else pc_max_idle cfg)\<rparr>"

text \<open>pgxpool: what a connection string says or its error, and the errors of connecting and pinging,
  and the pool's figures.\<close>

record pgx_libs =
  px_parse :: "string \<Rightarrow> string + pool_config"
  px_connect :: "string \<Rightarrow> pool_config \<Rightarrow> string option"
  px_ping :: "string \<Rightarrow> string option"
  px_stats :: db_pool_stats

record pool =
  pl_url :: string
  pl_config :: pool_config

definition open_pool :: "pgx_libs \<Rightarrow> string \<Rightarrow> string \<Rightarrow> string \<Rightarrow> string \<Rightarrow> pool_config \<Rightarrow> pool res" where
  "open_pool X parse_ctx connect_ctx ping_ctx url pc =
     (case px_parse X url of
        Inl e \<Rightarrow> Inl (ErrWrap parse_ctx (ErrText e) [])
      | Inr own \<Rightarrow>
          let cfg = tuned pc own in
          (case px_connect X url cfg of
             Some e \<Rightarrow> Inl (ErrWrap connect_ctx (ErrText e) [])
           | None \<Rightarrow> (case px_ping X url of
               Some e \<Rightarrow> Inl (ErrWrap ping_ctx (ErrText e) [])
             | None \<Rightarrow> Inr \<lparr>pl_url = url, pl_config = cfg\<rparr>)))"

definition new_postgres_with :: "pgx_libs \<Rightarrow> string \<Rightarrow> pool_config \<Rightarrow> pool res" where
  "new_postgres_with X = open_pool X ''parse postgres dsn: '' ''connect to postgres: '' ''ping postgres: ''"

definition new_postgres :: "pgx_libs \<Rightarrow> string \<Rightarrow> pool res" where
  "new_postgres X url = new_postgres_with X url \<lparr>pc_max_conns = 0, pc_min_conns = 0, pc_max_lifetime = 0, pc_max_idle = 0\<rparr>"

definition new_replica_pool :: "pgx_libs \<Rightarrow> string \<Rightarrow> pool_config \<Rightarrow> pool res" where
  "new_replica_pool X = open_pool X ''parse replica DATABASE_URL: '' ''connect replica: '' ''ping replica: ''"

record postgres =
  pg_pool :: pool
  pg_replica :: "pool option"

definition with_replica :: "pool option \<Rightarrow> postgres \<Rightarrow> postgres" where
  "with_replica p db = db\<lparr>pg_replica := p\<rparr>"

definition readonly :: "postgres \<Rightarrow> pool" where
  "readonly db = (case pg_replica db of Some p \<Rightarrow> p | None \<Rightarrow> pg_pool db)"

section \<open>The S3 client (\<open>storage/s3.go\<close>)\<close>

record s3_client =
  s3_endpoint :: "string option"
  s3_bucket :: string
  s3_region :: string
  s3_credentials :: "string \<times> string"
  s3_path_style :: bool

text \<open>\<open>load_err\<close>: the error of loading the SDK's configuration.\<close>

definition new_s3 :: "string option \<Rightarrow> string \<Rightarrow> string \<Rightarrow> string \<Rightarrow> string \<Rightarrow> string \<Rightarrow> s3_client res" where
  "new_s3 load_err ep bucket access secret region =
     (let region = (if region = [] then ''auto'' else region) in
      case load_err of
        Some e \<Rightarrow> Inl (ErrWrap ''load S3 config: '' (ErrText e) [])
      | None \<Rightarrow> Inr \<lparr>s3_endpoint = (if ep \<noteq> [] then Some ep else None), s3_bucket = bucket, s3_region = region,
          s3_credentials = (access, secret), s3_path_style = True\<rparr>)"

text \<open>\<open>presign\<close> is the SDK's \<open>PresignGetObject\<close> of bucket, key and expiry.\<close>

definition presign_get :: "(string \<Rightarrow> string \<Rightarrow> int \<Rightarrow> string + string) \<Rightarrow> s3_client \<Rightarrow> string \<Rightarrow> int \<Rightarrow> string res" where
  "presign_get presign cl key ttl =
     (let ttl = (if ttl \<le> 0 then 5 * 60 * nanos else ttl) in
      case presign (s3_bucket cl) key ttl of
        Inl e \<Rightarrow> Inl (ErrWrap ''presign get: '' (ErrText e) [])
      | Inr url \<Rightarrow> Inr url)"

section \<open>The server's settings (\<open>api/server.go\<close>, \<open>api/oidc_helpers.go\<close>)\<close>

definition session_secret :: "process \<Rightarrow> string" where
  "session_secret P = trim_space (ps_env P ''RELIC_JWT_SECRET'')"

definition cookie_insecure_for_dev :: "process \<Rightarrow> bool" where
  "cookie_insecure_for_dev P \<longleftrightarrow>
     to_lower (trim_space (ps_env P ''RELIC_COOKIES_INSECURE_DEV'')) \<in> {''1'', ''true'', ''yes''}"

definition oidc_token_delivery_fragment :: "process \<Rightarrow> bool" where
  "oidc_token_delivery_fragment P \<longleftrightarrow> to_lower (trim_space (ps_env P ''RELIC_OIDC_TOKEN_DELIVERY'')) = ''fragment''"

text \<open>\<open>NewServer\<close> with the two feeds attached, over the libraries of \<open>S\<close>.\<close>

definition new_server :: "server \<Rightarrow> process \<Rightarrow> auth_provider \<Rightarrow> server" where
  "new_server S P provider = S\<lparr>sv_provider := provider,
     sv_master := load_trace_master_secret (ps_env P ''RELIC_TRACE_KEY''),
     sv_require_sealed := env_truthy (ps_env P ''RELIC_REQUIRE_SEALED_TRACES''),
     sv_has_live := True, sv_has_feed := True, sv_session_secret := session_secret P,
     sv_insecure_cookies := cookie_insecure_for_dev P, sv_fragment_delivery := oidc_token_delivery_fragment P\<rparr>"

section \<open>Start-up\<close>

text \<open>
  The libraries: \<open>time.ParseDuration\<close>, OIDC discovery, pgxpool, the S3 configuration's error, the
  OpenTelemetry SDK, and per feed the errors of acquiring a connection and of LISTEN.
\<close>

record boot_libs =
  bl_duration :: "string \<Rightarrow> int option"
  bl_discover :: "string \<Rightarrow> string + (string \<Rightarrow> string \<Rightarrow> idp_answer) \<times> (string \<Rightarrow> (string \<times> string) list \<Rightarrow> string)"
  bl_pgx :: pgx_libs
  bl_s3 :: "string option"
  bl_sdk :: otel_sdk
  bl_live :: "string option \<times> string option"
  bl_feed :: "string option \<times> string option"

record booted =
  bt_addr :: string
  bt_db :: postgres
  bt_s3 :: s3_client
  bt_shutdown :: "string option"
  bt_conf :: gate_conf
  bt_gate :: gate
  bt_reporter :: "reporter option"
  bt_worker :: "retention_worker option"

text \<open>Everything after the admin bootstrap; it touches no stored row.\<close>

definition boot_server :: "boot_libs \<Rightarrow> server \<Rightarrow> process \<Rightarrow> pool \<Rightarrow> s3_client \<Rightarrow> auth_provider \<Rightarrow> world \<Rightarrow> string + booted" where
  "boot_server B S P primary cl provider w =
     (let port = (if ps_env P ''PORT'' = [] then ''8080'' else ps_env P ''PORT'');
          replica_url = ps_env P ''DATABASE_REPLICA_URL'';
          replica = (if replica_url = [] then Inr None
            else map_sum id Some (new_replica_pool (bl_pgx B) replica_url (pool_settings (bl_duration B) P)));
          cfg = otel_config_from_env P;
          mode = (case provider_mode provider of ModeLocal \<Rightarrow> ''local'' | ModeSupabase \<Rightarrow> ''supabase'' | ModeOIDC \<Rightarrow> ''oidc'')
      in case replica of
        Inl e \<Rightarrow> Inl ''failed to connect to replica''
      | Inr rep \<Rightarrow> (case otel_setup (bl_sdk B) cfg of
          Inl e \<Rightarrow> Inl ''otel setup failed''
        | Inr down \<Rightarrow> (case lf_start (fst (bl_live B)) (snd (bl_live B)) new_hub of
            (Some e, lh) \<Rightarrow> Inl ''failed to start live feed''
          | (None, lh) \<Rightarrow> (case hub_start (fst (bl_feed B)) (snd (bl_feed B)) new_hub of
              (Some e, fh) \<Rightarrow> Inl ''failed to start policy feed''
            | (None, fh) \<Rightarrow>
                let (rp, on) = new_reporter P mode;
                    wk = map_option new_retention_worker (retention_settings (bl_duration B) P);
                    g = (new_gate w)\<lparr>gt_live := lh, gt_feed := fh\<rparr>;
                    mx0 = set_db_pool_provider (px_stats (bl_pgx B)) (gt_metrics g);
                    mx = (case wk of None \<Rightarrow> mx0 | Some k \<Rightarrow> set_retention_provider (worker_stats k) mx0)
                in Inr \<lparr>bt_addr = '':'' @ port, bt_db = with_replica rep \<lparr>pg_pool = primary, pg_replica = None\<rparr>, bt_s3 = cl,
                     bt_shutdown = down,
                     bt_conf = \<lparr>gc_server = new_server S P provider, gc_origins = allowed_origins (ps_env P ''ALLOWED_ORIGINS''),
                       gc_simulator = True, gc_csrf_secure = (\<not> env_truthy (ps_env P ''RELIC_COOKIES_INSECURE_DEV'')),
                       gc_build = ps_build P, gc_commit = ps_commit P\<rparr>,
                     bt_gate = g\<lparr>gt_metrics := mx\<rparr>, bt_reporter = (if on then Some rp else None), bt_worker = wk\<rparr>))))"

text \<open>The fatal message, after which the process exits with status 1, or the running server.\<close>

definition boot :: "boot_libs \<Rightarrow> server \<Rightarrow> process \<Rightarrow> (string + booted) act" where
  "boot B S P =
     (let url = ps_env P ''DATABASE_URL'' in
      if url = [] then State_Monad.return (Inl ''DATABASE_URL is required'')
      else case new_postgres_with (bl_pgx B) url (pool_settings (bl_duration B) P) of
        Inl e \<Rightarrow> State_Monad.return (Inl ''failed to connect to database'')
      | Inr primary \<Rightarrow> (case new_s3 (bl_s3 B) (ps_env P ''S3_ENDPOINT'') (ps_env P ''S3_BUCKET'') (ps_env P ''S3_ACCESS_KEY'')
            (ps_env P ''S3_SECRET_KEY'') (ps_env P ''S3_REGION'') of
          Inl e \<Rightarrow> State_Monad.return (Inl ''failed to initialize S3 storage'')
        | Inr cl \<Rightarrow> (case build_auth_provider (bl_duration B) (bl_discover B) P of
            Inl e \<Rightarrow> State_Monad.return (Inl ''auth provider configuration'')
          | Inr provider \<Rightarrow> do {
              res \<leftarrow> (if provider_mode provider = ModeLocal then bootstrap_local_admin (sv_auth S) P
                     else State_Monad.return (Inr ()));
              case res of
                Inl e \<Rightarrow> State_Monad.return (Inl ''admin bootstrap failed'')
              | Inr _ \<Rightarrow> State (\<lambda>w. (boot_server B S P primary cl provider w, w)) })))"

text \<open>The deferred calls: both feeds close, the exporters flush. The result is the flush error, only logged.\<close>

definition shut_down :: "booted \<Rightarrow> string option \<times> booted" where
  "shut_down b = (bt_shutdown b, b\<lparr>bt_gate := (bt_gate b)\<lparr>gt_live := lf_close (gt_live (bt_gate b)),
     gt_feed := hub_close (gt_feed (bt_gate b))\<rparr>\<rparr>)"

section \<open>The governance worker's start (\<open>cmd/relic-governance/main.go\<close>)\<close>

record governance_process =
  gv_pool :: pool
  gv_s3 :: "s3_client option"
  gv_anthropic_key :: string
  gv_interval :: int

definition governance_start :: "boot_libs \<Rightarrow> process \<Rightarrow> string + governance_process" where
  "governance_start B P =
     (let url = ps_env P ''DATABASE_URL'' in
      if url = [] then Inl ''DATABASE_URL is required''
      else case new_postgres (bl_pgx B) url of
        Inl e \<Rightarrow> Inl ''failed to connect to database''
      | Inr primary \<Rightarrow>
          Inr \<lparr>gv_pool = primary,
            gv_s3 = (case new_s3 (bl_s3 B) (ps_env P ''S3_ENDPOINT'') (ps_env P ''S3_BUCKET'') (ps_env P ''S3_ACCESS_KEY'')
              (ps_env P ''S3_SECRET_KEY'') (ps_env P ''S3_REGION'') of Inl e \<Rightarrow> None | Inr cl \<Rightarrow> Some cl),
            gv_anthropic_key = ps_env P ''ANTHROPIC_API_KEY'', gv_interval = 60 * nanos\<rparr>)"

section \<open>What a boot gives\<close>

lemma boot_server_fields:
  assumes "boot_server B S P primary cl provider w = Inr b"
  shows "sv_provider (gc_server (bt_conf b)) = provider" "sv_auth (gc_server (bt_conf b)) = sv_auth S"
    "gt_world (bt_gate b) = w"
  using assms
  by (auto simp: boot_server_def Let_def new_server_def new_gate_def split: sum.splits prod.splits option.splits if_splits)

text \<open>A boot that succeeds ran every step, on the configured provider.\<close>

lemma boot_steps:
  assumes "run_state (boot B S P) w = (Inr b, w')"
  shows "build_auth_provider (bl_duration B) (bl_discover B) P = Inr (sv_provider (gc_server (bt_conf b)))"
    "sv_auth (gc_server (bt_conf b)) = sv_auth S" "gt_world (bt_gate b) = w'" "ps_env P ''DATABASE_URL'' \<noteq> []"
    "provider_mode (sv_provider (gc_server (bt_conf b))) = ModeLocal \<Longrightarrow>
      run_state (bootstrap_local_admin (sv_auth S) P) w = (Inr (), w')"
    "provider_mode (sv_provider (gc_server (bt_conf b))) \<noteq> ModeLocal \<Longrightarrow> w' = w"
  using assms boot_server_fields
  by (auto simp: boot_def Let_def split: sum.splits prod.splits if_splits)

lemma insert_user_row:
  assumes "insert_user org email role p provider s = (Inr u, d)"
  shows "\<exists>row. users d = users s @ [row] \<and> u_email row = email \<and> u_role row = role \<and> u_password row = p \<and>
    u_provider row = provider \<and> u_org row = org"
  using assms by (auto simp: insert_user_def with_ctx_def stmt_def fresh_id_def Let_def
      split: sum.splits prod.splits list.splits if_splits)

lemma create_org_users: "create_org nm slug s = (x, d) \<Longrightarrow> users d = users s"
  by (auto simp: create_org_def with_ctx_def stmt_def fresh_id_def Let_def
      split: sum.splits prod.splits list.splits if_splits)

text \<open>
  A first boot in local mode that came up and found no local account created the administrator of the
  environment, with the password given there.
\<close>

lemma bootstrap_creates_admin:
  assumes "run_state (bootstrap_local_admin J P) w = (Inr (), w')"
    and "to_lower (trim_space (ps_env P ''RELIC_ADMIN_EMAIL'')) \<noteq> []" "ps_env P ''RELIC_ADMIN_PASSWORD'' \<noteq> []"
    and "\<forall>u \<in> set (users (w_db w)). u_provider u \<noteq> ''local''"
  shows "\<exists>row hash. hash_password J (ps_env P ''RELIC_ADMIN_PASSWORD'') = Inr hash \<and> row \<in> set (users (w_db w')) \<and>
    u_email row = to_lower (trim_space (ps_env P ''RELIC_ADMIN_EMAIL'')) \<and> u_role row = ''admin'' \<and>
    u_password row = Some hash \<and> u_provider row = ''local''"
proof -
  have none: "filter (\<lambda>u. u_provider u = ''local'') (users (w_db w)) = []"
    using assms(4) by (simp add: filter_empty_conv)
  have ok: "map_sum f (\<lambda>_. ()) x = Inr () \<longleftrightarrow> (\<exists>u. x = Inr u)" for f :: "go_error \<Rightarrow> go_error" and x :: "user res"
    by (cases x) auto
  show ?thesis
    using assms(1-3)
    by (auto simp: bootstrap_local_admin_def Let_def db_call_def create_user_with_password_def count_users_by_provider_def
        select_def stmt_def none ok dest!: insert_user_row create_org_users
        split: sum.splits prod.splits if_splits)
qed

text \<open>
  C37. The first boot works end to end: when \<open>relic-api\<close> comes up in local mode with an administrator in
  its environment and no local account stored, the running server lets exactly that e-mail address and
  password log in, and the account they open is an admin's.
\<close>

theorem first_boot_admin_logs_in:
  assumes "bcrypt_ok (sv_auth S)" and "run_state (boot B S P) w = (Inr b, w')"
    and "provider_mode (sv_provider (gc_server (bt_conf b))) = ModeLocal"
    and "to_lower (trim_space (ps_env P ''RELIC_ADMIN_EMAIL'')) \<noteq> []" "ps_env P ''RELIC_ADMIN_PASSWORD'' \<noteq> []"
    and "\<forall>u \<in> set (users (w_db w)). u_provider u \<noteq> ''local''"
  shows "\<exists>u. may_login (gc_server (bt_conf b)) (w_db (gt_world (bt_gate b)))
      (to_lower (trim_space (ps_env P ''RELIC_ADMIN_EMAIL''))) (ps_env P ''RELIC_ADMIN_PASSWORD'') u \<and> u_role u = ''admin''"
proof -
  note steps = boot_steps [OF assms(2)]
  from bootstrap_creates_admin [OF steps(5) [OF assms(3)] assms(4-6)] obtain row hash where
    r: "hash_password (sv_auth S) (ps_env P ''RELIC_ADMIN_PASSWORD'') = Inr hash" "row \<in> set (users (w_db w'))"
    "u_email row = to_lower (trim_space (ps_env P ''RELIC_ADMIN_EMAIL''))" "u_role row = ''admin''"
    "u_password row = Some hash" "u_provider row = ''local''" by blast
  have "verify_password (sv_auth S) hash (ps_env P ''RELIC_ADMIN_PASSWORD'') = None"
    using r(1) assms(1) by (auto simp: hash_password_def verify_password_def bcrypt_ok_def split: if_splits sum.splits)
  with r show ?thesis by (auto simp: may_login_def steps(2,3))
qed

section \<open>What is relied on\<close>

text \<open>\<open>int32\<close> wraps: a limit of $2^{32}$ connections is none, one more is a single connection.\<close>

lemma pool_size_wraps:
  "int32 4294967296 = 0" "int32 4294967297 = 1" "int32 2147483648 = -2147483648" "int32 20 = 20"
  by (simp_all add: int32_def)

text \<open>The two readers of \<open>RELIC_COOKIES_INSECURE_DEV\<close> disagree on \<open>on\<close>.\<close>

lemma insecure_readers_differ:
  "ps_env P ''RELIC_COOKIES_INSECURE_DEV'' = ''on'' \<Longrightarrow>
    env_truthy (ps_env P ''RELIC_COOKIES_INSECURE_DEV'') \<and> \<not> cookie_insecure_for_dev P"
  by (simp add: env_truthy_def cookie_insecure_for_dev_def) code_simp

definition first_boot_libs :: boot_libs where
  "first_boot_libs = \<lparr>bl_duration = (\<lambda>s. None), bl_discover = (\<lambda>s. Inl ''offline''),
     bl_pgx = \<lparr>px_parse = (\<lambda>u. Inr \<lparr>pc_max_conns = 4, pc_min_conns = 0, pc_max_lifetime = nanos, pc_max_idle = nanos\<rparr>),
       px_connect = (\<lambda>u c. None), px_ping = (\<lambda>u. None), px_stats = \<lparr>dp_acquired = 0, dp_idle = 0, dp_max = 4\<rparr>\<rparr>,
     bl_s3 = None,
     bl_sdk = \<lparr>os_resource = (\<lambda>a. None), os_traces = (\<lambda>h k. None), os_metrics = (\<lambda>h k. None), os_flush_traces = None,
       os_flush_metrics = None\<rparr>,
     bl_live = (None, None), bl_feed = (None, None)\<rparr>"

definition first_boot_process :: process where
  "first_boot_process = (demo_process [])\<lparr>ps_env := (\<lambda>n. if n = ''RELIC_ADMIN_EMAIL'' then ''Root@x.y''
     else if n = ''RELIC_ADMIN_PASSWORD'' then ''password1'' else if n = ''DATABASE_URL'' then ''db''
     else if n = ''RELIC_AUTH_MODE'' then ''local'' else if n = ''RELIC_JWT_SECRET'' then ''0123456789abcdef0123456789abcdef''
     else [])\<rparr>"

lemma first_boot_admin_logs_in_witness:
  "\<exists>b u. fst (run_state (boot first_boot_libs demo_server first_boot_process) demo_world) = Inr b \<and>
     may_login (gc_server (bt_conf b)) (w_db (gt_world (bt_gate b))) ''root@x.y'' ''password1'' u \<and> u_role u = ''admin''"
proof -
  have up: "case fst (run_state (boot first_boot_libs demo_server first_boot_process) demo_world) of
      Inl e \<Rightarrow> False | Inr b \<Rightarrow> provider_mode (sv_provider (gc_server (bt_conf b))) = ModeLocal"
    by code_simp
  then obtain b w' where b: "run_state (boot first_boot_libs demo_server first_boot_process) demo_world = (Inr b, w')"
    "provider_mode (sv_provider (gc_server (bt_conf b))) = ModeLocal"
    by (cases "run_state (boot first_boot_libs demo_server first_boot_process) demo_world") (auto split: sum.splits)
  have env: "to_lower (trim_space (ps_env first_boot_process ''RELIC_ADMIN_EMAIL'')) = ''root@x.y''"
    "ps_env first_boot_process ''RELIC_ADMIN_PASSWORD'' = ''password1''"
    by code_simp+
  have "bcrypt_ok (sv_auth demo_server)" by (simp add: bcrypt_ok_def demo_server_def demo_auth_def)
  moreover have "\<forall>u \<in> set (users (w_db demo_world)). u_provider u \<noteq> ''local''" by code_simp
  ultimately show ?thesis
    using first_boot_admin_logs_in [OF _ b] b(1) by (simp add: env)
qed

end
