(* ===== verification/Trust.thy ===== *)
theory Trust
  imports Server
begin

text \<open>
  The trust network and billing so far (\<open>internal/trust\<close>, \<open>internal/billing\<close>): the trust score, the two
  policies of an agreement, the plans and the checkout link; and the services that are stubs so far: they
  answer constants and store nothing. Scores are rationals where Go has \<open>float64\<close>, so the last rounding may differ.
\<close>

section \<open>Trust scores (\<open>scoring.go\<close>)\<close>

record score_input =
  si_interactions :: int
  si_violations :: int
  si_uptime :: rat
  si_latency :: rat
  si_age :: int
  si_verified :: bool

record score =
  sc_agent :: string
  sc_score :: rat
  sc_rated :: bool
  sc_updated :: int

text \<open>\<open>math.Round\<close>: half away from zero.\<close>

definition round_away :: "rat \<Rightarrow> rat" where
  "round_away q = (if q < 0 then - of_int \<lfloor>- q + 1 / 2\<rfloor> else of_int \<lfloor>q + 1 / 2\<rfloor>)"

definition score_total :: "score_input \<Rightarrow> rat" where
  "score_total i =
     (let violationRate = (if si_interactions i > 0 then of_int (si_violations i) / of_int (si_interactions i) else 0);
          successScore = min (of_int (si_interactions i) / 1000) 1 * (3 / 10);
          violationScore = (1 - min (violationRate * 10) 1) * (3 / 10);
          uptimeScore = (si_uptime i / 100) * (15 / 100);
          latencyScore = max 0 (1 - si_latency i / 5000) * (5 / 100);
          ageScore = min (of_int (si_age i) / 365) 1 * (1 / 10);
          total = successScore + violationScore + uptimeScore + latencyScore + ageScore;
          total = (if si_verified i then total + 1 / 10 else total)
      in min total 1)"

definition compute_score :: "int \<Rightarrow> score_input \<Rightarrow> score" where
  "compute_score now i =
     (if si_interactions i < 10 then \<lparr>sc_agent = [], sc_score = 0, sc_rated = False, sc_updated = now\<rparr>
      else \<lparr>sc_agent = [], sc_score = round_away (score_total i * 100) / 100, sc_rated = True, sc_updated = now\<rparr>)"

text \<open>The batch job logs that it ran.\<close>

definition run_batch_scoring :: "unit res act" where
  "run_batch_scoring = State_Monad.return (Inr ())"

section \<open>The registry (\<open>registry.go\<close>)\<close>

record tool =
  tool_name :: string
  tool_description :: string

record pricing =
  pc_model :: string
  pc_per_call :: rat
  pc_subscription :: rat

record capability_listing =
  cl_agent_id :: string
  cl_org_id :: string
  cl_endpoint :: string
  cl_tools :: "tool list"
  cl_trust_score :: rat
  cl_pricing :: pricing

definition registry_search :: "string \<Rightarrow> capability_listing list res act" where
  "registry_search query = State_Monad.return (Inr [])"

definition registry_publish :: "capability_listing \<Rightarrow> unit res act" where
  "registry_publish listing = State_Monad.return (Inr ())"

text \<open>The zero time stands for the unset \<open>UpdatedAt\<close>.\<close>

definition registry_trust_score :: "string \<Rightarrow> score res act" where
  "registry_trust_score agent =
     State_Monad.return (Inr \<lparr>sc_agent = agent, sc_score = 1 / 2, sc_rated = False, sc_updated = zero_time\<rparr>)"

section \<open>Transactions (\<open>transactions.go\<close>)\<close>

record transaction =
  tx_id :: string
  tx_corr :: string
  tx_caller_org :: string
  tx_provider_org :: string
  tx_caller_agent :: string
  tx_provider_agent :: string
  tx_tool :: string
  tx_duration_ms :: int
  tx_price :: rat
  tx_status :: string
  tx_created_at :: int

record transaction_summary =
  ts_total :: int
  ts_revenue :: rat
  ts_fee :: rat
  ts_period :: string

definition record_transaction :: "transaction \<Rightarrow> unit res act" where
  "record_transaction txn = State_Monad.return (Inr ())"

definition summarize_transactions :: "string \<Rightarrow> transaction_summary res act" where
  "summarize_transactions org =
     State_Monad.return (Inr \<lparr>ts_total = 0, ts_revenue = 0, ts_fee = 0, ts_period = ''current_month''\<rparr>)"

definition run_settlement :: "unit res act" where
  "run_settlement = State_Monad.return (Inr ())"

section \<open>Agreements (\<open>agreements.go\<close>)\<close>

record agreement =
  ag_id :: string
  ag_caller_org :: string
  ag_provider_org :: string
  ag_caller :: string
  ag_provider :: string
  ag_caller_policy :: json
  ag_provider_policy :: json
  ag_status :: string

definition agreement_policy :: "string \<Rightarrow> string \<Rightarrow> string \<times> string \<Rightarrow> json" where
  "agreement_policy i tool peer = JObj [(''rules'', JArr [JObj [(''id'', JStr i), (''protocol'', JStr ''mcp''),
     (''method'', JStr ''tool_call''), (''target'', JStr tool), (''action'', JStr ''allow''), (fst peer, JStr (snd peer))]])]"

definition generate_bilateral :: "string \<Rightarrow> string \<Rightarrow> string \<Rightarrow> agreement" where
  "generate_bilateral caller provider tool =
     \<lparr>ag_id = [], ag_caller_org = [], ag_provider_org = [], ag_caller = caller, ag_provider = provider,
      ag_caller_policy = agreement_policy (''allow-call-'' @ tool) tool (''to_agent'', provider),
      ag_provider_policy = agreement_policy (''allow-from-'' @ tool) tool (''from_agent'', caller), ag_status = ''pending''\<rparr>"

section \<open>Billing (\<open>metering.go\<close>, \<open>stripe.go\<close>)\<close>

text \<open>\<open>metering.go\<close>: nothing is counted, so no organization ever exceeds its plan.\<close>

definition record_trace_upload :: "string \<Rightarrow> unit res act" where
  "record_trace_upload org = State_Monad.return (Inr ())"

definition check_limits :: "string \<Rightarrow> (bool \<times> string) res act" where
  "check_limits org = State_Monad.return (Inr (False, []))"

definition enforce_retention :: "unit res act" where
  "enforce_retention = State_Monad.return (Inr ())"

record plan =
  pn_id :: string
  pn_name :: string
  pn_price :: int
  pn_retention_days :: int
  pn_max_traces :: int
  pn_max_agents :: int

definition plans :: "plan list" where
  "plans =
     [\<lparr>pn_id = ''free'', pn_name = ''Free'', pn_price = 0, pn_retention_days = 7, pn_max_traces = 100, pn_max_agents = 3\<rparr>,
      \<lparr>pn_id = ''team'', pn_name = ''Team'', pn_price = 5000, pn_retention_days = 30, pn_max_traces = 10000,
       pn_max_agents = 25\<rparr>,
      \<lparr>pn_id = ''enterprise'', pn_name = ''Enterprise'', pn_price = 25000, pn_retention_days = 365, pn_max_traces = -1,
       pn_max_agents = -1\<rparr>]"

definition create_checkout_session :: "string \<Rightarrow> string \<Rightarrow> string \<Rightarrow> string res" where
  "create_checkout_session stripe_key org plan_id =
     (if stripe_key = [] then Inl (ErrText ''billing not configured: STRIPE_SECRET_KEY not set'')
      else Inr (''https://checkout.stripe.com/placeholder?org='' @ org @ ''&plan='' @ plan_id))"

record usage =
  ug_org :: string
  ug_traces_used :: int
  ug_traces_limit :: int
  ug_agents_used :: int
  ug_agents_limit :: int
  ug_start :: string
  ug_end :: string

definition get_usage :: "string \<Rightarrow> usage" where
  "get_usage org = \<lparr>ug_org = org, ug_traces_used = 0, ug_traces_limit = 100, ug_agents_used = 0, ug_agents_limit = 3,
     ug_start = ''2026-03-01'', ug_end = ''2026-03-31''\<rparr>"

section \<open>Bounds of a score\<close>

lemma round_away_between: "of_int a \<le> q \<Longrightarrow> q \<le> of_int b \<Longrightarrow> 0 \<le> a \<Longrightarrow> of_int a \<le> round_away q \<and> round_away q \<le> of_int b"
  unfolding round_away_def by (auto simp: floor_le_iff le_floor_iff)

lemma score_total_le: "score_total i \<le> 1"
  by (simp add: score_total_def Let_def)

lemma score_total_nonneg:
  assumes "0 \<le> si_uptime i" "0 \<le> si_interactions i" "0 \<le> si_age i"
  shows "0 \<le> score_total i"
proof -
  let ?v = "if si_interactions i > 0 then of_int (si_violations i) / of_int (si_interactions i) else 0 :: rat"
  have "0 \<le> min (of_int (si_interactions i) / 1000) (1::rat)" "0 \<le> 1 - min (?v * 10) 1"
    "0 \<le> max 0 (1 - si_latency i / 5000)" "0 \<le> min (of_int (si_age i) / 365) (1::rat)"
    using assms by auto
  then show ?thesis using assms(1) unfolding score_total_def Let_def by auto
qed

text \<open>A score lies between 0 and 1, in hundredths.\<close>

lemma score_bounds:
  assumes "0 \<le> si_uptime i" "0 \<le> si_age i"
  shows "0 \<le> sc_score (compute_score now i) \<and> sc_score (compute_score now i) \<le> 1"
proof (cases "si_interactions i < 10")
  case False
  then have "0 \<le> score_total i * 100" "score_total i * 100 \<le> 100"
    using score_total_nonneg [of i] score_total_le [of i] assms by auto
  from round_away_between [of 0 _ 100, simplified, OF this] False show ?thesis
    by (simp add: compute_score_def)
qed (simp add: compute_score_def)

lemma score_in_hundredths: "\<exists>n::int. sc_score (compute_score now i) * 100 = of_int n"
proof (cases "si_interactions i < 10")
  case False
  have "\<exists>n::int. round_away q = of_int n" for q
    unfolding round_away_def by (metis of_int_minus)
  with False show ?thesis by (simp add: compute_score_def)
qed (auto simp: compute_score_def intro: exI [of _ 0])

end
