(* ===== verification/Spec2Isabelle.thy ===== *)
theory Spec2Isabelle
  imports Policy_Simulate Simulate_Workers Trace_Races Trace_Refines Policy_Delivery Governance Revocation Audit_Trail Boot Trust
begin

text \<open>
  \<^bold>\<open>The Relic platform.\<close> The repository is the control plane of an agent-governance product. Agents run
  under a policy and upload the traces of their runs; the server \<open>relic-api\<close> verifies, stores and serves
  them, manages organizations, API keys, users, agents and policies, simulates candidate policies over
  recorded runs and pushes updates to agents and dashboards. Beside it run a retention sweeper, the
  governance worker \<open>relic-governance\<close>, and administrative commands (migrations, backup, evidence packs).
  This development models the Go code under \<open>src/\<close> as HOL functions and proves what makes it correct.

  \<^bold>\<open>How the parts interact.\<close> A request goes through the middleware stack (\<open>Gateway\<close>) to the auth
  middleware (\<open>Middleware\<close>), which asks the API keys in PostgreSQL (\<open>Storage\<close>) or the provider (\<open>Auth\<close>),
  and on to a handler (\<open>Handlers_Traces\<close>, \<open>Handlers_Policy\<close>, \<open>Handlers_Identity\<close>, \<open>Simulate_Runner\<close>). A
  handler is a state transformer on the world: database, bucket, clock, random bytes, the two
  notification channels (\<open>Server\<close>). An upload is parsed and verified (\<open>Trace_Parse\<close>, \<open>Trace_Chain\<close>) and
  then stored and indexed; the sweeper (\<open>Retention\<close>) removes it when it expires; the simulator
  (\<open>Policy_Simulate\<close>) and the governance worker (\<open>Governance\<close>) read it back. A published policy set goes
  through PostgreSQL's channel into the hubs (\<open>Feeds\<close>) and out on event streams.

  \<^bold>\<open>Theories and sources.\<close>
  \<^item> \<open>Prelude\<close>, \<open>Go_Json\<close>, \<open>Json_Write\<close>: what the code uses of Go's standard library: errors as values,
    strings, numbers, hexadecimal, stable sorting, \<open>encoding/json\<close> in both directions.
  \<^item> \<open>Policy\<close>, \<open>Sequence\<close>, \<open>Policy_Simulate\<close>: \<open>internal/policy\<close> (\<open>parser.go\<close>, \<open>engine.go\<close>, \<open>sequence.go\<close>,
    \<open>simulate.go\<close>).
  \<^item> \<open>Trace_Chain\<close>, \<open>Trace_Parse\<close>: \<open>internal/trace\<close>.
  \<^item> \<open>Storage_Db\<close>, \<open>Storage\<close>, \<open>Identity\<close>, \<open>Tenancy\<close>, \<open>Storage_Props\<close>: \<open>internal/storage\<close>; typed tables with
    the keys, references and checks of the migrations, one operation per method, each statement of
    which may fail (\<open>db_faults\<close>).
  \<^item> \<open>Feeds\<close>: \<open>internal/policyfeed/hub.go\<close> and \<open>internal/livefeed/hub.go\<close>.
  \<^item> \<open>Http\<close>, \<open>Middleware\<close>: requests, responses, \<open>internal/api/middleware\<close>.
  \<^item> \<open>Auth\<close>, \<open>Flow_Cookie\<close>: \<open>internal/auth\<close> and the signed cookie of \<open>internal/api/oidc_handlers.go\<close>.
  \<^item> \<open>Server\<close>, \<open>Handlers_Traces\<close>, \<open>Handlers_Policy\<close>, \<open>Handlers_Identity\<close>, \<open>Router\<close>: the handlers of
    \<open>internal/api\<close> and the protected routes; \<open>Trace_Store\<close> and \<open>Server_Props\<close> hold their properties.
    \<open>Store_Relations\<close>: what most of them leave alone (locales \<open>quiet_relation\<close>, \<open>key_relation\<close>,
    \<open>handler_relation\<close>). \<open>Trace_Refines\<close>: the map that the trace endpoints implement. \<open>Trace_Races\<close>:
    uploads, deletions and sweeps call by call, in any interleaving. \<open>Policy_Delivery\<close>: a policy set from
    the request that writes it to the runtimes that watch it.
  \<^item> \<open>Gateway\<close>, \<open>Gateway_Props\<close>, \<open>Gateway_Tenancy\<close>: \<open>Router()\<close> of \<open>internal/api/server.go\<close>: table of
    routes, public endpoints, limiters, logger, the stack in its order, and the state all requests share.
    \<open>Server_Relations\<close>: what the server keeps over any sequence of requests and sweeps (locale
    \<open>server_relation\<close>, step relation \<open>server_run\<close>), for \<open>Revocation\<close> of API keys and the \<open>Audit_Trail\<close>
    (\<open>internal/api/audit.go\<close>).
  \<^item> \<open>Simulate_Runner\<close>: \<open>internal/simulate/runner.go\<close>, \<open>internal/api/simulate.go\<close>; \<open>Simulate_Workers\<close>: its
    goroutines, semaphore, channel and concurrent jobs as step relations. \<open>Governance\<close>:
    \<open>internal/governance\<close>. \<open>Retention\<close>: \<open>internal/retention/worker.go\<close>.
  \<^item> \<open>Archive\<close>, \<open>Compliance\<close>, \<open>Backup\<close>: \<open>internal/compliance\<close> and \<open>cmd/relic-api/backup.go\<close>. \<open>Migrate\<close>:
    \<open>internal/migrate/runner.go\<close>.
  \<^item> \<open>Commands\<close>, \<open>Commands_Props\<close>, \<open>Boot\<close>: \<open>cmd/relic-api\<close>, \<open>cmd/relic-governance\<close>, \<open>internal/version\<close>, the
    pools of \<open>internal/storage\<close>. \<open>Observe\<close>: \<open>internal/metrics\<close>, \<open>internal/telemetry\<close>,
    \<open>internal/observability\<close>, \<open>internal/integrations/otel\<close>. \<open>Trust\<close>: \<open>internal/trust\<close>, \<open>internal/billing\<close>.

  \<^bold>\<open>What the lemmas show.\<close>
  \<^item> Policies: evaluation implements its first-match specification; validation is sound and complete; a
    valid enforcing policy fails closed; the ring buffer is the list of the last calls, and a sequence
    rule fires exactly when its pattern occurs there; a simulation counts and samples exactly and
    does not depend on the order of its downloads; its worker pool is bounded, never blocks and ends.
  \<^item> Traces: sealing and verifying are inverse; a verified chain fixes its lines unless the MAC
    collides; the verified mark is exact; in every reachable state of requests and sweeps an indexed
    run has its object, also when their calls interleave, unless a run is deleted and uploaded again
    at once; an upload is all or nothing; the trace endpoints implement a map from
    organization and run id to the uploaded bytes.
  \<^item> Tenants: every storage operation, and every request through the whole server, leaves the other
    organizations' rows as they were and keeps the database's constraints. The locales \<open>owned_store\<close>,
    \<open>world_relation\<close> and \<open>gate_relation\<close> state what an operation, a handler and the stack need for that,
    each interpreted on the model.
  \<^item> Access: authentication fails closed, at the middleware and at the socket; a revoked API key
    is refused for ever, whatever the server does in between; refused logins are
    uniform; a session is its user's; an issued token authenticates, for every
    implementation of Go's \<open>Provider\<close> (locale \<open>token_provider\<close>); cookies and secrets round-trip; the audit
    log is append-only and complete; the CSRF token is demanded
    twice; the limiter's bound; the security headers; answers have their documented shape.
  \<^item> Operations: migrations are applied once and in order; a backup restores; an evidence pack verifies
    and counts; sweeps drain what has expired; denial patterns are exact; an update
    published by a request reaches the subscriptions of its agents, hubs stay bounded; the first
    administrator can log in; telemetry reveals only buckets.

  \<^bold>\<open>Parameters.\<close> Code that is not in the repository is an argument: YAML, regular expressions and
  \<open>doublestar\<close> (\<open>policy_libs\<close>); gzip, HMAC and time parsing (\<open>trace_libs\<close>, \<open>time_libs\<close>); JWT, bcrypt and
  hashes (\<open>auth_libs\<close>), the identity provider's answers; tar and gzip archives (\<open>archive_libs\<close>); the effect
  of a migration script (\<open>migrate_libs\<close>); the language model's reply; chi, CORS and promhttp
  (\<open>gate_libs\<close>); pgxpool, the AWS and OpenTelemetry SDKs (\<open>boot_libs\<close>). Where a property needs one of them
  to behave as documented, that is a named hypothesis (\<open>archive_ok\<close>, \<open>jwt_accepts\<close>, \<open>bcrypt_ok\<close>,
  \<open>router_plain\<close> and others) and a witness instantiates it.

  \<^bold>\<open>Bounds.\<close> Loops over input are structural recursions. The JSON parser recurses with the length of its
  input plus one as fuel; every value consumes a character, so it never runs out. The memo-free
  subsequence match and the sweeps recurse on lists and ticks. The drain property gives the number of
  sweeps that suffice. Go's \<open>int\<close> is unbounded except where a width shows (\<open>atoi_value\<close>, \<open>int32\<close>);
  \<open>float64\<close> averages, token counts and trust scores are rationals.

  \<^bold>\<open>Interleaving.\<close> A handler runs as one step, a lock's critical section too. Steps of requests, sweeps,
  listeners and subscribers may come in any order (\<open>hub_reaches\<close>, \<open>Trace_Store\<close>'s platform steps). Where
  two calls of one handler matter, each call is a step: \<open>schedule\<close> in \<open>Trace_Races\<close>, \<open>pool_step\<close> and
  \<open>jobs_step\<close> in \<open>Simulate_Workers\<close>; lemmas (\<open>upload_in_steps\<close>, \<open>run_job_in_steps\<close> and others) show that the
  handler run alone is the sequence of its steps. The pool takes \<open>5 n + 2\<close> steps for \<open>n\<close> runs. A failing
  statement, bucket call or random source is a value in the state, so every error branch is reached.

  \<^bold>\<open>Not modelled.\<close> Log lines; deadlines (a timeout is a failing call); response compression and panic
  recovery; row-level security, which the owner's connection bypasses; sockets, signals and process
  exit beyond the exit code; the handlers' calls of the OpenTelemetry emitters; tests,
  migrations' SQL beyond keys and checks, and deployment files.
\<close>

end
